(* ===== verification/Bpf_Prelude.thy ===== *)
theory Bpf_Prelude
  imports Main "HOL-Library.Word" "HOL-Library.AList" "HOL-Library.Sublist"
begin

text \<open>
  Prelude of the development: the C scalar types of the eBPF programs, the byte strings
  they handle, and the generic lemmas that the component theories share. The scalar types are
  the typedefs at the head of
  \<^verbatim>\<open>src/watcher/internal/ebpf/bpf/headers/vmlinux.h\<close>. Signed and unsigned types of one
  width share the word type; a signed use is written with \<open>sint\<close>, \<open>scast\<close> or the signed
  order \<open><s\<close>.

  The locale \<open>event_machine\<close> is the contract of every program of the watcher: each hook that
  fires is one step on the program's maps, a state invariant survives every admissible step,
  hence every run. \<open>counting_machine\<close> extends it with a wrapping 64-bit counter and states
  what the counter holds after a run.
\<close>

unbundle bit_operations_syntax

section \<open>Scalar types\<close>

type_synonym u8 = "8 word"
type_synonym u16 = "16 word"
type_synonym u32 = "32 word"
type_synonym u64 = "64 word"
type_synonym s32 = "32 word"
type_synonym s64 = "64 word"

named_theorems map_simps "characteristic equations of the BPF map operations"
named_theorems handler_defs "definitions of the tracing programs"

section \<open>Process identifiers\<close>

text \<open>
  \<open>bpf_get_current_pid_tgid()\<close> returns the process id (tgid) in the upper and the thread id
  in the lower half of a 64-bit word. All programs take \<open>>> 32\<close> of it into a \<open>__u32\<close>.
\<close>

definition pid_of :: "u64 \<Rightarrow> u32" where
  "pid_of pid_tgid = ucast (drop_bit 32 pid_tgid)"

definition tid_of :: "u64 \<Rightarrow> u32" where
  "tid_of pid_tgid = ucast pid_tgid"

text \<open>The C expression \<open>((__u64)hi << 32) | lo\<close>.\<close>

definition pack64 :: "u32 \<Rightarrow> u64 \<Rightarrow> u64" where
  "pack64 hi lo = push_bit 32 (ucast hi) OR lo"

lemma bit_pack64:
  "bit (pack64 hi lo) n \<longleftrightarrow> (32 \<le> n \<and> n < 64 \<and> bit hi (n - 32)) \<or> bit lo n"
  by (auto simp: pack64_def bit_simps dest: bit_imp_le_length)

lemma pack64_pid_tid: "pack64 (pid_of x) (ucast (tid_of x)) = x"
proof (rule bit_word_eqI)
  fix n
  assume "n < LENGTH(64)"
  then show "bit (pack64 (pid_of x) (ucast (tid_of x))) n = bit x n"
    by (auto simp: bit_pack64 pid_of_def tid_of_def bit_simps)
qed

lemma pack64_inj:
  "pack64 h (ucast (l :: u32)) = pack64 h' (ucast (l' :: u32)) \<longleftrightarrow> h = h' \<and> l = l'"
proof
  assume eq: "pack64 h (ucast l) = pack64 h' (ucast l')"
  have "bit l n = bit l' n" if "n < 32" for n
    using arg_cong [OF eq, of "\<lambda>w. bit w n"] that by (simp add: bit_pack64 bit_simps)
  moreover have "bit h n = bit h' n" if "n < 32" for n
    using arg_cong [OF eq, of "\<lambda>w. bit w (n + 32)"] that
    by (auto simp: bit_pack64 bit_simps dest: bit_imp_le_length)
  ultimately show "h = h' \<and> l = l'"
    by (auto intro!: bit_word_eqI)
qed simp

section \<open>Byte strings\<close>

text \<open>
  A C string literal is its bytes followed by NUL. Buffers are lists of bytes.
\<close>

definition bytes_of :: "string \<Rightarrow> u8 list" where
  "bytes_of s = map of_char s"

definition cstr :: "string \<Rightarrow> u8 list" where
  "cstr s = bytes_of s @ [0]"

text \<open>The string a buffer holds: the bytes before the first NUL.\<close>

definition str_of :: "u8 list \<Rightarrow> u8 list" where
  "str_of buf = takeWhile (\<lambda>c. c \<noteq> 0) buf"

section \<open>Runs of event-driven programs\<close>

locale event_machine =
  fixes step :: "'e \<Rightarrow> 's \<Rightarrow> 's"
    and ok :: "'e \<Rightarrow> bool"
    and inv :: "'s \<Rightarrow> bool"
  assumes step_inv: "ok e \<Longrightarrow> inv s \<Longrightarrow> inv (step e s)"
begin

lemma run_inv: "list_all ok es \<Longrightarrow> inv s \<Longrightarrow> inv (fold step es s)"
  by (induction es arbitrary: s) (auto intro: step_inv)

end

locale counting_machine = event_machine step ok inv
  for step :: "'e \<Rightarrow> 's \<Rightarrow> 's" and ok :: "'e \<Rightarrow> bool" and inv :: "'s \<Rightarrow> bool" +
  fixes amount :: "'e \<Rightarrow> u64"
    and counter :: "'s \<Rightarrow> u64"
  assumes counter_step: "ok e \<Longrightarrow> inv s \<Longrightarrow> counter (step e s) = counter s + amount e"
begin

lemma run_counter:
  "list_all ok es \<Longrightarrow> inv s \<Longrightarrow>
     counter (fold step es s) = counter s + sum_list (map amount es)"
  by (induction es arbitrary: s) (auto simp: step_inv counter_step add.assoc)

end

text \<open>Counting events is summing indicator amounts.\<close>

lemma sum_list_indicator:
  "sum_list (map (\<lambda>e. if P e then 1 else 0) es) = (of_nat (length (filter P es)) :: u64)"
  by (induction es) (auto simp: add.commute)

end
