(* ===== verification/C_Layout.thy ===== *)
theory C_Layout
  imports Bpf_Prelude
begin

text \<open>
  How C lays a structure out in memory on x86-64: sizes, alignments, bit fields, unions. The types
  of the header and of the programs' events are values of \<open>ctype\<close>; the functions compute what
  the compiler computes. The lemmas show that the layout is sound for every structure: members are
  in order, disjoint, aligned, and inside the structure.
\<close>

section \<open>Types\<close>

text \<open>
  An integer of some bytes (its alignment is its size), a pointer to a named structure, an array,
  a structure, a union. A member has a name (empty if it has none), a width if it is a bit
  field, and a type.
\<close>

datatype ctype =
  Scalar nat
| Ptr string
| Arr nat ctype
| Struct "member list"
| Union "member list"
and member = Mem string "nat option" ctype

definition round_up :: "nat \<Rightarrow> nat \<Rightarrow> nat" where
  "round_up n a = (n + a - 1) div a * a"

lemma round_up_ge: "0 < a \<Longrightarrow> n \<le> round_up n a"
proof -
  assume "0 < a"
  then have "n + a - 1 = (n + a - 1) div a * a + (n + a - 1) mod a" and "(n + a - 1) mod a < a"
    by simp_all
  then show ?thesis unfolding round_up_def by linarith
qed

lemma round_up_dvd: "a dvd round_up n a"
  by (simp add: round_up_def)

section \<open>Alignment and size\<close>

text \<open>An unnamed bit field does not raise the alignment of its structure.\<close>

fun align_of :: "ctype \<Rightarrow> nat" and align_all :: "member list \<Rightarrow> nat" where
  "align_of (Scalar n) = max 1 n"
| "align_of (Ptr s) = 8"
| "align_of (Arr n t) = align_of t"
| "align_of (Struct ms) = align_all ms"
| "align_of (Union ms) = align_all ms"
| "align_all [] = 1"
| "align_all (Mem x b t # ms) =
     (if b \<noteq> None \<and> x = [] then align_all ms else lcm (align_of t) (align_all ms))"

text \<open>
  Where a member goes when \<open>pos\<close> bits are used: a plain member at the next multiple of its
  alignment; a bit field directly, unless it would cross a storage unit of its type; a bit field of
  width zero closes the unit.
\<close>

fun size_of :: "ctype \<Rightarrow> nat" and struct_bits :: "nat \<Rightarrow> member list \<Rightarrow> nat"
  and union_size :: "member list \<Rightarrow> nat" where
  "size_of (Scalar n) = n"
| "size_of (Ptr s) = 8"
| "size_of (Arr n t) = n * size_of t"
| "size_of (Struct ms) = round_up ((struct_bits 0 ms + 7) div 8) (align_all ms)"
| "size_of (Union ms) = round_up (union_size ms) (align_all ms)"
| "struct_bits pos [] = pos"
| "struct_bits pos (Mem x None t # ms) = struct_bits (round_up pos (8 * align_of t) + 8 * size_of t) ms"
| "struct_bits pos (Mem x (Some w) t # ms) =
     (if w = 0 \<or> pos mod (8 * size_of t) + w > 8 * size_of t
      then struct_bits (round_up pos (8 * size_of t) + w) ms
      else struct_bits (pos + w) ms)"
| "union_size [] = 0"
| "union_size (Mem x None t # ms) = max (size_of t) (union_size ms)"
| "union_size (Mem x (Some w) t # ms) = max ((w + 7) div 8) (union_size ms)"

fun place :: "nat \<Rightarrow> member \<Rightarrow> nat" where
  "place pos (Mem x None t) = round_up pos (8 * align_of t)"
| "place pos (Mem x (Some w) t) =
     (if w = 0 \<or> pos mod (8 * size_of t) + w > 8 * size_of t
      then round_up pos (8 * size_of t) else pos)"

fun width :: "member \<Rightarrow> nat" where
  "width (Mem x None t) = 8 * size_of t"
| "width (Mem x (Some w) t) = w"

text \<open>The start bit of every member.\<close>

fun starts :: "nat \<Rightarrow> member list \<Rightarrow> nat list" where
  "starts pos [] = []"
| "starts pos (m # ms) = place pos m # starts (place pos m + width m) ms"

lemma struct_bits_Cons: "struct_bits pos (m # ms) = struct_bits (place pos m + width m) ms"
proof -
  obtain x b t where "m = Mem x b t" by (cases m)
  then show ?thesis by (cases b) auto
qed

section \<open>Soundness\<close>

lemma align_positive: "0 < align_of t" "0 < align_all ms"
  by (induction t and ms rule: align_of_align_all.induct) (auto simp: lcm_pos_nat)

lemma align_member: "Mem x b t \<in> set ms \<Longrightarrow> b = None \<or> x \<noteq> [] \<Longrightarrow> align_of t dvd align_all ms"
proof (induction ms)
  case (Cons m ms)
  obtain x' b' t' where m: "m = Mem x' b' t'" by (cases m)
  with Cons show ?case by (auto intro: dvd_trans)
qed simp

text \<open>Bit fields have a type with a size.\<close>

fun bits_ok :: "member \<Rightarrow> bool" where
  "bits_ok (Mem x None t) \<longleftrightarrow> True"
| "bits_ok (Mem x (Some w) t) \<longleftrightarrow> 0 < size_of t"

lemma place_ge: "bits_ok m \<Longrightarrow> pos \<le> place pos m"
proof -
  assume ok: "bits_ok m"
  obtain x b t where m: "m = Mem x b t" by (cases m)
  show ?thesis
  proof (cases b)
    case None
    have "pos \<le> round_up pos (8 * align_of t)" by (rule round_up_ge) (simp add: align_positive)
    with m None show ?thesis by simp
  next
    case (Some w)
    then have "pos \<le> round_up pos (8 * size_of t)" using ok m by (intro round_up_ge) simp
    with m Some show ?thesis by simp
  qed
qed

lemma struct_bits_ge: "list_all bits_ok ms \<Longrightarrow> pos \<le> struct_bits pos ms"
proof (induction ms arbitrary: pos)
  case (Cons m ms)
  then have "place pos m + width m \<le> struct_bits (place pos m + width m) ms" by simp
  moreover have "pos \<le> place pos m" using Cons.prems by (simp add: place_ge)
  ultimately show ?case unfolding struct_bits_Cons by linarith
qed simp

lemma length_starts [simp]: "length (starts pos ms) = length ms"
  by (induction ms arbitrary: pos) auto

lemma starts_ge: "list_all bits_ok ms \<Longrightarrow> i < length ms \<Longrightarrow> pos \<le> starts pos ms ! i"
proof (induction ms arbitrary: pos i)
  case (Cons m ms)
  then have "pos \<le> place pos m" by (simp add: place_ge)
  moreover have "place pos m + width m \<le> starts (place pos m + width m) ms ! (i - 1)" if "0 < i"
    using Cons that by simp
  ultimately show ?case by (cases i) force+
qed simp

lemma starts_inside:
  "list_all bits_ok ms \<Longrightarrow> i < length ms \<Longrightarrow> starts pos ms ! i + width (ms ! i) \<le> struct_bits pos ms"
proof (induction ms arbitrary: pos i)
  case (Cons m ms)
  then show ?case
    unfolding struct_bits_Cons by (cases i) (simp_all add: struct_bits_ge)
qed simp

lemma starts_disjoint:
  "list_all bits_ok ms \<Longrightarrow> i < j \<Longrightarrow> j < length ms \<Longrightarrow>
     starts pos ms ! i + width (ms ! i) \<le> starts pos ms ! j"
proof (induction ms arbitrary: pos i j)
  case (Cons m ms)
  then obtain k where j: "j = Suc k" by (cases j) auto
  show ?case
  proof (cases i)
    case 0
    with Cons.prems j show ?thesis by (simp add: starts_ge)
  next
    case (Suc l)
    with Cons j show ?thesis by simp
  qed
qed simp

lemma starts_aligned:
  "i < length ms \<Longrightarrow> ms ! i = Mem x None t \<Longrightarrow> 8 * align_of t dvd starts pos ms ! i"
proof (induction ms arbitrary: pos i)
  case (Cons m ms)
  then show ?case by (cases i) (auto simp: round_up_dvd)
qed simp

lemma struct_size:
  "struct_bits 0 ms \<le> 8 * size_of (Struct ms)" "align_all ms dvd size_of (Struct ms)"
proof -
  have "(struct_bits 0 ms + 7) div 8 \<le> size_of (Struct ms)"
    by (simp add: round_up_ge align_positive)
  then show "struct_bits 0 ms \<le> 8 * size_of (Struct ms)" by linarith
qed (simp add: round_up_dvd)

section \<open>Looking members up\<close>

text \<open>
  The type of a named member; unnamed structures and unions are searched, as C does. The search
  takes the first member of the name.
\<close>

fun find_member :: "string \<Rightarrow> ctype \<Rightarrow> ctype option"
  and find_in :: "string \<Rightarrow> member list \<Rightarrow> ctype option" where
  "find_member f (Struct ms) = find_in f ms"
| "find_member f (Union ms) = find_in f ms"
| "find_member f (Scalar n) = None"
| "find_member f (Ptr s) = None"
| "find_member f (Arr n t) = None"
| "find_in f [] = None"
| "find_in f (Mem x b t # ms) =
     (if x = f then Some t
      else if x = [] then
        case find_member f t of Some u \<Rightarrow> Some u | None \<Rightarrow> find_in f ms
      else find_in f ms)"

text \<open>The type of a member path \<open>a.b.c\<close>.\<close>

fun member_type :: "ctype \<Rightarrow> string list \<Rightarrow> ctype option" where
  "member_type t [] = Some t"
| "member_type t (f # fs) =
     (case find_member f t of None \<Rightarrow> None | Some u \<Rightarrow> member_type u fs)"

text \<open>
  The type that \<open>BPF_CORE_READ(p, a, b.c, d)\<close> delivers, for \<open>p\<close> a pointer to the structure of the
  given name: all but the last step must end in a pointer to a known structure.
\<close>

fun core_read_type :: "(string \<Rightarrow> ctype option) \<Rightarrow> string \<Rightarrow> string list list \<Rightarrow> ctype option" where
  "core_read_type types s [] = None"
| "core_read_type types s [path] =
     (case types s of None \<Rightarrow> None | Some t \<Rightarrow> member_type t path)"
| "core_read_type types s (path # path' # paths) =
     (case types s of
        None \<Rightarrow> None
      | Some t \<Rightarrow>
        (case member_type t path of
           Some (Ptr s') \<Rightarrow> core_read_type types s' (path' # paths)
         | _ \<Rightarrow> None))"

end
