(* ===== verification/Kernel_Types.thy ===== *)
theory Kernel_Types
  imports C_Layout
begin

text \<open>
  The kernel types of \<^verbatim>\<open>src/watcher/internal/ebpf/bpf/headers/vmlinux.h\<close> that the programs
  reach: the context structures of their hooks, the registers, the objects on the paths of
  \<open>BPF_CORE_READ\<close>, and most of the structures that these objects point to, each with every
  type it contains by value, member for member in the order of
  the header. A type \<open>x\<close> of the header is the definition \<open>x_ct\<close>. Enumerations are 4-byte
  integers; function pointers and pointers to anything but a structure or union carry no target name.
\<close>

definition k_s64_ct :: ctype where "k_s64_ct = Scalar 8"

definition s64_ct :: ctype where "s64_ct = k_s64_ct"

definition atomic64_t_ct :: ctype where
  "atomic64_t_ct = Struct
     [Mem ''counter'' None s64_ct]"

definition atomic_long_t_ct :: ctype where "atomic_long_t_ct = atomic64_t_ct"

definition k_kernel_uid32_t_ct :: ctype where "k_kernel_uid32_t_ct = Scalar 4"

definition uid_t_ct :: ctype where "uid_t_ct = k_kernel_uid32_t_ct"

definition kuid_t_ct :: ctype where
  "kuid_t_ct = Struct
     [Mem ''val'' None uid_t_ct]"

definition k_kernel_gid32_t_ct :: ctype where "k_kernel_gid32_t_ct = Scalar 4"

definition gid_t_ct :: ctype where "gid_t_ct = k_kernel_gid32_t_ct"

definition kgid_t_ct :: ctype where
  "kgid_t_ct = Struct
     [Mem ''val'' None gid_t_ct]"

definition k_u64_ct :: ctype where "k_u64_ct = Scalar 8"

definition u64_ct :: ctype where "u64_ct = k_u64_ct"

definition kernel_cap_t_ct :: ctype where
  "kernel_cap_t_ct = Struct
     [Mem ''val'' None u64_ct]"

definition callback_head_ct :: ctype where
  "callback_head_ct = Struct
     [Mem ''next'' None (Ptr ''callback_head''), Mem ''func'' None (Ptr '''')]"

definition cred_ct :: ctype where
  "cred_ct = Struct
     [Mem ''usage'' None atomic_long_t_ct, Mem ''uid'' None kuid_t_ct,
      Mem ''gid'' None kgid_t_ct, Mem ''suid'' None kuid_t_ct, Mem ''sgid'' None kgid_t_ct,
      Mem ''euid'' None kuid_t_ct, Mem ''egid'' None kgid_t_ct, Mem ''fsuid'' None kuid_t_ct,
      Mem ''fsgid'' None kgid_t_ct, Mem ''securebits'' None (Scalar 4),
      Mem ''cap_inheritable'' None kernel_cap_t_ct, Mem ''cap_permitted'' None kernel_cap_t_ct,
      Mem ''cap_effective'' None kernel_cap_t_ct, Mem ''cap_bset'' None kernel_cap_t_ct,
      Mem ''cap_ambient'' None kernel_cap_t_ct, Mem ''jit_keyring'' None (Scalar 1),
      Mem ''session_keyring'' None (Ptr ''key''), Mem ''process_keyring'' None (Ptr ''key''),
      Mem ''thread_keyring'' None (Ptr ''key''), Mem ''request_key_auth'' None (Ptr ''key''),
      Mem ''security'' None (Ptr ''''), Mem ''user'' None (Ptr ''user_struct''),
      Mem ''user_ns'' None (Ptr ''user_namespace''), Mem ''ucounts'' None (Ptr ''ucounts''),
      Mem ''group_info'' None (Ptr ''group_info''),
      Mem '''' None (Union
        [Mem ''non_rcu'' None (Scalar 4), Mem ''rcu'' None callback_head_ct])]"

definition llist_node_ct :: ctype where
  "llist_node_ct = Struct
     [Mem ''next'' None (Ptr ''llist_node'')]"

definition atomic_t_ct :: ctype where
  "atomic_t_ct = Struct
     [Mem ''counter'' None (Scalar 4)]"

definition k_u8_ct :: ctype where "k_u8_ct = Scalar 1"

definition u8_ct :: ctype where "u8_ct = k_u8_ct"

definition k_u16_ct :: ctype where "k_u16_ct = Scalar 2"

definition u16_ct :: ctype where "u16_ct = k_u16_ct"

definition qspinlock_ct :: ctype where
  "qspinlock_ct = Struct
     [Mem '''' None (Union
        [Mem ''val'' None atomic_t_ct,
         Mem '''' None (Struct
           [Mem ''locked'' None u8_ct, Mem ''pending'' None u8_ct]),
         Mem '''' None (Struct
           [Mem ''locked_pending'' None u16_ct, Mem ''tail'' None u16_ct])])]"

definition arch_spinlock_t_ct :: ctype where "arch_spinlock_t_ct = qspinlock_ct"

definition raw_spinlock_ct :: ctype where
  "raw_spinlock_ct = Struct
     [Mem ''raw_lock'' None arch_spinlock_t_ct]"

definition spinlock_ct :: ctype where
  "spinlock_ct = Struct
     [Mem '''' None (Union
        [Mem ''rlock'' None raw_spinlock_ct])]"

definition spinlock_t_ct :: ctype where "spinlock_t_ct = spinlock_ct"

definition fmode_t_ct :: ctype where "fmode_t_ct = Scalar 4"

definition raw_spinlock_t_ct :: ctype where "raw_spinlock_t_ct = raw_spinlock_ct"

definition optimistic_spin_queue_ct :: ctype where
  "optimistic_spin_queue_ct = Struct
     [Mem ''tail'' None atomic_t_ct]"

definition list_head_ct :: ctype where
  "list_head_ct = Struct
     [Mem ''next'' None (Ptr ''list_head''), Mem ''prev'' None (Ptr ''list_head'')]"

definition mutex_ct :: ctype where
  "mutex_ct = Struct
     [Mem ''owner'' None atomic_long_t_ct, Mem ''wait_lock'' None raw_spinlock_t_ct,
      Mem ''osq'' None optimistic_spin_queue_ct, Mem ''wait_list'' None list_head_ct]"

definition k_kernel_loff_t_ct :: ctype where "k_kernel_loff_t_ct = Scalar 8"

definition loff_t_ct :: ctype where "loff_t_ct = k_kernel_loff_t_ct"

definition qrwlock_ct :: ctype where
  "qrwlock_ct = Struct
     [Mem '''' None (Union
        [Mem ''cnts'' None atomic_t_ct,
         Mem '''' None (Struct
           [Mem ''wlocked'' None u8_ct, Mem ''__lstate'' None (Arr 3 u8_ct)])]),
      Mem ''wait_lock'' None arch_spinlock_t_ct]"

definition arch_rwlock_t_ct :: ctype where "arch_rwlock_t_ct = qrwlock_ct"

definition rwlock_t_ct :: ctype where
  "rwlock_t_ct = Struct
     [Mem ''raw_lock'' None arch_rwlock_t_ct]"

definition fown_struct_ct :: ctype where
  "fown_struct_ct = Struct
     [Mem ''lock'' None rwlock_t_ct, Mem ''pid'' None (Ptr ''pid''),
      Mem ''pid_type'' None (Scalar 4), Mem ''uid'' None kuid_t_ct, Mem ''euid'' None kuid_t_ct,
      Mem ''signum'' None (Scalar 4)]"

definition file_ra_state_ct :: ctype where
  "file_ra_state_ct = Struct
     [Mem ''start'' None (Scalar 8), Mem ''size'' None (Scalar 4),
      Mem ''async_size'' None (Scalar 4), Mem ''ra_pages'' None (Scalar 4),
      Mem ''mmap_miss'' None (Scalar 4), Mem ''prev_pos'' None loff_t_ct]"

definition path_ct :: ctype where
  "path_ct = Struct
     [Mem ''mnt'' None (Ptr ''vfsmount''), Mem ''dentry'' None (Ptr ''dentry'')]"

definition k_u32_ct :: ctype where "k_u32_ct = Scalar 4"

definition u32_ct :: ctype where "u32_ct = k_u32_ct"

definition errseq_t_ct :: ctype where "errseq_t_ct = u32_ct"

definition file_ct :: ctype where
  "file_ct = Struct
     [Mem '''' None (Union
        [Mem ''f_task_work'' None callback_head_ct, Mem ''f_llist'' None llist_node_ct,
         Mem ''f_iocb_flags'' None (Scalar 4)]),
      Mem ''f_lock'' None spinlock_t_ct, Mem ''f_mode'' None fmode_t_ct,
      Mem ''f_count'' None atomic_long_t_ct, Mem ''f_pos_lock'' None mutex_ct,
      Mem ''f_pos'' None loff_t_ct, Mem ''f_flags'' None (Scalar 4),
      Mem ''f_owner'' None fown_struct_ct, Mem ''f_cred'' None (Ptr ''cred''),
      Mem ''f_ra'' None file_ra_state_ct, Mem ''f_path'' None path_ct,
      Mem ''f_inode'' None (Ptr ''inode''), Mem ''f_op'' None (Ptr ''file_operations''),
      Mem ''f_version'' None u64_ct, Mem ''f_security'' None (Ptr ''''),
      Mem ''private_data'' None (Ptr ''''), Mem ''f_ep'' None (Ptr ''hlist_head''),
      Mem ''f_mapping'' None (Ptr ''address_space''), Mem ''f_wb_err'' None errseq_t_ct,
      Mem ''f_sb_err'' None errseq_t_ct]"

definition seqcount_ct :: ctype where
  "seqcount_ct = Struct
     [Mem ''sequence'' None (Scalar 4)]"

definition seqcount_t_ct :: ctype where "seqcount_t_ct = seqcount_ct"

definition seqcount_spinlock_ct :: ctype where
  "seqcount_spinlock_ct = Struct
     [Mem ''seqcount'' None seqcount_t_ct]"

definition seqcount_spinlock_t_ct :: ctype where "seqcount_spinlock_t_ct = seqcount_spinlock_ct"

definition hlist_bl_node_ct :: ctype where
  "hlist_bl_node_ct = Struct
     [Mem ''next'' None (Ptr ''hlist_bl_node''), Mem ''pprev'' None (Ptr '''')]"

definition qstr_ct :: ctype where
  "qstr_ct = Struct
     [Mem '''' None (Union
        [Mem '''' None (Struct
           [Mem ''hash'' None u32_ct, Mem ''len'' None u32_ct]),
         Mem ''hash_len'' None u64_ct]),
      Mem ''name'' None (Ptr '''')]"

definition lockref_ct :: ctype where
  "lockref_ct = Struct
     [Mem '''' None (Union
        [Mem ''lock_count'' None k_u64_ct,
         Mem '''' None (Struct
           [Mem ''lock'' None spinlock_t_ct, Mem ''count'' None (Scalar 4)])])]"

definition hlist_node_ct :: ctype where
  "hlist_node_ct = Struct
     [Mem ''next'' None (Ptr ''hlist_node''), Mem ''pprev'' None (Ptr '''')]"

definition hlist_head_ct :: ctype where
  "hlist_head_ct = Struct
     [Mem ''first'' None (Ptr ''hlist_node'')]"

definition dentry_ct :: ctype where
  "dentry_ct = Struct
     [Mem ''d_flags'' None (Scalar 4), Mem ''d_seq'' None seqcount_spinlock_t_ct,
      Mem ''d_hash'' None hlist_bl_node_ct, Mem ''d_parent'' None (Ptr ''dentry''),
      Mem ''d_name'' None qstr_ct, Mem ''d_inode'' None (Ptr ''inode''),
      Mem ''d_iname'' None (Arr 40 (Scalar 1)), Mem ''d_lockref'' None lockref_ct,
      Mem ''d_op'' None (Ptr ''dentry_operations''), Mem ''d_sb'' None (Ptr ''super_block''),
      Mem ''d_time'' None (Scalar 8), Mem ''d_fsdata'' None (Ptr ''''),
      Mem '''' None (Union
        [Mem ''d_lru'' None list_head_ct, Mem ''d_wait'' None (Ptr '''')]),
      Mem ''d_sib'' None hlist_node_ct, Mem ''d_children'' None hlist_head_ct,
      Mem ''d_u'' None (Union
        [Mem ''d_alias'' None hlist_node_ct, Mem ''d_in_lookup_hash'' None hlist_bl_node_ct,
         Mem ''d_rcu'' None callback_head_ct])]"

definition rb_node_ct :: ctype where
  "rb_node_ct = Struct
     [Mem ''__rb_parent_color'' None (Scalar 8), Mem ''rb_right'' None (Ptr ''rb_node''),
      Mem ''rb_left'' None (Ptr ''rb_node'')]"

definition rb_root_ct :: ctype where
  "rb_root_ct = Struct
     [Mem ''rb_node'' None (Ptr ''rb_node'')]"

definition kernfs_elem_dir_ct :: ctype where
  "kernfs_elem_dir_ct = Struct
     [Mem ''subdirs'' None (Scalar 8), Mem ''children'' None rb_root_ct,
      Mem ''root'' None (Ptr ''kernfs_root''), Mem ''rev'' None (Scalar 8)]"

definition kernfs_elem_symlink_ct :: ctype where
  "kernfs_elem_symlink_ct = Struct
     [Mem ''target_kn'' None (Ptr ''kernfs_node'')]"

definition kernfs_elem_attr_ct :: ctype where
  "kernfs_elem_attr_ct = Struct
     [Mem ''ops'' None (Ptr ''kernfs_ops''), Mem ''open'' None (Ptr ''kernfs_open_node''),
      Mem ''size'' None loff_t_ct, Mem ''notify_next'' None (Ptr ''kernfs_node'')]"

definition umode_t_ct :: ctype where "umode_t_ct = Scalar 2"

definition kernfs_node_ct :: ctype where
  "kernfs_node_ct = Struct
     [Mem ''count'' None atomic_t_ct, Mem ''active'' None atomic_t_ct,
      Mem ''parent'' None (Ptr ''kernfs_node''), Mem ''name'' None (Ptr ''''),
      Mem ''rb'' None rb_node_ct, Mem ''ns'' None (Ptr ''''), Mem ''hash'' None (Scalar 4),
      Mem '''' None (Union
        [Mem ''dir'' None kernfs_elem_dir_ct, Mem ''symlink'' None kernfs_elem_symlink_ct,
         Mem ''attr'' None kernfs_elem_attr_ct]),
      Mem ''priv'' None (Ptr ''''), Mem ''id'' None u64_ct, Mem ''flags'' None (Scalar 2),
      Mem ''mode'' None umode_t_ct, Mem ''iattr'' None (Ptr ''kernfs_iattrs''),
      Mem ''rcu'' None callback_head_ct]"

definition refcount_struct_ct :: ctype where
  "refcount_struct_ct = Struct
     [Mem ''refs'' None atomic_t_ct]"

definition refcount_t_ct :: ctype where "refcount_t_ct = refcount_struct_ct"

definition bool_ct :: ctype where "bool_ct = Scalar 1"

definition css_set_ct :: ctype where
  "css_set_ct = Struct
     [Mem ''subsys'' None (Arr 14 (Ptr ''cgroup_subsys_state'')),
      Mem ''refcount'' None refcount_t_ct, Mem ''dom_cset'' None (Ptr ''css_set''),
      Mem ''dfl_cgrp'' None (Ptr ''cgroup''), Mem ''nr_tasks'' None (Scalar 4),
      Mem ''tasks'' None list_head_ct, Mem ''mg_tasks'' None list_head_ct,
      Mem ''dying_tasks'' None list_head_ct, Mem ''task_iters'' None list_head_ct,
      Mem ''e_cset_node'' None (Arr 14 list_head_ct), Mem ''threaded_csets'' None list_head_ct,
      Mem ''threaded_csets_node'' None list_head_ct, Mem ''hlist'' None hlist_node_ct,
      Mem ''cgrp_links'' None list_head_ct, Mem ''mg_src_preload_node'' None list_head_ct,
      Mem ''mg_dst_preload_node'' None list_head_ct, Mem ''mg_node'' None list_head_ct,
      Mem ''mg_src_cgrp'' None (Ptr ''cgroup''), Mem ''mg_dst_cgrp'' None (Ptr ''cgroup''),
      Mem ''mg_dst_cset'' None (Ptr ''css_set''), Mem ''dead'' None bool_ct,
      Mem ''callback_head'' None callback_head_ct]"

definition percpu_ref_ct :: ctype where
  "percpu_ref_ct = Struct
     [Mem ''percpu_count_ptr'' None (Scalar 8), Mem ''data'' None (Ptr ''percpu_ref_data'')]"

definition work_func_t_ct :: ctype where "work_func_t_ct = Ptr ''''"

definition work_struct_ct :: ctype where
  "work_struct_ct = Struct
     [Mem ''data'' None atomic_long_t_ct, Mem ''entry'' None list_head_ct,
      Mem ''func'' None work_func_t_ct]"

definition rcu_work_ct :: ctype where
  "rcu_work_ct = Struct
     [Mem ''work'' None work_struct_ct, Mem ''rcu'' None callback_head_ct,
      Mem ''wq'' None (Ptr ''workqueue_struct'')]"

definition cgroup_subsys_state_ct :: ctype where
  "cgroup_subsys_state_ct = Struct
     [Mem ''cgroup'' None (Ptr ''cgroup''), Mem ''ss'' None (Ptr ''cgroup_subsys''),
      Mem ''refcnt'' None percpu_ref_ct, Mem ''sibling'' None list_head_ct,
      Mem ''children'' None list_head_ct, Mem ''rstat_css_node'' None list_head_ct,
      Mem ''id'' None (Scalar 4), Mem ''flags'' None (Scalar 4), Mem ''serial_nr'' None u64_ct,
      Mem ''online_cnt'' None atomic_t_ct, Mem ''destroy_work'' None work_struct_ct,
      Mem ''destroy_rwork'' None rcu_work_ct, Mem ''parent'' None (Ptr ''cgroup_subsys_state'')]"

definition timer_list_ct :: ctype where
  "timer_list_ct = Struct
     [Mem ''entry'' None hlist_node_ct, Mem ''expires'' None (Scalar 8),
      Mem ''function'' None (Ptr ''''), Mem ''flags'' None u32_ct]"

definition cgroup_file_ct :: ctype where
  "cgroup_file_ct = Struct
     [Mem ''kn'' None (Ptr ''kernfs_node''), Mem ''notified_at'' None (Scalar 8),
      Mem ''notify_timer'' None timer_list_ct]"

definition cacheline_padding_ct :: ctype where
  "cacheline_padding_ct = Struct
     [Mem ''x'' None (Arr 0 (Scalar 1))]"

definition task_cputime_ct :: ctype where
  "task_cputime_ct = Struct
     [Mem ''stime'' None u64_ct, Mem ''utime'' None u64_ct,
      Mem ''sum_exec_runtime'' None (Scalar 8)]"

definition cgroup_base_stat_ct :: ctype where
  "cgroup_base_stat_ct = Struct
     [Mem ''cputime'' None task_cputime_ct, Mem ''forceidle_sum'' None u64_ct]"

definition prev_cputime_ct :: ctype where
  "prev_cputime_ct = Struct
     [Mem ''utime'' None u64_ct, Mem ''stime'' None u64_ct, Mem ''lock'' None raw_spinlock_t_ct]"

definition wait_queue_head_ct :: ctype where
  "wait_queue_head_ct = Struct
     [Mem ''lock'' None spinlock_t_ct, Mem ''head'' None list_head_ct]"

definition wait_queue_head_t_ct :: ctype where "wait_queue_head_t_ct = wait_queue_head_ct"

definition cgroup_bpf_ct :: ctype where
  "cgroup_bpf_ct = Struct
     [Mem ''effective'' None (Arr 38 (Ptr ''bpf_prog_array'')),
      Mem ''progs'' None (Arr 38 hlist_head_ct), Mem ''flags'' None (Arr 38 u8_ct),
      Mem ''storages'' None list_head_ct, Mem ''inactive'' None (Ptr ''bpf_prog_array''),
      Mem ''refcnt'' None percpu_ref_ct, Mem ''release_work'' None work_struct_ct]"

definition cgroup_freezer_state_ct :: ctype where
  "cgroup_freezer_state_ct = Struct
     [Mem ''freeze'' None bool_ct, Mem ''e_freeze'' None (Scalar 4),
      Mem ''nr_frozen_descendants'' None (Scalar 4), Mem ''nr_frozen_tasks'' None (Scalar 4)]"

definition cgroup_ct :: ctype where
  "cgroup_ct = Struct
     [Mem ''self'' None cgroup_subsys_state_ct, Mem ''flags'' None (Scalar 8),
      Mem ''level'' None (Scalar 4), Mem ''max_depth'' None (Scalar 4),
      Mem ''nr_descendants'' None (Scalar 4), Mem ''nr_dying_descendants'' None (Scalar 4),
      Mem ''max_descendants'' None (Scalar 4), Mem ''nr_populated_csets'' None (Scalar 4),
      Mem ''nr_populated_domain_children'' None (Scalar 4),
      Mem ''nr_populated_threaded_children'' None (Scalar 4),
      Mem ''nr_threaded_children'' None (Scalar 4), Mem ''kn'' None (Ptr ''kernfs_node''),
      Mem ''procs_file'' None cgroup_file_ct, Mem ''events_file'' None cgroup_file_ct,
      Mem ''psi_files'' None (Arr 3 cgroup_file_ct), Mem ''subtree_control'' None u16_ct,
      Mem ''subtree_ss_mask'' None u16_ct, Mem ''old_subtree_control'' None u16_ct,
      Mem ''old_subtree_ss_mask'' None u16_ct,
      Mem ''subsys'' None (Arr 14 (Ptr ''cgroup_subsys_state'')),
      Mem ''root'' None (Ptr ''cgroup_root''), Mem ''cset_links'' None list_head_ct,
      Mem ''e_csets'' None (Arr 14 list_head_ct), Mem ''dom_cgrp'' None (Ptr ''cgroup''),
      Mem ''old_dom_cgrp'' None (Ptr ''cgroup''),
      Mem ''rstat_cpu'' None (Ptr ''cgroup_rstat_cpu''),
      Mem ''rstat_css_list'' None list_head_ct, Mem '''' (Some 64) (Scalar 8),
      Mem '''' (Some 64) (Scalar 8), Mem ''_pad_'' None cacheline_padding_ct,
      Mem ''rstat_flush_next'' None (Ptr ''cgroup''),
      Mem ''last_bstat'' None cgroup_base_stat_ct, Mem ''bstat'' None cgroup_base_stat_ct,
      Mem ''prev_cputime'' None prev_cputime_ct, Mem ''pidlists'' None list_head_ct,
      Mem ''pidlist_mutex'' None mutex_ct, Mem ''offline_waitq'' None wait_queue_head_t_ct,
      Mem ''release_agent_work'' None work_struct_ct, Mem ''psi'' None (Ptr ''psi_group''),
      Mem ''bpf'' None cgroup_bpf_ct, Mem ''congestion_count'' None atomic_t_ct,
      Mem ''freezer'' None cgroup_freezer_state_ct,
      Mem ''bpf_cgrp_storage'' None (Ptr ''bpf_local_storage''),
      Mem ''ancestors'' None (Arr 0 (Ptr ''cgroup''))]"

definition lockdep_map_p_ct :: ctype where "lockdep_map_p_ct = Struct []"

definition maple_tree_ct :: ctype where
  "maple_tree_ct = Struct
     [Mem '''' None (Union
        [Mem ''ma_lock'' None spinlock_t_ct, Mem ''ma_external_lock'' None lockdep_map_p_ct]),
      Mem ''ma_flags'' None (Scalar 4), Mem ''ma_root'' None (Ptr '''')]"

definition rw_semaphore_ct :: ctype where
  "rw_semaphore_ct = Struct
     [Mem ''count'' None atomic_long_t_ct, Mem ''owner'' None atomic_long_t_ct,
      Mem ''osq'' None optimistic_spin_queue_ct, Mem ''wait_lock'' None raw_spinlock_t_ct,
      Mem ''wait_list'' None list_head_ct]"

definition percpu_counter_ct :: ctype where
  "percpu_counter_ct = Struct
     [Mem ''lock'' None raw_spinlock_t_ct, Mem ''count'' None s64_ct,
      Mem ''list'' None list_head_ct, Mem ''counters'' None (Ptr '''')]"

definition k_s16_ct :: ctype where "k_s16_ct = Scalar 2"

definition s16_ct :: ctype where "s16_ct = k_s16_ct"

definition mm_context_t_ct :: ctype where
  "mm_context_t_ct = Struct
     [Mem ''ctx_id'' None u64_ct, Mem ''tlb_gen'' None atomic64_t_ct,
      Mem ''ldt_usr_sem'' None rw_semaphore_ct, Mem ''ldt'' None (Ptr ''ldt_struct''),
      Mem ''flags'' None (Scalar 8), Mem ''lock'' None mutex_ct, Mem ''vdso'' None (Ptr ''''),
      Mem ''vdso_image'' None (Ptr ''vdso_image''), Mem ''perf_rdpmc_allowed'' None atomic_t_ct,
      Mem ''pkey_allocation_map'' None u16_ct, Mem ''execute_only_pkey'' None s16_ct]"

definition uprobes_state_ct :: ctype where
  "uprobes_state_ct = Struct
     [Mem ''xol_area'' None (Ptr ''xol_area'')]"

definition mm_struct_ct :: ctype where
  "mm_struct_ct = Struct
     [Mem '''' None (Struct
        [Mem '''' None (Struct
           [Mem ''mm_count'' None atomic_t_ct, Mem '''' (Some 64) (Scalar 8),
            Mem '''' (Some 64) (Scalar 8), Mem '''' (Some 64) (Scalar 8),
            Mem '''' (Some 64) (Scalar 8), Mem '''' (Some 64) (Scalar 8),
            Mem '''' (Some 64) (Scalar 8), Mem '''' (Some 64) (Scalar 8)]),
         Mem ''mm_mt'' None maple_tree_ct, Mem ''get_unmapped_area'' None (Ptr ''''),
         Mem ''mmap_base'' None (Scalar 8), Mem ''mmap_legacy_base'' None (Scalar 8),
         Mem ''mmap_compat_base'' None (Scalar 8),
         Mem ''mmap_compat_legacy_base'' None (Scalar 8), Mem ''task_size'' None (Scalar 8),
         Mem ''pgd'' None (Ptr ''''), Mem ''membarrier_state'' None atomic_t_ct,
         Mem ''mm_users'' None atomic_t_ct, Mem ''pcpu_cid'' None (Ptr ''mm_cid''),
         Mem ''mm_cid_next_scan'' None (Scalar 8), Mem ''pgtables_bytes'' None atomic_long_t_ct,
         Mem ''map_count'' None (Scalar 4), Mem ''page_table_lock'' None spinlock_t_ct,
         Mem ''mmap_lock'' None rw_semaphore_ct, Mem ''mmlist'' None list_head_ct,
         Mem ''mm_lock_seq'' None (Scalar 4), Mem ''hiwater_rss'' None (Scalar 8),
         Mem ''hiwater_vm'' None (Scalar 8), Mem ''total_vm'' None (Scalar 8),
         Mem ''locked_vm'' None (Scalar 8), Mem ''pinned_vm'' None atomic64_t_ct,
         Mem ''data_vm'' None (Scalar 8), Mem ''exec_vm'' None (Scalar 8),
         Mem ''stack_vm'' None (Scalar 8), Mem ''def_flags'' None (Scalar 8),
         Mem ''write_protect_seq'' None seqcount_t_ct, Mem ''arg_lock'' None spinlock_t_ct,
         Mem ''start_code'' None (Scalar 8), Mem ''end_code'' None (Scalar 8),
         Mem ''start_data'' None (Scalar 8), Mem ''end_data'' None (Scalar 8),
         Mem ''start_brk'' None (Scalar 8), Mem ''brk'' None (Scalar 8),
         Mem ''start_stack'' None (Scalar 8), Mem ''arg_start'' None (Scalar 8),
         Mem ''arg_end'' None (Scalar 8), Mem ''env_start'' None (Scalar 8),
         Mem ''env_end'' None (Scalar 8), Mem ''saved_auxv'' None (Arr 52 (Scalar 8)),
         Mem ''rss_stat'' None (Arr 4 percpu_counter_ct),
         Mem ''binfmt'' None (Ptr ''linux_binfmt''), Mem ''context'' None mm_context_t_ct,
         Mem ''flags'' None (Scalar 8), Mem ''ioctx_lock'' None spinlock_t_ct,
         Mem ''ioctx_table'' None (Ptr ''kioctx_table''),
         Mem ''owner'' None (Ptr ''task_struct''), Mem ''user_ns'' None (Ptr ''user_namespace''),
         Mem ''exe_file'' None (Ptr ''file''),
         Mem ''notifier_subscriptions'' None (Ptr ''mmu_notifier_subscriptions''),
         Mem ''numa_next_scan'' None (Scalar 8), Mem ''numa_scan_offset'' None (Scalar 8),
         Mem ''numa_scan_seq'' None (Scalar 4), Mem ''tlb_flush_pending'' None atomic_t_ct,
         Mem ''tlb_flush_batched'' None atomic_t_ct, Mem ''uprobes_state'' None uprobes_state_ct,
         Mem ''hugetlb_usage'' None atomic_long_t_ct, Mem ''async_put_work'' None work_struct_ct,
         Mem ''iommu_mm'' None (Ptr ''iommu_mm_data''),
         Mem ''ksm_merging_pages'' None (Scalar 8), Mem ''ksm_rmap_items'' None (Scalar 8),
         Mem ''ksm_zero_pages'' None atomic_long_t_ct,
         Mem ''lru_gen'' None (Struct
           [Mem ''list'' None list_head_ct, Mem ''bitmap'' None (Scalar 8),
            Mem ''memcg'' None (Ptr ''mem_cgroup'')]),
         Mem '''' (Some 64) (Scalar 8), Mem '''' (Some 64) (Scalar 8),
         Mem '''' (Some 64) (Scalar 8)]),
      Mem ''cpu_bitmap'' None (Arr 0 (Scalar 8))]"

definition thread_info_ct :: ctype where
  "thread_info_ct = Struct
     [Mem ''flags'' None (Scalar 8), Mem ''syscall_work'' None (Scalar 8),
      Mem ''status'' None u32_ct, Mem ''cpu'' None u32_ct]"

definition k_call_single_node_ct :: ctype where
  "k_call_single_node_ct = Struct
     [Mem ''llist'' None llist_node_ct,
      Mem '''' None (Union
        [Mem ''u_flags'' None (Scalar 4), Mem ''a_flags'' None atomic_t_ct]),
      Mem ''src'' None u16_ct, Mem ''dst'' None u16_ct]"

definition load_weight_ct :: ctype where
  "load_weight_ct = Struct
     [Mem ''weight'' None (Scalar 8), Mem ''inv_weight'' None u32_ct]"

definition sched_avg_ct :: ctype where
  "sched_avg_ct = Struct
     [Mem ''last_update_time'' None u64_ct, Mem ''load_sum'' None u64_ct,
      Mem ''runnable_sum'' None u64_ct, Mem ''util_sum'' None u32_ct,
      Mem ''period_contrib'' None u32_ct, Mem ''load_avg'' None (Scalar 8),
      Mem ''runnable_avg'' None (Scalar 8), Mem ''util_avg'' None (Scalar 8),
      Mem ''util_est'' None (Scalar 4)]"

definition sched_entity_ct :: ctype where
  "sched_entity_ct = Struct
     [Mem ''load'' None load_weight_ct, Mem ''run_node'' None rb_node_ct,
      Mem ''deadline'' None u64_ct, Mem ''min_vruntime'' None u64_ct,
      Mem ''group_node'' None list_head_ct, Mem ''on_rq'' None (Scalar 4),
      Mem ''exec_start'' None u64_ct, Mem ''sum_exec_runtime'' None u64_ct,
      Mem ''prev_sum_exec_runtime'' None u64_ct, Mem ''vruntime'' None u64_ct,
      Mem ''vlag'' None s64_ct, Mem ''slice'' None u64_ct, Mem ''nr_migrations'' None u64_ct,
      Mem ''depth'' None (Scalar 4), Mem ''parent'' None (Ptr ''sched_entity''),
      Mem ''cfs_rq'' None (Ptr ''cfs_rq''), Mem ''my_q'' None (Ptr ''cfs_rq''),
      Mem ''runnable_weight'' None (Scalar 8), Mem '''' (Some 64) (Scalar 8),
      Mem '''' (Some 64) (Scalar 8), Mem ''avg'' None sched_avg_ct]"

definition sched_rt_entity_ct :: ctype where
  "sched_rt_entity_ct = Struct
     [Mem ''run_list'' None list_head_ct, Mem ''timeout'' None (Scalar 8),
      Mem ''watchdog_stamp'' None (Scalar 8), Mem ''time_slice'' None (Scalar 4),
      Mem ''on_rq'' None (Scalar 2), Mem ''on_list'' None (Scalar 2),
      Mem ''back'' None (Ptr ''sched_rt_entity'')]"

definition ktime_t_ct :: ctype where "ktime_t_ct = s64_ct"

definition timerqueue_node_ct :: ctype where
  "timerqueue_node_ct = Struct
     [Mem ''node'' None rb_node_ct, Mem ''expires'' None ktime_t_ct]"

definition hrtimer_ct :: ctype where
  "hrtimer_ct = Struct
     [Mem ''node'' None timerqueue_node_ct, Mem ''_softexpires'' None ktime_t_ct,
      Mem ''function'' None (Ptr ''''), Mem ''base'' None (Ptr ''hrtimer_clock_base''),
      Mem ''state'' None u8_ct, Mem ''is_rel'' None u8_ct, Mem ''is_soft'' None u8_ct,
      Mem ''is_hard'' None u8_ct]"

definition dl_server_has_tasks_f_ct :: ctype where "dl_server_has_tasks_f_ct = Ptr ''''"

definition dl_server_pick_f_ct :: ctype where "dl_server_pick_f_ct = Ptr ''''"

definition sched_dl_entity_ct :: ctype where
  "sched_dl_entity_ct = Struct
     [Mem ''rb_node'' None rb_node_ct, Mem ''dl_runtime'' None u64_ct,
      Mem ''dl_deadline'' None u64_ct, Mem ''dl_period'' None u64_ct, Mem ''dl_bw'' None u64_ct,
      Mem ''dl_density'' None u64_ct, Mem ''runtime'' None s64_ct, Mem ''deadline'' None u64_ct,
      Mem ''flags'' None (Scalar 4), Mem ''dl_throttled'' (Some 1) (Scalar 4),
      Mem ''dl_yielded'' (Some 1) (Scalar 4), Mem ''dl_non_contending'' (Some 1) (Scalar 4),
      Mem ''dl_overrun'' (Some 1) (Scalar 4), Mem ''dl_server'' (Some 1) (Scalar 4),
      Mem ''dl_timer'' None hrtimer_ct, Mem ''inactive_timer'' None hrtimer_ct,
      Mem ''rq'' None (Ptr ''rq''), Mem ''server_has_tasks'' None dl_server_has_tasks_f_ct,
      Mem ''server_pick'' None dl_server_pick_f_ct, Mem ''pi_se'' None (Ptr ''sched_dl_entity'')]"

definition uclamp_se_ct :: ctype where
  "uclamp_se_ct = Struct
     [Mem ''value'' (Some 11) (Scalar 4), Mem ''bucket_id'' (Some 3) (Scalar 4),
      Mem ''active'' (Some 1) (Scalar 4), Mem ''user_defined'' (Some 1) (Scalar 4)]"

definition sched_statistics_ct :: ctype where
  "sched_statistics_ct = Struct
     [Mem ''wait_start'' None u64_ct, Mem ''wait_max'' None u64_ct,
      Mem ''wait_count'' None u64_ct, Mem ''wait_sum'' None u64_ct,
      Mem ''iowait_count'' None u64_ct, Mem ''iowait_sum'' None u64_ct,
      Mem ''sleep_start'' None u64_ct, Mem ''sleep_max'' None u64_ct,
      Mem ''sum_sleep_runtime'' None s64_ct, Mem ''block_start'' None u64_ct,
      Mem ''block_max'' None u64_ct, Mem ''sum_block_runtime'' None s64_ct,
      Mem ''exec_max'' None s64_ct, Mem ''slice_max'' None u64_ct,
      Mem ''nr_migrations_cold'' None u64_ct, Mem ''nr_failed_migrations_affine'' None u64_ct,
      Mem ''nr_failed_migrations_running'' None u64_ct,
      Mem ''nr_failed_migrations_hot'' None u64_ct, Mem ''nr_forced_migrations'' None u64_ct,
      Mem ''nr_wakeups'' None u64_ct, Mem ''nr_wakeups_sync'' None u64_ct,
      Mem ''nr_wakeups_migrate'' None u64_ct, Mem ''nr_wakeups_local'' None u64_ct,
      Mem ''nr_wakeups_remote'' None u64_ct, Mem ''nr_wakeups_affine'' None u64_ct,
      Mem ''nr_wakeups_affine_attempts'' None u64_ct, Mem ''nr_wakeups_passive'' None u64_ct,
      Mem ''nr_wakeups_idle'' None u64_ct, Mem ''core_forceidle_sum'' None u64_ct,
      Mem '''' (Some 64) (Scalar 8), Mem '''' (Some 64) (Scalar 8), Mem '''' (Some 64) (Scalar 8)]"

definition cpumask_ct :: ctype where
  "cpumask_ct = Struct
     [Mem ''bits'' None (Arr 128 (Scalar 8))]"

definition cpumask_t_ct :: ctype where "cpumask_t_ct = cpumask_ct"

definition rcu_special_ct :: ctype where
  "rcu_special_ct = Union
     [Mem ''b'' None (Struct
        [Mem ''blocked'' None u8_ct, Mem ''need_qs'' None u8_ct, Mem ''exp_hint'' None u8_ct,
         Mem ''need_mb'' None u8_ct]),
      Mem ''s'' None u32_ct]"

definition sched_info_ct :: ctype where
  "sched_info_ct = Struct
     [Mem ''pcount'' None (Scalar 8), Mem ''run_delay'' None (Scalar 8),
      Mem ''last_arrival'' None (Scalar 8), Mem ''last_queued'' None (Scalar 8)]"

definition plist_node_ct :: ctype where
  "plist_node_ct = Struct
     [Mem ''prio'' None (Scalar 4), Mem ''prio_list'' None list_head_ct,
      Mem ''node_list'' None list_head_ct]"

definition k_kernel_clockid_t_ct :: ctype where "k_kernel_clockid_t_ct = Scalar 4"

definition clockid_t_ct :: ctype where "clockid_t_ct = k_kernel_clockid_t_ct"

definition restart_block_ct :: ctype where
  "restart_block_ct = Struct
     [Mem ''arch_data'' None (Scalar 8), Mem ''fn'' None (Ptr ''''),
      Mem '''' None (Union
        [Mem ''futex'' None (Struct
           [Mem ''uaddr'' None (Ptr ''''), Mem ''val'' None u32_ct, Mem ''flags'' None u32_ct,
            Mem ''bitset'' None u32_ct, Mem ''time'' None u64_ct, Mem ''uaddr2'' None (Ptr '''')]),
         Mem ''nanosleep'' None (Struct
           [Mem ''clockid'' None clockid_t_ct, Mem ''type'' None (Scalar 4),
            Mem '''' None (Union
              [Mem ''rmtp'' None (Ptr ''__kernel_timespec''),
               Mem ''compat_rmtp'' None (Ptr ''old_timespec32'')]),
            Mem ''expires'' None u64_ct]),
         Mem ''poll'' None (Struct
           [Mem ''ufds'' None (Ptr ''pollfd''), Mem ''nfds'' None (Scalar 4),
            Mem ''has_timeout'' None (Scalar 4), Mem ''tv_sec'' None (Scalar 8),
            Mem ''tv_nsec'' None (Scalar 8)])])]"

definition k_kernel_pid_t_ct :: ctype where "k_kernel_pid_t_ct = Scalar 4"

definition pid_t_ct :: ctype where "pid_t_ct = k_kernel_pid_t_ct"

definition vtime_ct :: ctype where
  "vtime_ct = Struct
     [Mem ''seqcount'' None seqcount_t_ct, Mem ''starttime'' None (Scalar 8),
      Mem ''state'' None (Scalar 4), Mem ''cpu'' None (Scalar 4), Mem ''utime'' None u64_ct,
      Mem ''stime'' None u64_ct, Mem ''gtime'' None u64_ct]"

definition rb_root_cached_ct :: ctype where
  "rb_root_cached_ct = Struct
     [Mem ''rb_root'' None rb_root_ct, Mem ''rb_leftmost'' None (Ptr ''rb_node'')]"

definition timerqueue_head_ct :: ctype where
  "timerqueue_head_ct = Struct
     [Mem ''rb_root'' None rb_root_cached_ct]"

definition posix_cputimer_base_ct :: ctype where
  "posix_cputimer_base_ct = Struct
     [Mem ''nextevt'' None u64_ct, Mem ''tqhead'' None timerqueue_head_ct]"

definition posix_cputimers_ct :: ctype where
  "posix_cputimers_ct = Struct
     [Mem ''bases'' None (Arr 3 posix_cputimer_base_ct), Mem ''timers_active'' None (Scalar 4),
      Mem ''expiry_active'' None (Scalar 4)]"

definition posix_cputimers_work_ct :: ctype where
  "posix_cputimers_work_ct = Struct
     [Mem ''work'' None callback_head_ct, Mem ''mutex'' None mutex_ct,
      Mem ''scheduled'' None (Scalar 4)]"

definition sysv_sem_ct :: ctype where
  "sysv_sem_ct = Struct
     [Mem ''undo_list'' None (Ptr ''sem_undo_list'')]"

definition sysv_shm_ct :: ctype where
  "sysv_shm_ct = Struct
     [Mem ''shm_clist'' None list_head_ct]"

definition sigset_t_ct :: ctype where
  "sigset_t_ct = Struct
     [Mem ''sig'' None (Arr 1 (Scalar 8))]"

definition sigpending_ct :: ctype where
  "sigpending_ct = Struct
     [Mem ''list'' None list_head_ct, Mem ''signal'' None sigset_t_ct]"

definition k_kernel_ulong_t_ct :: ctype where "k_kernel_ulong_t_ct = Scalar 8"

definition k_kernel_size_t_ct :: ctype where "k_kernel_size_t_ct = k_kernel_ulong_t_ct"

definition size_t_ct :: ctype where "size_t_ct = k_kernel_size_t_ct"

definition seccomp_ct :: ctype where
  "seccomp_ct = Struct
     [Mem ''mode'' None (Scalar 4), Mem ''filter_count'' None atomic_t_ct,
      Mem ''filter'' None (Ptr ''seccomp_filter'')]"

definition syscall_user_dispatch_ct :: ctype where
  "syscall_user_dispatch_ct = Struct
     [Mem ''selector'' None (Ptr ''''), Mem ''offset'' None (Scalar 8),
      Mem ''len'' None (Scalar 8), Mem ''on_dispatch'' None bool_ct]"

definition wake_q_node_ct :: ctype where
  "wake_q_node_ct = Struct
     [Mem ''next'' None (Ptr ''wake_q_node'')]"

definition task_io_accounting_ct :: ctype where
  "task_io_accounting_ct = Struct
     [Mem ''rchar'' None u64_ct, Mem ''wchar'' None u64_ct, Mem ''syscr'' None u64_ct,
      Mem ''syscw'' None u64_ct, Mem ''read_bytes'' None u64_ct, Mem ''write_bytes'' None u64_ct,
      Mem ''cancelled_write_bytes'' None u64_ct]"

definition nodemask_t_ct :: ctype where
  "nodemask_t_ct = Struct
     [Mem ''bits'' None (Arr 16 (Scalar 8))]"

definition arch_tlbflush_unmap_batch_ct :: ctype where
  "arch_tlbflush_unmap_batch_ct = Struct
     [Mem ''cpumask'' None cpumask_ct]"

definition tlbflush_unmap_batch_ct :: ctype where
  "tlbflush_unmap_batch_ct = Struct
     [Mem ''arch'' None arch_tlbflush_unmap_batch_ct, Mem ''flush_required'' None bool_ct,
      Mem ''writable'' None bool_ct]"

definition page_frag_ct :: ctype where
  "page_frag_ct = Struct
     [Mem ''page'' None (Ptr ''page''), Mem ''offset'' None k_u32_ct, Mem ''size'' None k_u32_ct]"

definition latency_record_ct :: ctype where
  "latency_record_ct = Struct
     [Mem ''backtrace'' None (Arr 12 (Scalar 8)), Mem ''count'' None (Scalar 4),
      Mem ''time'' None (Scalar 8), Mem ''max'' None (Scalar 8)]"

definition gfp_t_ct :: ctype where "gfp_t_ct = Scalar 4"

definition kmap_ctrl_ct :: ctype where "kmap_ctrl_ct = Struct []"

definition llist_head_ct :: ctype where
  "llist_head_ct = Struct
     [Mem ''first'' None (Ptr ''llist_node'')]"

definition da_monitor_ct :: ctype where
  "da_monitor_ct = Struct
     [Mem ''monitoring'' None bool_ct, Mem ''curr_state'' None (Scalar 4)]"

definition rv_task_monitor_ct :: ctype where
  "rv_task_monitor_ct = Union
     [Mem ''da_mon'' None da_monitor_ct]"

definition desc_struct_ct :: ctype where
  "desc_struct_ct = Struct
     [Mem ''limit0'' None u16_ct, Mem ''base0'' None u16_ct, Mem ''base1'' (Some 8) (u16_ct),
      Mem ''type'' (Some 4) (u16_ct), Mem ''s'' (Some 1) (u16_ct), Mem ''dpl'' (Some 2) (u16_ct),
      Mem ''p'' (Some 1) (u16_ct), Mem ''limit1'' (Some 4) (u16_ct),
      Mem ''avl'' (Some 1) (u16_ct), Mem ''l'' (Some 1) (u16_ct), Mem ''d'' (Some 1) (u16_ct),
      Mem ''g'' (Some 1) (u16_ct), Mem ''base2'' (Some 8) (u16_ct)]"

definition thread_shstk_ct :: ctype where
  "thread_shstk_ct = Struct
     [Mem ''base'' None u64_ct, Mem ''size'' None u64_ct]"

definition fpu_state_perm_ct :: ctype where
  "fpu_state_perm_ct = Struct
     [Mem ''__state_perm'' None u64_ct, Mem ''__state_size'' None (Scalar 4),
      Mem ''__user_state_size'' None (Scalar 4)]"

definition fregs_state_ct :: ctype where
  "fregs_state_ct = Struct
     [Mem ''cwd'' None u32_ct, Mem ''swd'' None u32_ct, Mem ''twd'' None u32_ct,
      Mem ''fip'' None u32_ct, Mem ''fcs'' None u32_ct, Mem ''foo'' None u32_ct,
      Mem ''fos'' None u32_ct, Mem ''st_space'' None (Arr 20 u32_ct), Mem ''status'' None u32_ct]"

definition fxregs_state_ct :: ctype where
  "fxregs_state_ct = Struct
     [Mem ''cwd'' None u16_ct, Mem ''swd'' None u16_ct, Mem ''twd'' None u16_ct,
      Mem ''fop'' None u16_ct,
      Mem '''' None (Union
        [Mem '''' None (Struct
           [Mem ''rip'' None u64_ct, Mem ''rdp'' None u64_ct]),
         Mem '''' None (Struct
           [Mem ''fip'' None u32_ct, Mem ''fcs'' None u32_ct, Mem ''foo'' None u32_ct,
            Mem ''fos'' None u32_ct])]),
      Mem ''mxcsr'' None u32_ct, Mem ''mxcsr_mask'' None u32_ct,
      Mem ''st_space'' None (Arr 32 u32_ct), Mem ''xmm_space'' None (Arr 64 u32_ct),
      Mem ''padding'' None (Arr 12 u32_ct),
      Mem '''' None (Union
        [Mem ''padding1'' None (Arr 12 u32_ct), Mem ''sw_reserved'' None (Arr 12 u32_ct)])]"

definition swregs_state_ct :: ctype where
  "swregs_state_ct = Struct
     [Mem ''cwd'' None u32_ct, Mem ''swd'' None u32_ct, Mem ''twd'' None u32_ct,
      Mem ''fip'' None u32_ct, Mem ''fcs'' None u32_ct, Mem ''foo'' None u32_ct,
      Mem ''fos'' None u32_ct, Mem ''st_space'' None (Arr 20 u32_ct), Mem ''ftop'' None u8_ct,
      Mem ''changed'' None u8_ct, Mem ''lookahead'' None u8_ct, Mem ''no_update'' None u8_ct,
      Mem ''rm'' None u8_ct, Mem ''alimit'' None u8_ct,
      Mem ''info'' None (Ptr ''math_emu_info''), Mem ''entry_eip'' None u32_ct]"

definition xstate_header_ct :: ctype where
  "xstate_header_ct = Struct
     [Mem ''xfeatures'' None u64_ct, Mem ''xcomp_bv'' None u64_ct,
      Mem ''reserved'' None (Arr 6 u64_ct)]"

definition xregs_state_ct :: ctype where
  "xregs_state_ct = Struct
     [Mem ''i387'' None fxregs_state_ct, Mem ''header'' None xstate_header_ct,
      Mem ''extended_state_area'' None (Arr 0 u8_ct)]"

definition fpregs_state_ct :: ctype where
  "fpregs_state_ct = Union
     [Mem ''fsave'' None fregs_state_ct, Mem ''fxsave'' None fxregs_state_ct,
      Mem ''soft'' None swregs_state_ct, Mem ''xsave'' None xregs_state_ct,
      Mem ''__padding'' None (Arr 4096 u8_ct)]"

definition fpstate_ct :: ctype where
  "fpstate_ct = Struct
     [Mem ''size'' None (Scalar 4), Mem ''user_size'' None (Scalar 4),
      Mem ''xfeatures'' None u64_ct, Mem ''user_xfeatures'' None u64_ct, Mem ''xfd'' None u64_ct,
      Mem ''is_valloc'' (Some 1) (Scalar 4), Mem ''is_guest'' (Some 1) (Scalar 4),
      Mem ''is_confidential'' (Some 1) (Scalar 4), Mem ''in_use'' (Some 1) (Scalar 4),
      Mem '''' (Some 64) (Scalar 8), Mem '''' (Some 64) (Scalar 8),
      Mem '''' (Some 64) (Scalar 8), Mem ''regs'' None fpregs_state_ct]"

definition fpu_ct :: ctype where
  "fpu_ct = Struct
     [Mem ''last_cpu'' None (Scalar 4), Mem ''avx512_timestamp'' None (Scalar 8),
      Mem ''fpstate'' None (Ptr ''fpstate''), Mem ''__task_fpstate'' None (Ptr ''fpstate''),
      Mem ''perm'' None fpu_state_perm_ct, Mem ''guest_perm'' None fpu_state_perm_ct,
      Mem ''__fpstate'' None fpstate_ct]"

definition thread_struct_ct :: ctype where
  "thread_struct_ct = Struct
     [Mem ''tls_array'' None (Arr 3 desc_struct_ct), Mem ''sp'' None (Scalar 8),
      Mem ''es'' None (Scalar 2), Mem ''ds'' None (Scalar 2), Mem ''fsindex'' None (Scalar 2),
      Mem ''gsindex'' None (Scalar 2), Mem ''fsbase'' None (Scalar 8),
      Mem ''gsbase'' None (Scalar 8), Mem ''ptrace_bps'' None (Arr 4 (Ptr ''perf_event'')),
      Mem ''virtual_dr6'' None (Scalar 8), Mem ''ptrace_dr7'' None (Scalar 8),
      Mem ''cr2'' None (Scalar 8), Mem ''trap_nr'' None (Scalar 8),
      Mem ''error_code'' None (Scalar 8), Mem ''io_bitmap'' None (Ptr ''io_bitmap''),
      Mem ''iopl_emul'' None (Scalar 8), Mem ''iopl_warn'' (Some 1) (Scalar 4),
      Mem ''pkru'' None u32_ct, Mem ''features'' None (Scalar 8),
      Mem ''features_locked'' None (Scalar 8), Mem ''shstk'' None thread_shstk_ct,
      Mem '''' (Some 64) (Scalar 8), Mem ''fpu'' None fpu_ct]"

definition task_struct_ct_1 :: "member list" where
  "task_struct_ct_1 =
     [Mem ''thread_info'' None thread_info_ct, Mem ''__state'' None (Scalar 4),
      Mem ''saved_state'' None (Scalar 4), Mem ''stack'' None (Ptr ''''),
      Mem ''usage'' None refcount_t_ct, Mem ''flags'' None (Scalar 4),
      Mem ''ptrace'' None (Scalar 4), Mem ''on_cpu'' None (Scalar 4),
      Mem ''wake_entry'' None k_call_single_node_ct, Mem ''wakee_flips'' None (Scalar 4),
      Mem ''wakee_flip_decay_ts'' None (Scalar 8), Mem ''last_wakee'' None (Ptr ''task_struct''),
      Mem ''recent_used_cpu'' None (Scalar 4), Mem ''wake_cpu'' None (Scalar 4),
      Mem ''on_rq'' None (Scalar 4), Mem ''prio'' None (Scalar 4),
      Mem ''static_prio'' None (Scalar 4), Mem ''normal_prio'' None (Scalar 4),
      Mem ''rt_priority'' None (Scalar 4), Mem ''se'' None sched_entity_ct,
      Mem ''rt'' None sched_rt_entity_ct, Mem ''dl'' None sched_dl_entity_ct,
      Mem ''dl_server'' None (Ptr ''sched_dl_entity''),
      Mem ''sched_class'' None (Ptr ''sched_class''), Mem ''core_node'' None rb_node_ct,
      Mem ''core_cookie'' None (Scalar 8), Mem ''core_occupation'' None (Scalar 4),
      Mem ''sched_task_group'' None (Ptr ''task_group''),
      Mem ''uclamp_req'' None (Arr 2 uclamp_se_ct), Mem ''uclamp'' None (Arr 2 uclamp_se_ct),
      Mem '''' (Some 64) (Scalar 8), Mem ''stats'' None sched_statistics_ct,
      Mem ''preempt_notifiers'' None hlist_head_ct, Mem ''btrace_seq'' None (Scalar 4),
      Mem ''policy'' None (Scalar 4), Mem ''nr_cpus_allowed'' None (Scalar 4),
      Mem ''cpus_ptr'' None (Ptr ''''), Mem ''user_cpus_ptr'' None (Ptr ''''),
      Mem ''cpus_mask'' None cpumask_t_ct, Mem ''migration_pending'' None (Ptr ''''),
      Mem ''migration_disabled'' None (Scalar 2), Mem ''migration_flags'' None (Scalar 2),
      Mem ''rcu_read_lock_nesting'' None (Scalar 4),
      Mem ''rcu_read_unlock_special'' None rcu_special_ct,
      Mem ''rcu_node_entry'' None list_head_ct, Mem ''rcu_blocked_node'' None (Ptr ''rcu_node'')]"

definition task_struct_ct_2 :: "member list" where
  "task_struct_ct_2 =
     [Mem ''rcu_tasks_nvcsw'' None (Scalar 8), Mem ''rcu_tasks_holdout'' None u8_ct,
      Mem ''rcu_tasks_idx'' None u8_ct, Mem ''rcu_tasks_idle_cpu'' None (Scalar 4),
      Mem ''rcu_tasks_holdout_list'' None list_head_ct,
      Mem ''rcu_tasks_exit_cpu'' None (Scalar 4), Mem ''rcu_tasks_exit_list'' None list_head_ct,
      Mem ''trc_reader_nesting'' None (Scalar 4), Mem ''trc_ipi_to_cpu'' None (Scalar 4),
      Mem ''trc_reader_special'' None rcu_special_ct, Mem ''trc_holdout_list'' None list_head_ct,
      Mem ''trc_blkd_node'' None list_head_ct, Mem ''trc_blkd_cpu'' None (Scalar 4),
      Mem ''sched_info'' None sched_info_ct, Mem ''tasks'' None list_head_ct,
      Mem ''pushable_tasks'' None plist_node_ct, Mem ''pushable_dl_tasks'' None rb_node_ct,
      Mem ''mm'' None (Ptr ''mm_struct''), Mem ''active_mm'' None (Ptr ''mm_struct''),
      Mem ''faults_disabled_mapping'' None (Ptr ''address_space''),
      Mem ''exit_state'' None (Scalar 4), Mem ''exit_code'' None (Scalar 4),
      Mem ''exit_signal'' None (Scalar 4), Mem ''pdeath_signal'' None (Scalar 4),
      Mem ''jobctl'' None (Scalar 8), Mem ''personality'' None (Scalar 4),
      Mem ''sched_reset_on_fork'' (Some 1) (Scalar 4),
      Mem ''sched_contributes_to_load'' (Some 1) (Scalar 4),
      Mem ''sched_migrated'' (Some 1) (Scalar 4), Mem ''sched_task_hot'' (Some 1) (Scalar 4),
      Mem '''' (Some 28) (Scalar 8), Mem ''sched_remote_wakeup'' (Some 1) (Scalar 4),
      Mem ''sched_rt_mutex'' (Some 1) (Scalar 4), Mem ''in_execve'' (Some 1) (Scalar 4),
      Mem ''in_iowait'' (Some 1) (Scalar 4), Mem ''restore_sigmask'' (Some 1) (Scalar 4),
      Mem ''in_user_fault'' (Some 1) (Scalar 4), Mem ''in_lru_fault'' (Some 1) (Scalar 4),
      Mem ''no_cgroup_migration'' (Some 1) (Scalar 4), Mem ''frozen'' (Some 1) (Scalar 4),
      Mem ''use_memdelay'' (Some 1) (Scalar 4), Mem ''in_memstall'' (Some 1) (Scalar 4),
      Mem ''in_eventfd'' (Some 1) (Scalar 4), Mem ''pasid_activated'' (Some 1) (Scalar 4),
      Mem ''reported_split_lock'' (Some 1) (Scalar 4), Mem ''in_thrashing'' (Some 1) (Scalar 4)]"

definition task_struct_ct_3 :: "member list" where
  "task_struct_ct_3 =
     [Mem ''atomic_flags'' None (Scalar 8), Mem ''restart_block'' None restart_block_ct,
      Mem ''pid'' None pid_t_ct, Mem ''tgid'' None pid_t_ct,
      Mem ''stack_canary'' None (Scalar 8), Mem ''real_parent'' None (Ptr ''task_struct''),
      Mem ''parent'' None (Ptr ''task_struct''), Mem ''children'' None list_head_ct,
      Mem ''sibling'' None list_head_ct, Mem ''group_leader'' None (Ptr ''task_struct''),
      Mem ''ptraced'' None list_head_ct, Mem ''ptrace_entry'' None list_head_ct,
      Mem ''thread_pid'' None (Ptr ''pid''), Mem ''pid_links'' None (Arr 4 hlist_node_ct),
      Mem ''thread_node'' None list_head_ct, Mem ''vfork_done'' None (Ptr ''completion''),
      Mem ''set_child_tid'' None (Ptr ''''), Mem ''clear_child_tid'' None (Ptr ''''),
      Mem ''worker_private'' None (Ptr ''''), Mem ''utime'' None u64_ct,
      Mem ''stime'' None u64_ct, Mem ''gtime'' None u64_ct,
      Mem ''prev_cputime'' None prev_cputime_ct, Mem ''vtime'' None vtime_ct,
      Mem ''tick_dep_mask'' None atomic_t_ct, Mem ''nvcsw'' None (Scalar 8),
      Mem ''nivcsw'' None (Scalar 8), Mem ''start_time'' None u64_ct,
      Mem ''start_boottime'' None u64_ct, Mem ''min_flt'' None (Scalar 8),
      Mem ''maj_flt'' None (Scalar 8), Mem ''posix_cputimers'' None posix_cputimers_ct,
      Mem ''posix_cputimers_work'' None posix_cputimers_work_ct,
      Mem ''ptracer_cred'' None (Ptr ''cred''), Mem ''real_cred'' None (Ptr ''cred''),
      Mem ''cred'' None (Ptr ''cred''), Mem ''cached_requested_key'' None (Ptr ''key''),
      Mem ''comm'' None (Arr 16 (Scalar 1)), Mem ''nameidata'' None (Ptr ''nameidata''),
      Mem ''sysvsem'' None sysv_sem_ct, Mem ''sysvshm'' None sysv_shm_ct,
      Mem ''last_switch_count'' None (Scalar 8), Mem ''last_switch_time'' None (Scalar 8),
      Mem ''fs'' None (Ptr ''fs_struct''), Mem ''files'' None (Ptr ''files_struct''),
      Mem ''io_uring'' None (Ptr ''io_uring_task'')]"

definition task_struct_ct_4 :: "member list" where
  "task_struct_ct_4 =
     [Mem ''nsproxy'' None (Ptr ''nsproxy''), Mem ''signal'' None (Ptr ''signal_struct''),
      Mem ''sighand'' None (Ptr ''sighand_struct''), Mem ''blocked'' None sigset_t_ct,
      Mem ''real_blocked'' None sigset_t_ct, Mem ''saved_sigmask'' None sigset_t_ct,
      Mem ''pending'' None sigpending_ct, Mem ''sas_ss_sp'' None (Scalar 8),
      Mem ''sas_ss_size'' None size_t_ct, Mem ''sas_ss_flags'' None (Scalar 4),
      Mem ''task_works'' None (Ptr ''callback_head''),
      Mem ''audit_context'' None (Ptr ''audit_context''), Mem ''loginuid'' None kuid_t_ct,
      Mem ''sessionid'' None (Scalar 4), Mem ''seccomp'' None seccomp_ct,
      Mem ''syscall_dispatch'' None syscall_user_dispatch_ct, Mem ''parent_exec_id'' None u64_ct,
      Mem ''self_exec_id'' None u64_ct, Mem ''alloc_lock'' None spinlock_t_ct,
      Mem ''pi_lock'' None raw_spinlock_t_ct, Mem ''wake_q'' None wake_q_node_ct,
      Mem ''pi_waiters'' None rb_root_cached_ct, Mem ''pi_top_task'' None (Ptr ''task_struct''),
      Mem ''pi_blocked_on'' None (Ptr ''rt_mutex_waiter''), Mem ''in_ubsan'' None (Scalar 4),
      Mem ''journal_info'' None (Ptr ''''), Mem ''bio_list'' None (Ptr ''bio_list''),
      Mem ''plug'' None (Ptr ''blk_plug''), Mem ''reclaim_state'' None (Ptr ''reclaim_state''),
      Mem ''io_context'' None (Ptr ''io_context''),
      Mem ''capture_control'' None (Ptr ''capture_control''),
      Mem ''ptrace_message'' None (Scalar 8), Mem ''last_siginfo'' None (Ptr ''''),
      Mem ''ioac'' None task_io_accounting_ct, Mem ''psi_flags'' None (Scalar 4),
      Mem ''acct_rss_mem1'' None u64_ct, Mem ''acct_vm_mem1'' None u64_ct,
      Mem ''acct_timexpd'' None u64_ct, Mem ''mems_allowed'' None nodemask_t_ct,
      Mem ''mems_allowed_seq'' None seqcount_spinlock_t_ct,
      Mem ''cpuset_mem_spread_rotor'' None (Scalar 4),
      Mem ''cpuset_slab_spread_rotor'' None (Scalar 4), Mem ''cgroups'' None (Ptr ''css_set''),
      Mem ''cg_list'' None list_head_ct, Mem ''closid'' None u32_ct, Mem ''rmid'' None u32_ct]"

definition task_struct_ct_5 :: "member list" where
  "task_struct_ct_5 =
     [Mem ''robust_list'' None (Ptr ''robust_list_head''),
      Mem ''compat_robust_list'' None (Ptr ''compat_robust_list_head''),
      Mem ''pi_state_list'' None list_head_ct,
      Mem ''pi_state_cache'' None (Ptr ''futex_pi_state''),
      Mem ''futex_exit_mutex'' None mutex_ct, Mem ''futex_state'' None (Scalar 4),
      Mem ''perf_event_ctxp'' None (Ptr ''perf_event_context''),
      Mem ''perf_event_mutex'' None mutex_ct, Mem ''perf_event_list'' None list_head_ct,
      Mem ''mempolicy'' None (Ptr ''mempolicy''), Mem ''il_prev'' None (Scalar 2),
      Mem ''pref_node_fork'' None (Scalar 2), Mem ''numa_scan_seq'' None (Scalar 4),
      Mem ''numa_scan_period'' None (Scalar 4), Mem ''numa_scan_period_max'' None (Scalar 4),
      Mem ''numa_preferred_nid'' None (Scalar 4), Mem ''numa_migrate_retry'' None (Scalar 8),
      Mem ''node_stamp'' None u64_ct, Mem ''last_task_numa_placement'' None u64_ct,
      Mem ''last_sum_exec_runtime'' None u64_ct, Mem ''numa_work'' None callback_head_ct,
      Mem ''numa_group'' None (Ptr ''numa_group''), Mem ''numa_faults'' None (Ptr ''''),
      Mem ''total_numa_faults'' None (Scalar 8),
      Mem ''numa_faults_locality'' None (Arr 3 (Scalar 8)),
      Mem ''numa_pages_migrated'' None (Scalar 8), Mem ''rseq'' None (Ptr ''rseq''),
      Mem ''rseq_len'' None u32_ct, Mem ''rseq_sig'' None u32_ct,
      Mem ''rseq_event_mask'' None (Scalar 8), Mem ''mm_cid'' None (Scalar 4),
      Mem ''last_mm_cid'' None (Scalar 4), Mem ''migrate_from_cpu'' None (Scalar 4),
      Mem ''mm_cid_active'' None (Scalar 4), Mem ''cid_work'' None callback_head_ct,
      Mem ''tlb_ubc'' None tlbflush_unmap_batch_ct,
      Mem ''splice_pipe'' None (Ptr ''pipe_inode_info''), Mem ''task_frag'' None page_frag_ct,
      Mem ''delays'' None (Ptr ''task_delay_info''), Mem ''nr_dirtied'' None (Scalar 4),
      Mem ''nr_dirtied_pause'' None (Scalar 4), Mem ''dirty_paused_when'' None (Scalar 8),
      Mem ''latency_record_count'' None (Scalar 4),
      Mem ''latency_record'' None (Arr 32 latency_record_ct), Mem ''timer_slack_ns'' None u64_ct,
      Mem ''default_timer_slack_ns'' None u64_ct]"

definition task_struct_ct_6 :: "member list" where
  "task_struct_ct_6 =
     [Mem ''curr_ret_stack'' None (Scalar 4), Mem ''curr_ret_depth'' None (Scalar 4),
      Mem ''ret_stack'' None (Ptr ''ftrace_ret_stack''),
      Mem ''ftrace_timestamp'' None (Scalar 8), Mem ''trace_overrun'' None atomic_t_ct,
      Mem ''tracing_graph_pause'' None atomic_t_ct, Mem ''trace_recursion'' None (Scalar 8),
      Mem ''memcg_in_oom'' None (Ptr ''mem_cgroup''), Mem ''memcg_oom_gfp_mask'' None gfp_t_ct,
      Mem ''memcg_oom_order'' None (Scalar 4), Mem ''memcg_nr_pages_over_high'' None (Scalar 4),
      Mem ''active_memcg'' None (Ptr ''mem_cgroup''), Mem ''objcg'' None (Ptr ''obj_cgroup''),
      Mem ''throttle_disk'' None (Ptr ''gendisk''), Mem ''utask'' None (Ptr ''uprobe_task''),
      Mem ''sequential_io'' None (Scalar 4), Mem ''sequential_io_avg'' None (Scalar 4),
      Mem ''kmap_ctrl'' None kmap_ctrl_ct, Mem ''rcu'' None callback_head_ct,
      Mem ''rcu_users'' None refcount_t_ct, Mem ''pagefault_disabled'' None (Scalar 4),
      Mem ''oom_reaper_list'' None (Ptr ''task_struct''),
      Mem ''oom_reaper_timer'' None timer_list_ct,
      Mem ''stack_vm_area'' None (Ptr ''vm_struct''), Mem ''stack_refcount'' None refcount_t_ct,
      Mem ''patch_state'' None (Scalar 4), Mem ''security'' None (Ptr ''''),
      Mem ''bpf_storage'' None (Ptr ''bpf_local_storage''),
      Mem ''bpf_ctx'' None (Ptr ''bpf_run_ctx''), Mem ''mce_vaddr'' None (Ptr ''''),
      Mem ''mce_kflags'' None k_u64_ct, Mem ''mce_addr'' None u64_ct,
      Mem ''mce_ripv'' (Some 1) (k_u64_ct), Mem ''mce_whole_page'' (Some 1) (k_u64_ct),
      Mem ''__mce_reserved'' (Some 62) (k_u64_ct), Mem ''mce_kill_me'' None callback_head_ct,
      Mem ''mce_count'' None (Scalar 4), Mem ''kretprobe_instances'' None llist_head_ct,
      Mem ''rethooks'' None llist_head_ct, Mem ''l1d_flush_kill'' None callback_head_ct,
      Mem ''rv'' None (Arr 1 rv_task_monitor_ct),
      Mem ''user_event_mm'' None (Ptr ''user_event_mm''), Mem ''thread'' None thread_struct_ct]"

definition task_struct_ct :: ctype where
  "task_struct_ct = Struct
     (task_struct_ct_1 @ task_struct_ct_2 @ task_struct_ct_3 @ task_struct_ct_4 @ task_struct_ct_5 @ task_struct_ct_6)"

definition fred_cs_ct :: ctype where
  "fred_cs_ct = Struct
     [Mem ''cs'' (Some 16) (u64_ct), Mem ''sl'' (Some 2) (u64_ct), Mem ''wfe'' (Some 1) (u64_ct)]"

definition fred_ss_ct :: ctype where
  "fred_ss_ct = Struct
     [Mem ''ss'' (Some 16) (u64_ct), Mem ''sti'' (Some 1) (u64_ct),
      Mem ''swevent'' (Some 1) (u64_ct), Mem ''nmi'' (Some 1) (u64_ct),
      Mem '''' (Some 13) (Scalar 4), Mem ''vector'' (Some 8) (u64_ct),
      Mem '''' (Some 8) (Scalar 2), Mem ''type'' (Some 4) (u64_ct), Mem '''' (Some 4) (Scalar 1),
      Mem ''enclave'' (Some 1) (u64_ct), Mem ''lm'' (Some 1) (u64_ct),
      Mem ''nested'' (Some 1) (u64_ct), Mem '''' (Some 1) (Scalar 1),
      Mem ''insnlen'' (Some 4) (u64_ct)]"

definition pt_regs_ct :: ctype where
  "pt_regs_ct = Struct
     [Mem ''r15'' None (Scalar 8), Mem ''r14'' None (Scalar 8), Mem ''r13'' None (Scalar 8),
      Mem ''r12'' None (Scalar 8), Mem ''bp'' None (Scalar 8), Mem ''bx'' None (Scalar 8),
      Mem ''r11'' None (Scalar 8), Mem ''r10'' None (Scalar 8), Mem ''r9'' None (Scalar 8),
      Mem ''r8'' None (Scalar 8), Mem ''ax'' None (Scalar 8), Mem ''cx'' None (Scalar 8),
      Mem ''dx'' None (Scalar 8), Mem ''si'' None (Scalar 8), Mem ''di'' None (Scalar 8),
      Mem ''orig_ax'' None (Scalar 8), Mem ''ip'' None (Scalar 8),
      Mem '''' None (Union
        [Mem ''cs'' None u16_ct, Mem ''csx'' None u64_ct, Mem ''fred_cs'' None fred_cs_ct]),
      Mem ''flags'' None (Scalar 8), Mem ''sp'' None (Scalar 8),
      Mem '''' None (Union
        [Mem ''ss'' None u16_ct, Mem ''ssx'' None u64_ct, Mem ''fred_ss'' None fred_ss_ct])]"

definition bpf_raw_tracepoint_args_ct :: ctype where
  "bpf_raw_tracepoint_args_ct = Struct
     [Mem ''args'' None (Arr 0 k_u64_ct)]"

definition trace_entry_ct :: ctype where
  "trace_entry_ct = Struct
     [Mem ''type'' None (Scalar 2), Mem ''flags'' None (Scalar 1),
      Mem ''preempt_count'' None (Scalar 1), Mem ''pid'' None (Scalar 4)]"

definition trace_event_raw_sys_enter_ct :: ctype where
  "trace_event_raw_sys_enter_ct = Struct
     [Mem ''ent'' None trace_entry_ct, Mem ''id'' None (Scalar 8),
      Mem ''args'' None (Arr 6 (Scalar 8)), Mem ''__data'' None (Arr 0 (Scalar 1))]"

definition trace_event_raw_sys_exit_ct :: ctype where
  "trace_event_raw_sys_exit_ct = Struct
     [Mem ''ent'' None trace_entry_ct, Mem ''id'' None (Scalar 8), Mem ''ret'' None (Scalar 8),
      Mem ''__data'' None (Arr 0 (Scalar 1))]"

definition trace_event_raw_sched_switch_ct :: ctype where
  "trace_event_raw_sched_switch_ct = Struct
     [Mem ''ent'' None trace_entry_ct, Mem ''prev_comm'' None (Arr 16 (Scalar 1)),
      Mem ''prev_pid'' None pid_t_ct, Mem ''prev_prio'' None (Scalar 4),
      Mem ''prev_state'' None (Scalar 8), Mem ''next_comm'' None (Arr 16 (Scalar 1)),
      Mem ''next_pid'' None pid_t_ct, Mem ''next_prio'' None (Scalar 4),
      Mem ''__data'' None (Arr 0 (Scalar 1))]"

definition trace_event_raw_sched_wakeup_template_ct :: ctype where
  "trace_event_raw_sched_wakeup_template_ct = Struct
     [Mem ''ent'' None trace_entry_ct, Mem ''comm'' None (Arr 16 (Scalar 1)),
      Mem ''pid'' None pid_t_ct, Mem ''prio'' None (Scalar 4),
      Mem ''target_cpu'' None (Scalar 4), Mem ''__data'' None (Arr 0 (Scalar 1))]"

definition trace_event_raw_sched_process_template_ct :: ctype where
  "trace_event_raw_sched_process_template_ct = Struct
     [Mem ''ent'' None trace_entry_ct, Mem ''comm'' None (Arr 16 (Scalar 1)),
      Mem ''pid'' None pid_t_ct, Mem ''prio'' None (Scalar 4),
      Mem ''__data'' None (Arr 0 (Scalar 1))]"

definition trace_event_raw_sched_process_exec_ct :: ctype where
  "trace_event_raw_sched_process_exec_ct = Struct
     [Mem ''ent'' None trace_entry_ct, Mem ''__data_loc_filename'' None u32_ct,
      Mem ''pid'' None pid_t_ct, Mem ''old_pid'' None pid_t_ct,
      Mem ''__data'' None (Arr 0 (Scalar 1))]"

definition trace_event_raw_kmalloc_ct :: ctype where
  "trace_event_raw_kmalloc_ct = Struct
     [Mem ''ent'' None trace_entry_ct, Mem ''call_site'' None (Scalar 8),
      Mem ''ptr'' None (Ptr ''''), Mem ''bytes_req'' None size_t_ct,
      Mem ''bytes_alloc'' None size_t_ct, Mem ''gfp_flags'' None (Scalar 8),
      Mem ''node'' None (Scalar 4), Mem ''__data'' None (Arr 0 (Scalar 1))]"

definition trace_event_raw_kfree_ct :: ctype where
  "trace_event_raw_kfree_ct = Struct
     [Mem ''ent'' None trace_entry_ct, Mem ''call_site'' None (Scalar 8),
      Mem ''ptr'' None (Ptr ''''), Mem ''__data'' None (Arr 0 (Scalar 1))]"

definition trace_event_raw_inet_sock_set_state_ct :: ctype where
  "trace_event_raw_inet_sock_set_state_ct = Struct
     [Mem ''ent'' None trace_entry_ct, Mem ''skaddr'' None (Ptr ''''),
      Mem ''oldstate'' None (Scalar 4), Mem ''newstate'' None (Scalar 4),
      Mem ''sport'' None k_u16_ct, Mem ''dport'' None k_u16_ct, Mem ''family'' None k_u16_ct,
      Mem ''protocol'' None k_u16_ct, Mem ''saddr'' None (Arr 4 k_u8_ct),
      Mem ''daddr'' None (Arr 4 k_u8_ct), Mem ''saddr_v6'' None (Arr 16 k_u8_ct),
      Mem ''daddr_v6'' None (Arr 16 k_u8_ct), Mem ''__data'' None (Arr 0 (Scalar 1))]"

definition k_kernel_dev_t_ct :: ctype where "k_kernel_dev_t_ct = u32_ct"

definition dev_t_ct :: ctype where "dev_t_ct = k_kernel_dev_t_ct"

definition time64_t_ct :: ctype where "time64_t_ct = k_s64_ct"

definition timespec64_ct :: ctype where
  "timespec64_ct = Struct
     [Mem ''tv_sec'' None time64_t_ct, Mem ''tv_nsec'' None (Scalar 8)]"

definition blkcnt_t_ct :: ctype where "blkcnt_t_ct = u64_ct"

definition xarray_ct :: ctype where
  "xarray_ct = Struct
     [Mem ''xa_lock'' None spinlock_t_ct, Mem ''xa_flags'' None gfp_t_ct,
      Mem ''xa_head'' None (Ptr '''')]"

definition address_space_ct :: ctype where
  "address_space_ct = Struct
     [Mem ''host'' None (Ptr ''inode''), Mem ''i_pages'' None xarray_ct,
      Mem ''invalidate_lock'' None rw_semaphore_ct, Mem ''gfp_mask'' None gfp_t_ct,
      Mem ''i_mmap_writable'' None atomic_t_ct, Mem ''i_mmap'' None rb_root_cached_ct,
      Mem ''nrpages'' None (Scalar 8), Mem ''writeback_index'' None (Scalar 8),
      Mem ''a_ops'' None (Ptr ''address_space_operations''), Mem ''flags'' None (Scalar 8),
      Mem ''i_mmap_rwsem'' None rw_semaphore_ct, Mem ''wb_err'' None errseq_t_ct,
      Mem ''i_private_lock'' None spinlock_t_ct, Mem ''i_private_list'' None list_head_ct,
      Mem ''i_private_data'' None (Ptr '''')]"

definition inode_ct :: ctype where
  "inode_ct = Struct
     [Mem ''i_mode'' None umode_t_ct, Mem ''i_opflags'' None (Scalar 2),
      Mem ''i_uid'' None kuid_t_ct, Mem ''i_lru'' None list_head_ct,
      Mem ''i_gid'' None kgid_t_ct, Mem ''i_flags'' None (Scalar 4),
      Mem ''i_acl'' None (Ptr ''posix_acl''), Mem ''i_default_acl'' None (Ptr ''posix_acl''),
      Mem ''i_op'' None (Ptr ''inode_operations''), Mem ''i_sb'' None (Ptr ''super_block''),
      Mem ''i_mapping'' None (Ptr ''address_space''), Mem ''i_security'' None (Ptr ''''),
      Mem ''i_ino'' None (Scalar 8),
      Mem '''' None (Union
        [Mem ''i_nlink'' None (Scalar 4), Mem ''__i_nlink'' None (Scalar 4)]),
      Mem ''i_rdev'' None dev_t_ct, Mem ''i_size'' None loff_t_ct,
      Mem ''__i_atime'' None timespec64_ct, Mem ''__i_mtime'' None timespec64_ct,
      Mem ''__i_ctime'' None timespec64_ct, Mem ''i_lock'' None spinlock_t_ct,
      Mem ''i_bytes'' None (Scalar 2), Mem ''i_blkbits'' None u8_ct,
      Mem ''i_write_hint'' None u8_ct, Mem ''i_blocks'' None blkcnt_t_ct,
      Mem ''i_state'' None (Scalar 8), Mem ''i_rwsem'' None rw_semaphore_ct,
      Mem ''dirtied_when'' None (Scalar 8), Mem ''dirtied_time_when'' None (Scalar 8),
      Mem ''i_hash'' None hlist_node_ct, Mem ''i_io_list'' None list_head_ct,
      Mem ''i_wb'' None (Ptr ''bdi_writeback''), Mem ''i_wb_frn_winner'' None (Scalar 4),
      Mem ''i_wb_frn_avg_time'' None u16_ct, Mem ''i_wb_frn_history'' None u16_ct,
      Mem ''i_sb_list'' None list_head_ct, Mem ''i_wb_list'' None list_head_ct,
      Mem '''' None (Union
        [Mem ''i_dentry'' None hlist_head_ct, Mem ''i_rcu'' None callback_head_ct]),
      Mem ''i_version'' None atomic64_t_ct, Mem ''i_sequence'' None atomic64_t_ct,
      Mem ''i_count'' None atomic_t_ct, Mem ''i_dio_count'' None atomic_t_ct,
      Mem ''i_writecount'' None atomic_t_ct, Mem ''i_readcount'' None atomic_t_ct,
      Mem '''' None (Union
        [Mem ''i_fop'' None (Ptr ''file_operations''), Mem ''free_inode'' None (Ptr '''')]),
      Mem ''i_flctx'' None (Ptr ''file_lock_context''), Mem ''i_data'' None address_space_ct,
      Mem ''i_devices'' None list_head_ct,
      Mem '''' None (Union
        [Mem ''i_pipe'' None (Ptr ''pipe_inode_info''), Mem ''i_cdev'' None (Ptr ''cdev''),
         Mem ''i_link'' None (Ptr ''''), Mem ''i_dir_seq'' None (Scalar 4)]),
      Mem ''i_generation'' None k_u32_ct, Mem ''i_fsnotify_mask'' None k_u32_ct,
      Mem ''i_fsnotify_marks'' None (Ptr ''fsnotify_mark_connector''),
      Mem ''i_crypt_info'' None (Ptr ''fscrypt_inode_info''),
      Mem ''i_verity_info'' None (Ptr ''fsverity_info''), Mem ''i_private'' None (Ptr '''')]"

definition hlist_bl_head_ct :: ctype where
  "hlist_bl_head_ct = Struct
     [Mem ''first'' None (Ptr ''hlist_bl_node'')]"

definition qsize_t_ct :: ctype where "qsize_t_ct = Scalar 8"

definition mem_dqinfo_ct :: ctype where
  "mem_dqinfo_ct = Struct
     [Mem ''dqi_format'' None (Ptr ''quota_format_type''), Mem ''dqi_fmt_id'' None (Scalar 4),
      Mem ''dqi_dirty_list'' None list_head_ct, Mem ''dqi_flags'' None (Scalar 8),
      Mem ''dqi_bgrace'' None (Scalar 4), Mem ''dqi_igrace'' None (Scalar 4),
      Mem ''dqi_max_spc_limit'' None qsize_t_ct, Mem ''dqi_max_ino_limit'' None qsize_t_ct,
      Mem ''dqi_priv'' None (Ptr '''')]"

definition quota_info_ct :: ctype where
  "quota_info_ct = Struct
     [Mem ''flags'' None (Scalar 4), Mem ''dqio_sem'' None rw_semaphore_ct,
      Mem ''files'' None (Arr 3 (Ptr ''inode'')), Mem ''info'' None (Arr 3 mem_dqinfo_ct),
      Mem ''ops'' None (Arr 3 (Ptr ''quota_format_ops''))]"

definition rcu_sync_ct :: ctype where
  "rcu_sync_ct = Struct
     [Mem ''gp_state'' None (Scalar 4), Mem ''gp_count'' None (Scalar 4),
      Mem ''gp_wait'' None wait_queue_head_t_ct, Mem ''cb_head'' None callback_head_ct]"

definition rcuwait_ct :: ctype where
  "rcuwait_ct = Struct
     [Mem ''task'' None (Ptr ''task_struct'')]"

definition percpu_rw_semaphore_ct :: ctype where
  "percpu_rw_semaphore_ct = Struct
     [Mem ''rss'' None rcu_sync_ct, Mem ''read_count'' None (Ptr ''''),
      Mem ''writer'' None rcuwait_ct, Mem ''waiters'' None wait_queue_head_t_ct,
      Mem ''block'' None atomic_t_ct]"

definition sb_writers_ct :: ctype where
  "sb_writers_ct = Struct
     [Mem ''frozen'' None (Scalar 2), Mem ''freeze_kcount'' None (Scalar 4),
      Mem ''freeze_ucount'' None (Scalar 4), Mem ''rw_sem'' None (Arr 3 percpu_rw_semaphore_ct)]"

definition uuid_t_ct :: ctype where
  "uuid_t_ct = Struct
     [Mem ''b'' None (Arr 16 k_u8_ct)]"

definition list_lru_ct :: ctype where
  "list_lru_ct = Struct
     [Mem ''node'' None (Ptr ''list_lru_node''), Mem ''list'' None list_head_ct,
      Mem ''shrinker_id'' None (Scalar 4), Mem ''memcg_aware'' None bool_ct,
      Mem ''xa'' None xarray_ct]"

definition super_block_ct :: ctype where
  "super_block_ct = Struct
     [Mem ''s_list'' None list_head_ct, Mem ''s_dev'' None dev_t_ct,
      Mem ''s_blocksize_bits'' None (Scalar 1), Mem ''s_blocksize'' None (Scalar 8),
      Mem ''s_maxbytes'' None loff_t_ct, Mem ''s_type'' None (Ptr ''file_system_type''),
      Mem ''s_op'' None (Ptr ''super_operations''),
      Mem ''dq_op'' None (Ptr ''dquot_operations''), Mem ''s_qcop'' None (Ptr ''quotactl_ops''),
      Mem ''s_export_op'' None (Ptr ''export_operations''), Mem ''s_flags'' None (Scalar 8),
      Mem ''s_iflags'' None (Scalar 8), Mem ''s_magic'' None (Scalar 8),
      Mem ''s_root'' None (Ptr ''dentry''), Mem ''s_umount'' None rw_semaphore_ct,
      Mem ''s_count'' None (Scalar 4), Mem ''s_active'' None atomic_t_ct,
      Mem ''s_security'' None (Ptr ''''), Mem ''s_xattr'' None (Ptr ''''),
      Mem ''s_cop'' None (Ptr ''fscrypt_operations''),
      Mem ''s_master_keys'' None (Ptr ''fscrypt_keyring''),
      Mem ''s_vop'' None (Ptr ''fsverity_operations''),
      Mem ''s_encoding'' None (Ptr ''unicode_map''), Mem ''s_encoding_flags'' None k_u16_ct,
      Mem ''s_roots'' None hlist_bl_head_ct, Mem ''s_mounts'' None list_head_ct,
      Mem ''s_bdev'' None (Ptr ''block_device''),
      Mem ''s_bdev_handle'' None (Ptr ''bdev_handle''),
      Mem ''s_bdi'' None (Ptr ''backing_dev_info''), Mem ''s_mtd'' None (Ptr ''mtd_info''),
      Mem ''s_instances'' None hlist_node_ct, Mem ''s_quota_types'' None (Scalar 4),
      Mem ''s_dquot'' None quota_info_ct, Mem ''s_writers'' None sb_writers_ct,
      Mem ''s_fs_info'' None (Ptr ''''), Mem ''s_time_gran'' None u32_ct,
      Mem ''s_time_min'' None time64_t_ct, Mem ''s_time_max'' None time64_t_ct,
      Mem ''s_fsnotify_mask'' None k_u32_ct,
      Mem ''s_fsnotify_marks'' None (Ptr ''fsnotify_mark_connector''),
      Mem ''s_id'' None (Arr 32 (Scalar 1)), Mem ''s_uuid'' None uuid_t_ct,
      Mem ''s_max_links'' None (Scalar 4), Mem ''s_vfs_rename_mutex'' None mutex_ct,
      Mem ''s_subtype'' None (Ptr ''''), Mem ''s_d_op'' None (Ptr ''dentry_operations''),
      Mem ''s_shrink'' None (Ptr ''shrinker''), Mem ''s_remove_count'' None atomic_long_t_ct,
      Mem ''s_fsnotify_connectors'' None atomic_long_t_ct,
      Mem ''s_readonly_remount'' None (Scalar 4), Mem ''s_wb_err'' None errseq_t_ct,
      Mem ''s_dio_done_wq'' None (Ptr ''workqueue_struct''), Mem ''s_pins'' None hlist_head_ct,
      Mem ''s_user_ns'' None (Ptr ''user_namespace''), Mem ''s_dentry_lru'' None list_lru_ct,
      Mem ''s_inode_lru'' None list_lru_ct, Mem ''rcu'' None callback_head_ct,
      Mem ''destroy_work'' None work_struct_ct, Mem ''s_sync_lock'' None mutex_ct,
      Mem ''s_stack_depth'' None (Scalar 4), Mem '''' (Some 64) (Scalar 8),
      Mem '''' (Some 64) (Scalar 8), Mem '''' (Some 64) (Scalar 8),
      Mem '''' (Some 64) (Scalar 8), Mem '''' (Some 64) (Scalar 8),
      Mem ''s_inode_list_lock'' None spinlock_t_ct, Mem ''s_inodes'' None list_head_ct,
      Mem ''s_inode_wblist_lock'' None spinlock_t_ct, Mem ''s_inodes_wb'' None list_head_ct,
      Mem '''' (Some 64) (Scalar 8), Mem '''' (Some 64) (Scalar 8)]"

definition uid_gid_extent_ct :: ctype where
  "uid_gid_extent_ct = Struct
     [Mem ''first'' None u32_ct, Mem ''lower_first'' None u32_ct, Mem ''count'' None u32_ct]"

definition uid_gid_map_ct :: ctype where
  "uid_gid_map_ct = Struct
     [Mem ''nr_extents'' None u32_ct,
      Mem '''' None (Union
        [Mem ''extent'' None (Arr 5 uid_gid_extent_ct),
         Mem '''' None (Struct
           [Mem ''forward'' None (Ptr ''uid_gid_extent''),
            Mem ''reverse'' None (Ptr ''uid_gid_extent'')])])]"

definition ns_common_ct :: ctype where
  "ns_common_ct = Struct
     [Mem ''stashed'' None atomic_long_t_ct, Mem ''ops'' None (Ptr ''proc_ns_operations''),
      Mem ''inum'' None (Scalar 4), Mem ''count'' None refcount_t_ct]"

definition ctl_table_header_ct :: ctype where
  "ctl_table_header_ct = Struct
     [Mem '''' None (Union
        [Mem '''' None (Struct
           [Mem ''ctl_table'' None (Ptr ''ctl_table''), Mem ''ctl_table_size'' None (Scalar 4),
            Mem ''used'' None (Scalar 4), Mem ''count'' None (Scalar 4),
            Mem ''nreg'' None (Scalar 4)]),
         Mem ''rcu'' None callback_head_ct]),
      Mem ''unregistering'' None (Ptr ''completion''),
      Mem ''ctl_table_arg'' None (Ptr ''ctl_table''), Mem ''root'' None (Ptr ''ctl_table_root''),
      Mem ''set'' None (Ptr ''ctl_table_set''), Mem ''parent'' None (Ptr ''ctl_dir''),
      Mem ''node'' None (Ptr ''ctl_node''), Mem ''inodes'' None hlist_head_ct]"

definition ctl_dir_ct :: ctype where
  "ctl_dir_ct = Struct
     [Mem ''header'' None ctl_table_header_ct, Mem ''root'' None rb_root_ct]"

definition ctl_table_set_ct :: ctype where
  "ctl_table_set_ct = Struct
     [Mem ''is_seen'' None (Ptr ''''), Mem ''dir'' None ctl_dir_ct]"

definition user_namespace_ct :: ctype where
  "user_namespace_ct = Struct
     [Mem ''uid_map'' None uid_gid_map_ct, Mem ''gid_map'' None uid_gid_map_ct,
      Mem ''projid_map'' None uid_gid_map_ct, Mem ''parent'' None (Ptr ''user_namespace''),
      Mem ''level'' None (Scalar 4), Mem ''owner'' None kuid_t_ct, Mem ''group'' None kgid_t_ct,
      Mem ''ns'' None ns_common_ct, Mem ''flags'' None (Scalar 8),
      Mem ''parent_could_setfcap'' None bool_ct, Mem ''keyring_name_list'' None list_head_ct,
      Mem ''user_keyring_register'' None (Ptr ''key''), Mem ''keyring_sem'' None rw_semaphore_ct,
      Mem ''persistent_keyring_register'' None (Ptr ''key''), Mem ''work'' None work_struct_ct,
      Mem ''set'' None ctl_table_set_ct, Mem ''sysctls'' None (Ptr ''ctl_table_header''),
      Mem ''ucounts'' None (Ptr ''ucounts''), Mem ''ucount_max'' None (Arr 12 (Scalar 8)),
      Mem ''rlimit_max'' None (Arr 4 (Scalar 8)), Mem ''binfmt_misc'' None (Ptr ''binfmt_misc'')]"

definition ratelimit_state_ct :: ctype where
  "ratelimit_state_ct = Struct
     [Mem ''lock'' None raw_spinlock_t_ct, Mem ''interval'' None (Scalar 4),
      Mem ''burst'' None (Scalar 4), Mem ''printed'' None (Scalar 4),
      Mem ''missed'' None (Scalar 4), Mem ''begin'' None (Scalar 8),
      Mem ''flags'' None (Scalar 8)]"

definition user_struct_ct :: ctype where
  "user_struct_ct = Struct
     [Mem ''__count'' None refcount_t_ct, Mem ''epoll_watches'' None percpu_counter_ct,
      Mem ''unix_inflight'' None (Scalar 8), Mem ''pipe_bufs'' None atomic_long_t_ct,
      Mem ''uidhash_node'' None hlist_node_ct, Mem ''uid'' None kuid_t_ct,
      Mem ''locked_vm'' None atomic_long_t_ct, Mem ''nr_watches'' None atomic_t_ct,
      Mem ''ratelimit'' None ratelimit_state_ct]"

definition k_s32_ct :: ctype where "k_s32_ct = Scalar 4"

definition s32_ct :: ctype where "s32_ct = k_s32_ct"

definition int32_t_ct :: ctype where "int32_t_ct = s32_ct"

definition key_serial_t_ct :: ctype where "key_serial_t_ct = int32_t_ct"

definition uint32_t_ct :: ctype where "uint32_t_ct = u32_ct"

definition key_perm_t_ct :: ctype where "key_perm_t_ct = uint32_t_ct"

definition keyring_index_key_ct :: ctype where
  "keyring_index_key_ct = Struct
     [Mem ''hash'' None (Scalar 8),
      Mem '''' None (Union
        [Mem '''' None (Struct
           [Mem ''desc_len'' None u16_ct, Mem ''desc'' None (Arr 6 (Scalar 1))]),
         Mem ''x'' None (Scalar 8)]),
      Mem ''type'' None (Ptr ''key_type''), Mem ''domain_tag'' None (Ptr ''key_tag''),
      Mem ''description'' None (Ptr '''')]"

definition key_payload_ct :: ctype where
  "key_payload_ct = Union
     [Mem ''rcu_data0'' None (Ptr ''''), Mem ''data'' None (Arr 4 (Ptr ''''))]"

definition assoc_array_ct :: ctype where
  "assoc_array_ct = Struct
     [Mem ''root'' None (Ptr ''assoc_array_ptr''), Mem ''nr_leaves_on_tree'' None (Scalar 8)]"

definition key_ct :: ctype where
  "key_ct = Struct
     [Mem ''usage'' None refcount_t_ct, Mem ''serial'' None key_serial_t_ct,
      Mem '''' None (Union
        [Mem ''graveyard_link'' None list_head_ct, Mem ''serial_node'' None rb_node_ct]),
      Mem ''watchers'' None (Ptr ''watch_list''), Mem ''sem'' None rw_semaphore_ct,
      Mem ''user'' None (Ptr ''key_user''), Mem ''security'' None (Ptr ''''),
      Mem '''' None (Union
        [Mem ''expiry'' None time64_t_ct, Mem ''revoked_at'' None time64_t_ct]),
      Mem ''last_used_at'' None time64_t_ct, Mem ''uid'' None kuid_t_ct,
      Mem ''gid'' None kgid_t_ct, Mem ''perm'' None key_perm_t_ct,
      Mem ''quotalen'' None (Scalar 2), Mem ''datalen'' None (Scalar 2),
      Mem ''state'' None (Scalar 2), Mem ''flags'' None (Scalar 8),
      Mem '''' None (Union
        [Mem ''index_key'' None keyring_index_key_ct,
         Mem '''' None (Struct
           [Mem ''hash'' None (Scalar 8), Mem ''len_desc'' None (Scalar 8),
            Mem ''type'' None (Ptr ''key_type''), Mem ''domain_tag'' None (Ptr ''key_tag''),
            Mem ''description'' None (Ptr '''')])]),
      Mem '''' None (Union
        [Mem ''payload'' None key_payload_ct,
         Mem '''' None (Struct
           [Mem ''name_link'' None list_head_ct, Mem ''keys'' None assoc_array_ct])]),
      Mem ''restrict_link'' None (Ptr ''key_restriction'')]"

definition cgroup_root_ct :: ctype where
  "cgroup_root_ct = Struct
     [Mem ''kf_root'' None (Ptr ''kernfs_root''), Mem ''subsys_mask'' None (Scalar 4),
      Mem ''hierarchy_id'' None (Scalar 4), Mem ''root_list'' None list_head_ct,
      Mem ''rcu'' None callback_head_ct, Mem '''' (Some 64) (Scalar 8),
      Mem '''' (Some 64) (Scalar 8), Mem ''cgrp'' None cgroup_ct,
      Mem ''cgrp_ancestor_storage'' None (Ptr ''cgroup''), Mem ''nr_cgrps'' None atomic_t_ct,
      Mem ''flags'' None (Scalar 4), Mem ''release_agent_path'' None (Arr 4096 (Scalar 1)),
      Mem ''name'' None (Arr 64 (Scalar 1)), Mem '''' (Some 64) (Scalar 8),
      Mem '''' (Some 64) (Scalar 8), Mem '''' (Some 64) (Scalar 8),
      Mem '''' (Some 64) (Scalar 8), Mem '''' (Some 64) (Scalar 8), Mem '''' (Some 64) (Scalar 8)]"

definition delayed_work_ct :: ctype where
  "delayed_work_ct = Struct
     [Mem ''work'' None work_struct_ct, Mem ''timer'' None timer_list_ct,
      Mem ''wq'' None (Ptr ''workqueue_struct''), Mem ''cpu'' None (Scalar 4)]"

definition psi_group_ct :: ctype where
  "psi_group_ct = Struct
     [Mem ''parent'' None (Ptr ''psi_group''), Mem ''enabled'' None bool_ct,
      Mem ''avgs_lock'' None mutex_ct, Mem ''pcpu'' None (Ptr ''psi_group_cpu''),
      Mem ''avg_total'' None (Arr 6 u64_ct), Mem ''avg_last_update'' None u64_ct,
      Mem ''avg_next_update'' None u64_ct, Mem ''avgs_work'' None delayed_work_ct,
      Mem ''avg_triggers'' None list_head_ct, Mem ''avg_nr_triggers'' None (Arr 6 u32_ct),
      Mem ''total'' None (Arr 12 u64_ct), Mem ''avg'' None (Arr 18 (Scalar 8)),
      Mem ''rtpoll_task'' None (Ptr ''task_struct''), Mem ''rtpoll_timer'' None timer_list_ct,
      Mem ''rtpoll_wait'' None wait_queue_head_t_ct, Mem ''rtpoll_wakeup'' None atomic_t_ct,
      Mem ''rtpoll_scheduled'' None atomic_t_ct, Mem ''rtpoll_trigger_lock'' None mutex_ct,
      Mem ''rtpoll_triggers'' None list_head_ct, Mem ''rtpoll_nr_triggers'' None (Arr 6 u32_ct),
      Mem ''rtpoll_states'' None u32_ct, Mem ''rtpoll_min_period'' None u64_ct,
      Mem ''rtpoll_total'' None (Arr 6 u64_ct), Mem ''rtpoll_next_update'' None u64_ct,
      Mem ''rtpoll_until'' None u64_ct]"

definition simple_xattrs_ct :: ctype where
  "simple_xattrs_ct = Struct
     [Mem ''rb_root'' None rb_root_ct, Mem ''lock'' None rwlock_t_ct]"

definition kernfs_iattrs_ct :: ctype where
  "kernfs_iattrs_ct = Struct
     [Mem ''ia_uid'' None kuid_t_ct, Mem ''ia_gid'' None kgid_t_ct,
      Mem ''ia_atime'' None timespec64_ct, Mem ''ia_mtime'' None timespec64_ct,
      Mem ''ia_ctime'' None timespec64_ct, Mem ''xattrs'' None simple_xattrs_ct,
      Mem ''nr_user_xattrs'' None atomic_t_ct, Mem ''user_xattr_size'' None atomic_t_ct]"

definition group_info_ct :: ctype where
  "group_info_ct = Struct
     [Mem ''usage'' None refcount_t_ct, Mem ''ngroups'' None (Scalar 4),
      Mem ''gid'' None (Arr 0 kgid_t_ct)]"

definition ucounts_ct :: ctype where
  "ucounts_ct = Struct
     [Mem ''node'' None hlist_node_ct, Mem ''ns'' None (Ptr ''user_namespace''),
      Mem ''uid'' None kuid_t_ct, Mem ''count'' None atomic_t_ct,
      Mem ''ucount'' None (Arr 12 atomic_long_t_ct), Mem ''rlimit'' None (Arr 4 atomic_long_t_ct)]"

definition mem_cgroup_id_ct :: ctype where
  "mem_cgroup_id_ct = Struct
     [Mem ''id'' None (Scalar 4), Mem ''ref'' None refcount_t_ct]"

definition page_counter_ct :: ctype where
  "page_counter_ct = Struct
     [Mem ''usage'' None atomic_long_t_ct, Mem '''' (Some 64) (Scalar 8),
      Mem '''' (Some 64) (Scalar 8), Mem '''' (Some 64) (Scalar 8),
      Mem '''' (Some 64) (Scalar 8), Mem '''' (Some 64) (Scalar 8),
      Mem '''' (Some 64) (Scalar 8), Mem '''' (Some 64) (Scalar 8),
      Mem ''_pad1_'' None cacheline_padding_ct, Mem ''emin'' None (Scalar 8),
      Mem ''min_usage'' None atomic_long_t_ct, Mem ''children_min_usage'' None atomic_long_t_ct,
      Mem ''elow'' None (Scalar 8), Mem ''low_usage'' None atomic_long_t_ct,
      Mem ''children_low_usage'' None atomic_long_t_ct, Mem ''watermark'' None (Scalar 8),
      Mem ''failcnt'' None (Scalar 8), Mem ''_pad2_'' None cacheline_padding_ct,
      Mem ''min'' None (Scalar 8), Mem ''low'' None (Scalar 8), Mem ''high'' None (Scalar 8),
      Mem ''max'' None (Scalar 8), Mem ''parent'' None (Ptr ''page_counter''),
      Mem '''' (Some 64) (Scalar 8), Mem '''' (Some 64) (Scalar 8), Mem '''' (Some 64) (Scalar 8)]"

definition vmpressure_ct :: ctype where
  "vmpressure_ct = Struct
     [Mem ''scanned'' None (Scalar 8), Mem ''reclaimed'' None (Scalar 8),
      Mem ''tree_scanned'' None (Scalar 8), Mem ''tree_reclaimed'' None (Scalar 8),
      Mem ''sr_lock'' None spinlock_t_ct, Mem ''events'' None list_head_ct,
      Mem ''events_lock'' None mutex_ct, Mem ''work'' None work_struct_ct]"

definition mem_cgroup_thresholds_ct :: ctype where
  "mem_cgroup_thresholds_ct = Struct
     [Mem ''primary'' None (Ptr ''mem_cgroup_threshold_ary''),
      Mem ''spare'' None (Ptr ''mem_cgroup_threshold_ary'')]"

definition fprop_global_ct :: ctype where
  "fprop_global_ct = Struct
     [Mem ''events'' None percpu_counter_ct, Mem ''period'' None (Scalar 4),
      Mem ''sequence'' None seqcount_t_ct]"

definition wb_domain_ct :: ctype where
  "wb_domain_ct = Struct
     [Mem ''lock'' None spinlock_t_ct, Mem ''completions'' None fprop_global_ct,
      Mem ''period_timer'' None timer_list_ct, Mem ''period_time'' None (Scalar 8),
      Mem ''dirty_limit_tstamp'' None (Scalar 8), Mem ''dirty_limit'' None (Scalar 8)]"

definition wb_completion_ct :: ctype where
  "wb_completion_ct = Struct
     [Mem ''cnt'' None atomic_t_ct, Mem ''waitq'' None (Ptr '''')]"

definition memcg_cgwb_frn_ct :: ctype where
  "memcg_cgwb_frn_ct = Struct
     [Mem ''bdi_id'' None u64_ct, Mem ''memcg_id'' None (Scalar 4), Mem ''at'' None u64_ct,
      Mem ''done'' None wb_completion_ct]"

definition deferred_split_ct :: ctype where
  "deferred_split_ct = Struct
     [Mem ''split_queue_lock'' None spinlock_t_ct, Mem ''split_queue'' None list_head_ct,
      Mem ''split_queue_len'' None (Scalar 8)]"

definition lru_gen_mm_list_ct :: ctype where
  "lru_gen_mm_list_ct = Struct
     [Mem ''fifo'' None list_head_ct, Mem ''lock'' None spinlock_t_ct]"

definition mem_cgroup_ct :: ctype where
  "mem_cgroup_ct = Struct
     [Mem ''css'' None cgroup_subsys_state_ct, Mem ''id'' None mem_cgroup_id_ct,
      Mem '''' (Some 64) (Scalar 8), Mem '''' (Some 64) (Scalar 8),
      Mem '''' (Some 64) (Scalar 8), Mem '''' (Some 64) (Scalar 8),
      Mem '''' (Some 64) (Scalar 8), Mem '''' (Some 64) (Scalar 8),
      Mem ''memory'' None page_counter_ct,
      Mem '''' None (Union
        [Mem ''swap'' None page_counter_ct, Mem ''memsw'' None page_counter_ct]),
      Mem ''kmem'' None page_counter_ct, Mem ''tcpmem'' None page_counter_ct,
      Mem ''high_work'' None work_struct_ct, Mem ''zswap_max'' None (Scalar 8),
      Mem ''zswap_writeback'' None bool_ct, Mem ''soft_limit'' None (Scalar 8),
      Mem ''vmpressure'' None vmpressure_ct, Mem ''oom_group'' None bool_ct,
      Mem ''oom_lock'' None bool_ct, Mem ''under_oom'' None (Scalar 4),
      Mem ''swappiness'' None (Scalar 4), Mem ''oom_kill_disable'' None (Scalar 4),
      Mem ''events_file'' None cgroup_file_ct, Mem ''events_local_file'' None cgroup_file_ct,
      Mem ''swap_events_file'' None cgroup_file_ct, Mem ''thresholds_lock'' None mutex_ct,
      Mem ''thresholds'' None mem_cgroup_thresholds_ct,
      Mem ''memsw_thresholds'' None mem_cgroup_thresholds_ct,
      Mem ''oom_notify'' None list_head_ct, Mem ''move_charge_at_immigrate'' None (Scalar 8),
      Mem ''move_lock'' None spinlock_t_ct, Mem ''move_lock_flags'' None (Scalar 8),
      Mem '''' (Some 64) (Scalar 8), Mem '''' (Some 64) (Scalar 8),
      Mem '''' (Some 64) (Scalar 8), Mem '''' (Some 64) (Scalar 8),
      Mem '''' (Some 64) (Scalar 8), Mem '''' (Some 64) (Scalar 8),
      Mem ''_pad1_'' None cacheline_padding_ct, Mem ''vmstats'' None (Ptr ''memcg_vmstats''),
      Mem ''memory_events'' None (Arr 9 atomic_long_t_ct),
      Mem ''memory_events_local'' None (Arr 9 atomic_long_t_ct),
      Mem ''socket_pressure'' None (Scalar 8), Mem ''tcpmem_active'' None bool_ct,
      Mem ''tcpmem_pressure'' None (Scalar 4), Mem ''kmemcg_id'' None (Scalar 4),
      Mem ''objcg'' None (Ptr ''obj_cgroup''), Mem ''orig_objcg'' None (Ptr ''obj_cgroup''),
      Mem ''objcg_list'' None list_head_ct, Mem '''' (Some 64) (Scalar 8),
      Mem '''' (Some 64) (Scalar 8), Mem '''' (Some 64) (Scalar 8),
      Mem '''' (Some 64) (Scalar 8), Mem '''' (Some 64) (Scalar 8),
      Mem '''' (Some 64) (Scalar 8), Mem ''_pad2_'' None cacheline_padding_ct,
      Mem ''moving_account'' None atomic_t_ct, Mem ''move_lock_task'' None (Ptr ''task_struct''),
      Mem ''vmstats_percpu'' None (Ptr ''memcg_vmstats_percpu''),
      Mem ''cgwb_list'' None list_head_ct, Mem ''cgwb_domain'' None wb_domain_ct,
      Mem ''cgwb_frn'' None (Arr 4 memcg_cgwb_frn_ct), Mem ''event_list'' None list_head_ct,
      Mem ''event_list_lock'' None spinlock_t_ct,
      Mem ''deferred_split_queue'' None deferred_split_ct,
      Mem ''mm_list'' None lru_gen_mm_list_ct,
      Mem ''nodeinfo'' None (Arr 0 (Ptr ''mem_cgroup_per_node'')), Mem '''' (Some 64) (Scalar 8),
      Mem '''' (Some 64) (Scalar 8), Mem '''' (Some 64) (Scalar 8),
      Mem '''' (Some 64) (Scalar 8), Mem '''' (Some 64) (Scalar 8), Mem '''' (Some 64) (Scalar 8)]"

definition kioctx_table_ct :: ctype where
  "kioctx_table_ct = Struct
     [Mem ''rcu'' None callback_head_ct, Mem ''nr'' None (Scalar 4),
      Mem ''table'' None (Arr 0 (Ptr ''kioctx''))]"

definition linux_binfmt_ct :: ctype where
  "linux_binfmt_ct = Struct
     [Mem ''lh'' None list_head_ct, Mem ''module'' None (Ptr ''module''),
      Mem ''load_binary'' None (Ptr ''''), Mem ''load_shlib'' None (Ptr ''''),
      Mem ''core_dump'' None (Ptr ''''), Mem ''min_coredump'' None (Scalar 8)]"

definition mm_cid_ct :: ctype where
  "mm_cid_ct = Struct
     [Mem ''time'' None u64_ct, Mem ''cid'' None (Scalar 4)]"

definition iommu_mm_data_ct :: ctype where
  "iommu_mm_data_ct = Struct
     [Mem ''pasid'' None u32_ct, Mem ''sva_domains'' None list_head_ct,
      Mem ''sva_handles'' None list_head_ct]"

definition mmu_notifier_subscriptions_ct :: ctype where
  "mmu_notifier_subscriptions_ct = Struct
     [Mem ''list'' None hlist_head_ct, Mem ''has_itree'' None bool_ct,
      Mem ''lock'' None spinlock_t_ct, Mem ''invalidate_seq'' None (Scalar 8),
      Mem ''active_invalidate_ranges'' None (Scalar 8), Mem ''itree'' None rb_root_cached_ct,
      Mem ''wq'' None wait_queue_head_t_ct, Mem ''deferred_list'' None hlist_head_ct]"

definition bpf_local_storage_ct :: ctype where
  "bpf_local_storage_ct = Struct
     [Mem ''cache'' None (Arr 16 (Ptr ''bpf_local_storage_data'')),
      Mem ''smap'' None (Ptr ''bpf_local_storage_map''), Mem ''list'' None hlist_head_ct,
      Mem ''owner'' None (Ptr ''''), Mem ''rcu'' None callback_head_ct,
      Mem ''lock'' None raw_spinlock_t_ct]"

definition file_operations_ct :: ctype where
  "file_operations_ct = Struct
     [Mem ''owner'' None (Ptr ''module''), Mem ''llseek'' None (Ptr ''''),
      Mem ''read'' None (Ptr ''''), Mem ''write'' None (Ptr ''''),
      Mem ''read_iter'' None (Ptr ''''), Mem ''write_iter'' None (Ptr ''''),
      Mem ''iopoll'' None (Ptr ''''), Mem ''iterate_shared'' None (Ptr ''''),
      Mem ''poll'' None (Ptr ''''), Mem ''unlocked_ioctl'' None (Ptr ''''),
      Mem ''compat_ioctl'' None (Ptr ''''), Mem ''mmap'' None (Ptr ''''),
      Mem ''mmap_supported_flags'' None (Scalar 8), Mem ''open'' None (Ptr ''''),
      Mem ''flush'' None (Ptr ''''), Mem ''release'' None (Ptr ''''),
      Mem ''fsync'' None (Ptr ''''), Mem ''fasync'' None (Ptr ''''),
      Mem ''lock'' None (Ptr ''''), Mem ''get_unmapped_area'' None (Ptr ''''),
      Mem ''check_flags'' None (Ptr ''''), Mem ''flock'' None (Ptr ''''),
      Mem ''splice_write'' None (Ptr ''''), Mem ''splice_read'' None (Ptr ''''),
      Mem ''splice_eof'' None (Ptr ''''), Mem ''setlease'' None (Ptr ''''),
      Mem ''fallocate'' None (Ptr ''''), Mem ''show_fdinfo'' None (Ptr ''''),
      Mem ''copy_file_range'' None (Ptr ''''), Mem ''remap_file_range'' None (Ptr ''''),
      Mem ''fadvise'' None (Ptr ''''), Mem ''uring_cmd'' None (Ptr ''''),
      Mem ''uring_cmd_iopoll'' None (Ptr '''')]"

definition dentry_operations_ct :: ctype where
  "dentry_operations_ct = Struct
     [Mem ''d_revalidate'' None (Ptr ''''), Mem ''d_weak_revalidate'' None (Ptr ''''),
      Mem ''d_hash'' None (Ptr ''''), Mem ''d_compare'' None (Ptr ''''),
      Mem ''d_delete'' None (Ptr ''''), Mem ''d_init'' None (Ptr ''''),
      Mem ''d_release'' None (Ptr ''''), Mem ''d_prune'' None (Ptr ''''),
      Mem ''d_iput'' None (Ptr ''''), Mem ''d_dname'' None (Ptr ''''),
      Mem ''d_automount'' None (Ptr ''''), Mem ''d_manage'' None (Ptr ''''),
      Mem ''d_real'' None (Ptr ''''), Mem '''' (Some 64) (Scalar 8),
      Mem '''' (Some 64) (Scalar 8), Mem '''' (Some 64) (Scalar 8)]"

definition cpu_itimer_ct :: ctype where
  "cpu_itimer_ct = Struct
     [Mem ''expires'' None u64_ct, Mem ''incr'' None u64_ct]"

definition task_cputime_atomic_ct :: ctype where
  "task_cputime_atomic_ct = Struct
     [Mem ''utime'' None atomic64_t_ct, Mem ''stime'' None atomic64_t_ct,
      Mem ''sum_exec_runtime'' None atomic64_t_ct]"

definition thread_group_cputimer_ct :: ctype where
  "thread_group_cputimer_ct = Struct
     [Mem ''cputime_atomic'' None task_cputime_atomic_ct]"

definition seqlock_t_ct :: ctype where
  "seqlock_t_ct = Struct
     [Mem ''seqcount'' None seqcount_spinlock_t_ct, Mem ''lock'' None spinlock_t_ct]"

definition rlimit_ct :: ctype where
  "rlimit_ct = Struct
     [Mem ''rlim_cur'' None k_kernel_ulong_t_ct, Mem ''rlim_max'' None k_kernel_ulong_t_ct]"

definition pacct_struct_ct :: ctype where
  "pacct_struct_ct = Struct
     [Mem ''ac_flag'' None (Scalar 4), Mem ''ac_exitcode'' None (Scalar 8),
      Mem ''ac_mem'' None (Scalar 8), Mem ''ac_utime'' None u64_ct, Mem ''ac_stime'' None u64_ct,
      Mem ''ac_minflt'' None (Scalar 8), Mem ''ac_majflt'' None (Scalar 8)]"

definition signal_struct_ct :: ctype where
  "signal_struct_ct = Struct
     [Mem ''sigcnt'' None refcount_t_ct, Mem ''live'' None atomic_t_ct,
      Mem ''nr_threads'' None (Scalar 4), Mem ''quick_threads'' None (Scalar 4),
      Mem ''thread_head'' None list_head_ct, Mem ''wait_chldexit'' None wait_queue_head_t_ct,
      Mem ''curr_target'' None (Ptr ''task_struct''), Mem ''shared_pending'' None sigpending_ct,
      Mem ''multiprocess'' None hlist_head_ct, Mem ''group_exit_code'' None (Scalar 4),
      Mem ''notify_count'' None (Scalar 4), Mem ''group_exec_task'' None (Ptr ''task_struct''),
      Mem ''group_stop_count'' None (Scalar 4), Mem ''flags'' None (Scalar 4),
      Mem ''core_state'' None (Ptr ''core_state''),
      Mem ''is_child_subreaper'' (Some 1) (Scalar 4),
      Mem ''has_child_subreaper'' (Some 1) (Scalar 4),
      Mem ''next_posix_timer_id'' None (Scalar 4), Mem ''posix_timers'' None list_head_ct,
      Mem ''real_timer'' None hrtimer_ct, Mem ''it_real_incr'' None ktime_t_ct,
      Mem ''it'' None (Arr 2 cpu_itimer_ct), Mem ''cputimer'' None thread_group_cputimer_ct,
      Mem ''posix_cputimers'' None posix_cputimers_ct, Mem ''pids'' None (Arr 4 (Ptr ''pid'')),
      Mem ''tick_dep_mask'' None atomic_t_ct, Mem ''tty_old_pgrp'' None (Ptr ''pid''),
      Mem ''leader'' None (Scalar 4), Mem ''tty'' None (Ptr ''tty_struct''),
      Mem ''autogroup'' None (Ptr ''autogroup''), Mem ''stats_lock'' None seqlock_t_ct,
      Mem ''utime'' None u64_ct, Mem ''stime'' None u64_ct, Mem ''cutime'' None u64_ct,
      Mem ''cstime'' None u64_ct, Mem ''gtime'' None u64_ct, Mem ''cgtime'' None u64_ct,
      Mem ''prev_cputime'' None prev_cputime_ct, Mem ''nvcsw'' None (Scalar 8),
      Mem ''nivcsw'' None (Scalar 8), Mem ''cnvcsw'' None (Scalar 8),
      Mem ''cnivcsw'' None (Scalar 8), Mem ''min_flt'' None (Scalar 8),
      Mem ''maj_flt'' None (Scalar 8), Mem ''cmin_flt'' None (Scalar 8),
      Mem ''cmaj_flt'' None (Scalar 8), Mem ''inblock'' None (Scalar 8),
      Mem ''oublock'' None (Scalar 8), Mem ''cinblock'' None (Scalar 8),
      Mem ''coublock'' None (Scalar 8), Mem ''maxrss'' None (Scalar 8),
      Mem ''cmaxrss'' None (Scalar 8), Mem ''ioac'' None task_io_accounting_ct,
      Mem ''sum_sched_runtime'' None (Scalar 8), Mem ''rlim'' None (Arr 16 rlimit_ct),
      Mem ''pacct'' None pacct_struct_ct, Mem ''stats'' None (Ptr ''taskstats''),
      Mem ''audit_tty'' None (Scalar 4), Mem ''tty_audit_buf'' None (Ptr ''tty_audit_buf''),
      Mem ''oom_flag_origin'' None bool_ct, Mem ''oom_score_adj'' None (Scalar 2),
      Mem ''oom_score_adj_min'' None (Scalar 2), Mem ''oom_mm'' None (Ptr ''mm_struct''),
      Mem ''cred_guard_mutex'' None mutex_ct, Mem ''exec_update_lock'' None rw_semaphore_ct]"

definition k_sighandler_t_ct :: ctype where "k_sighandler_t_ct = Ptr ''''"

definition k_sigrestore_t_ct :: ctype where "k_sigrestore_t_ct = Ptr ''''"

definition sigaction_ct :: ctype where
  "sigaction_ct = Struct
     [Mem ''sa_handler'' None k_sighandler_t_ct, Mem ''sa_flags'' None (Scalar 8),
      Mem ''sa_restorer'' None k_sigrestore_t_ct, Mem ''sa_mask'' None sigset_t_ct]"

definition k_sigaction_ct :: ctype where
  "k_sigaction_ct = Struct
     [Mem ''sa'' None sigaction_ct]"

definition sighand_struct_ct :: ctype where
  "sighand_struct_ct = Struct
     [Mem ''siglock'' None spinlock_t_ct, Mem ''count'' None refcount_t_ct,
      Mem ''signalfd_wqh'' None wait_queue_head_t_ct, Mem ''action'' None (Arr 64 k_sigaction_ct)]"

definition nsproxy_ct :: ctype where
  "nsproxy_ct = Struct
     [Mem ''count'' None refcount_t_ct, Mem ''uts_ns'' None (Ptr ''uts_namespace''),
      Mem ''ipc_ns'' None (Ptr ''ipc_namespace''), Mem ''mnt_ns'' None (Ptr ''mnt_namespace''),
      Mem ''pid_ns_for_children'' None (Ptr ''pid_namespace''),
      Mem ''net_ns'' None (Ptr ''net''), Mem ''time_ns'' None (Ptr ''time_namespace''),
      Mem ''time_ns_for_children'' None (Ptr ''time_namespace''),
      Mem ''cgroup_ns'' None (Ptr ''cgroup_namespace'')]"

definition fdtable_ct :: ctype where
  "fdtable_ct = Struct
     [Mem ''max_fds'' None (Scalar 4), Mem ''fd'' None (Ptr ''''),
      Mem ''close_on_exec'' None (Ptr ''''), Mem ''open_fds'' None (Ptr ''''),
      Mem ''full_fds_bits'' None (Ptr ''''), Mem ''rcu'' None callback_head_ct]"

definition files_struct_ct :: ctype where
  "files_struct_ct = Struct
     [Mem ''count'' None atomic_t_ct, Mem ''resize_in_progress'' None bool_ct,
      Mem ''resize_wait'' None wait_queue_head_t_ct, Mem ''fdt'' None (Ptr ''fdtable''),
      Mem ''fdtab'' None fdtable_ct, Mem '''' (Some 64) (Scalar 8),
      Mem '''' (Some 64) (Scalar 8), Mem '''' (Some 64) (Scalar 8),
      Mem '''' (Some 64) (Scalar 8), Mem ''file_lock'' None spinlock_t_ct,
      Mem ''next_fd'' None (Scalar 4), Mem ''close_on_exec_init'' None (Arr 1 (Scalar 8)),
      Mem ''open_fds_init'' None (Arr 1 (Scalar 8)),
      Mem ''full_fds_bits_init'' None (Arr 1 (Scalar 8)),
      Mem ''fd_array'' None (Arr 64 (Ptr ''file'')), Mem '''' (Some 64) (Scalar 8),
      Mem '''' (Some 64) (Scalar 8), Mem '''' (Some 64) (Scalar 8), Mem '''' (Some 64) (Scalar 8)]"

definition fs_struct_ct :: ctype where
  "fs_struct_ct = Struct
     [Mem ''users'' None (Scalar 4), Mem ''lock'' None spinlock_t_ct,
      Mem ''seq'' None seqcount_spinlock_t_ct, Mem ''umask'' None (Scalar 4),
      Mem ''in_exec'' None (Scalar 4), Mem ''root'' None path_ct, Mem ''pwd'' None path_ct]"

text \<open>The structures that pointers on the paths of the programs lead to.\<close>

definition kernel_types :: "string \<Rightarrow> ctype option" where
  "kernel_types = map_of [(''task_struct'', task_struct_ct), (''cred'', cred_ct),
     (''css_set'', css_set_ct), (''cgroup'', cgroup_ct), (''kernfs_node'', kernfs_node_ct),
     (''mm_struct'', mm_struct_ct), (''file'', file_ct), (''dentry'', dentry_ct)]"

end
