(* ===== verification/Go_Layout.thy ===== *)
theory Go_Layout
  imports C_Layout
begin

text \<open>
  Structures of Go on amd64, and memory that a C program writes and a Go program reads: fields
  stored at the offsets of the C layout, whatever the memory held before, and read at the offsets of
  the Go layout. If the two layouts agree, the reader gets what the writer stored.
\<close>

section \<open>Layout of Go structures\<close>

datatype gotype = Go_Num nat | Go_Array nat gotype

fun go_size :: "gotype \<Rightarrow> nat" where
  "go_size (Go_Num n) = n"
| "go_size (Go_Array n t) = n * go_size t"

fun go_align :: "gotype \<Rightarrow> nat" where
  "go_align (Go_Num n) = n"
| "go_align (Go_Array n t) = go_align t"

text \<open>Offset and size in bytes of every field, and the size of the structure, on amd64.\<close>

fun go_fields :: "nat \<Rightarrow> gotype list \<Rightarrow> (nat \<times> nat) list" where
  "go_fields pos [] = []"
| "go_fields pos (t # ts) =
     (let p = round_up pos (go_align t) in (p, go_size t) # go_fields (p + go_size t) ts)"

definition go_end :: "(nat \<times> nat) list \<Rightarrow> nat" where
  "go_end fs = (if fs = [] then 0 else fst (last fs) + snd (last fs))"

definition go_layout :: "gotype list \<Rightarrow> nat \<times> (nat \<times> nat) list" where
  "go_layout ts = (let fs = go_fields 0 ts in
     (round_up (go_end fs) (foldr (\<lambda>t a. max (go_align t) a) ts 1), fs))"

section \<open>The C layout in bytes\<close>

fun c_layout :: "ctype \<Rightarrow> nat \<times> (nat \<times> nat) list" where
  "c_layout (Struct ms) =
     (size_of (Struct ms), zip (map (\<lambda>b. b div 8) (starts 0 ms)) (map (\<lambda>m. width m div 8) ms))"
| "c_layout t = (size_of t, [])"

section \<open>Submitting and casting\<close>

text \<open>
  A program fills the reserved record field by field; whatever the memory held before stays in the
  padding. The Go side reads its own fields from the same bytes.
\<close>

definition write_at :: "u8 list \<Rightarrow> nat \<Rightarrow> u8 list \<Rightarrow> u8 list" where
  "write_at buf off bs = take off buf @ bs @ drop (off + length bs) buf"

definition read_at :: "u8 list \<Rightarrow> nat \<Rightarrow> nat \<Rightarrow> u8 list" where
  "read_at buf off n = take n (drop off buf)"

fun store_fields :: "(nat \<times> nat) list \<Rightarrow> u8 list list \<Rightarrow> u8 list \<Rightarrow> u8 list" where
  "store_fields (f # fs) (v # vs) buf = store_fields fs vs (write_at buf (fst f) v)"
| "store_fields _ _ buf = buf"

definition c_store :: "ctype \<Rightarrow> u8 list list \<Rightarrow> u8 list \<Rightarrow> u8 list" where
  "c_store t vs buf = store_fields (snd (c_layout t)) vs buf"

definition go_view :: "gotype list \<Rightarrow> u8 list \<Rightarrow> u8 list list" where
  "go_view ts buf = map (\<lambda>(off, n). read_at buf off n) (snd (go_layout ts))"

text \<open>Fields in order, disjoint, and inside a buffer of \<open>len\<close> bytes from \<open>pos\<close> on.\<close>

fun apart :: "nat \<Rightarrow> nat \<Rightarrow> (nat \<times> nat) list \<Rightarrow> bool" where
  "apart pos len [] \<longleftrightarrow> pos \<le> len"
| "apart pos len ((off, n) # fs) \<longleftrightarrow> pos \<le> off \<and> apart (off + n) len fs"

lemma apart_le: "apart pos len fs \<Longrightarrow> pos \<le> len"
  by (induction fs arbitrary: pos) (auto, fastforce)

lemma length_write_at: "off + length bs \<le> length buf \<Longrightarrow> length (write_at buf off bs) = length buf"
  by (simp add: write_at_def)

lemma read_write_same: "off + length bs \<le> length buf \<Longrightarrow> read_at (write_at buf off bs) off (length bs) = bs"
  by (simp add: write_at_def read_at_def)

lemma read_write_before:
  "o' + n \<le> off \<Longrightarrow> off \<le> length buf \<Longrightarrow> read_at (write_at buf off bs) o' n = read_at buf o' n"
  by (simp add: write_at_def read_at_def drop_take min_absorb1)

lemma store_keeps_before:
  "apart pos (length buf) fs \<Longrightarrow> map length vs = map snd fs \<Longrightarrow> o' + n \<le> pos \<Longrightarrow>
     read_at (store_fields fs vs buf) o' n = read_at buf o' n"
proof (induction fs vs buf arbitrary: pos rule: store_fields.induct)
  case (1 f fs v vs buf)
  obtain off w where f: "f = (off, w)" by fastforce
  have le: "off + length v \<le> length buf" using 1 f by (auto dest: apart_le)
  have "read_at (store_fields fs vs (write_at buf off v)) o' n = read_at (write_at buf off v) o' n"
    using 1(1) [of "off + w"] 1(2-4) f le by (auto simp: length_write_at)
  with 1 f le show ?case by (simp add: read_write_before)
qed auto

lemma store_read_back:
  "apart pos (length buf) fs \<Longrightarrow> map length vs = map snd fs \<Longrightarrow>
     map (\<lambda>(off, n). read_at (store_fields fs vs buf) off n) fs = vs"
proof (induction fs vs buf arbitrary: pos rule: store_fields.induct)
  case (1 f fs v vs buf)
  obtain off w where f: "f = (off, w)" by fastforce
  have w: "w = length v" using 1(3) f by simp
  have le: "off + length v \<le> length buf" using 1 f by (auto dest: apart_le)
  have rest: "apart (off + w) (length (write_at buf off v)) fs" "map length vs = map snd fs"
    using 1 f le by (auto simp: length_write_at)
  have "read_at (store_fields fs vs (write_at buf off v)) off w = v"
    using store_keeps_before [OF rest, of off w] le w by (simp add: read_write_same)
  moreover have "map (\<lambda>(off', n). read_at (store_fields fs vs (write_at buf off v)) off' n) fs = vs"
    using 1(1) [of "off + w"] rest f by simp
  ultimately show ?case using f by simp
qed auto

lemma go_end_simps: "go_end [(off, n)] = off + n" "fs \<noteq> [] \<Longrightarrow> go_end (f # fs) = go_end fs"
  by (simp_all add: go_end_def)

lemma go_fields_empty: "go_fields pos ts = [] \<longleftrightarrow> ts = []"
  by (cases ts) (simp_all add: Let_def)

lemma go_end_ge: "list_all (\<lambda>t. 0 < go_align t) ts \<Longrightarrow> ts \<noteq> [] \<Longrightarrow> pos \<le> go_end (go_fields pos ts)"
proof (induction ts arbitrary: pos)
  case (Cons t ts)
  have ge: "pos \<le> round_up pos (go_align t)" using Cons.prems by (simp add: round_up_ge)
  show ?case
  proof (cases "ts = []")
    case True
    with ge show ?thesis by (simp add: Let_def go_end_simps)
  next
    case False
    then have "round_up pos (go_align t) + go_size t \<le>
        go_end (go_fields (round_up pos (go_align t) + go_size t) ts)"
      using Cons by simp
    with ge False show ?thesis by (simp add: Let_def go_end_simps go_fields_empty)
  qed
qed simp

lemma go_fields_apart:
  "list_all (\<lambda>t. 0 < go_align t) ts \<Longrightarrow> ts \<noteq> [] \<Longrightarrow> apart pos (go_end (go_fields pos ts)) (go_fields pos ts)"
proof (induction ts arbitrary: pos)
  case (Cons t ts)
  have "pos \<le> round_up pos (go_align t)" using Cons.prems by (simp add: round_up_ge)
  with Cons show ?case
    by (cases "ts = []") (simp_all add: Let_def go_end_simps go_fields_empty)
qed simp

lemma apart_mono: "apart pos len fs \<Longrightarrow> len \<le> len' \<Longrightarrow> apart pos len' fs"
  by (induction fs arbitrary: pos) auto

lemma go_layout_apart:
  assumes "list_all (\<lambda>t. 0 < go_align t) ts" and "ts \<noteq> []"
  shows "apart 0 (fst (go_layout ts)) (snd (go_layout ts))"
proof -
  have "0 < foldr (\<lambda>t a. max (go_align t) a) ts 1" by (induction ts) auto
  then have "go_end (go_fields 0 ts) \<le> fst (go_layout ts)"
    by (simp add: go_layout_def Let_def round_up_ge)
  with go_fields_apart [OF assms, of 0] show ?thesis
    by (auto simp: go_layout_def Let_def intro: apart_mono)
qed

lemma go_fields_sizes: "map snd (go_fields pos ts) = map go_size ts"
  by (induction ts arbitrary: pos) (simp_all add: Let_def)

text \<open>Two layouts that agree: the cast reads what was stored.\<close>

lemma cast_reads_back:
  assumes "c_layout c = go_layout g" and "list_all (\<lambda>t. 0 < go_align t) g" and "g \<noteq> []"
    and "length buf = fst (c_layout c)" and "map length vs = map go_size g"
  shows "go_view g (c_store c vs buf) = vs"
proof -
  have "apart 0 (length buf) (snd (go_layout g))"
    using go_layout_apart [OF assms(2,3)] assms(1,4) by simp
  moreover have "map length vs = map snd (snd (go_layout g))"
    using assms(5) by (simp add: go_layout_def Let_def go_fields_sizes)
  ultimately show ?thesis
    using assms(1) by (simp add: go_view_def c_store_def store_read_back)
qed

end
