(* ===== verification/Event_Layout.thy ===== *)
theory Event_Layout
  imports Kernel_Types Go_Layout
begin

text \<open>
  What the programs assume of memory layouts. The events that five programs submit are read on the
  Go side by casting the raw bytes to a Go structure of its own (\<open>(*FSEvent)(unsafe.Pointer(...))\<close>), so
  the two layouts must coincide; and the fields that the programs take from contexts and kernel
  objects must exist in \<^verbatim>\<open>vmlinux.h\<close> with the width that the development gives them.
\<close>

section \<open>The events in C\<close>

definition http_event_ct :: ctype where
  "http_event_ct = Struct
     [Mem ''timestamp'' None k_u64_ct, Mem ''cgroup_id'' None k_u64_ct, Mem ''pid'' None k_u32_ct,
      Mem ''status_code'' None k_u32_ct, Mem ''latency_us'' None k_u64_ct,
      Mem ''method'' None (Arr 16 (Scalar 1)), Mem ''url'' None (Arr 64 (Scalar 1))]"

definition memory_event_ct :: ctype where
  "memory_event_ct = Struct
     [Mem ''timestamp'' None k_u64_ct, Mem ''cgroup_id'' None k_u64_ct, Mem ''pid'' None k_u32_ct,
      Mem ''event_type'' None k_u32_ct, Mem ''address'' None k_u64_ct, Mem ''size'' None k_u64_ct,
      Mem ''stack_id'' None k_u32_ct]"

definition fs_event_ct :: ctype where
  "fs_event_ct = Struct
     [Mem ''timestamp'' None k_u64_ct, Mem ''cgroup_id'' None k_u64_ct, Mem ''pid'' None k_u32_ct,
      Mem ''event_type'' None k_u32_ct, Mem ''fd'' None (Scalar 4), Mem ''size'' None k_u64_ct,
      Mem ''latency_us'' None k_u64_ct, Mem ''filename'' None (Arr 256 (Scalar 1)),
      Mem ''error_code'' None (Scalar 4)]"

definition app_event_ct :: ctype where
  "app_event_ct = Struct
     [Mem ''timestamp'' None k_u64_ct, Mem ''cgroup_id'' None k_u64_ct, Mem ''pid'' None k_u32_ct,
      Mem ''event_type'' None k_u32_ct, Mem ''duration_us'' None k_u64_ct, Mem ''value'' None k_u64_ct,
      Mem ''details'' None (Arr 256 (Scalar 1))]"

definition security_event_ct :: ctype where
  "security_event_ct = Struct
     [Mem ''timestamp'' None k_u64_ct, Mem ''cgroup_id'' None k_u64_ct, Mem ''pid'' None k_u32_ct,
      Mem ''event_type'' None k_u32_ct, Mem ''severity'' None k_u32_ct, Mem ''value1'' None k_u64_ct,
      Mem ''value2'' None k_u64_ct, Mem ''description'' None (Arr 256 (Scalar 1))]"

section \<open>The same events in Go\<close>

definition HTTPEvent :: "gotype list" where
  "HTTPEvent = [Go_Num 8, Go_Num 8, Go_Num 4, Go_Num 4, Go_Num 8, Go_Array 16 (Go_Num 1),
     Go_Array 64 (Go_Num 1)]"

definition MemoryEvent :: "gotype list" where
  "MemoryEvent = [Go_Num 8, Go_Num 8, Go_Num 4, Go_Num 4, Go_Num 8, Go_Num 8, Go_Num 4]"

definition FSEvent :: "gotype list" where
  "FSEvent = [Go_Num 8, Go_Num 8, Go_Num 4, Go_Num 4, Go_Num 4, Go_Num 8, Go_Num 8,
     Go_Array 256 (Go_Num 1), Go_Num 4]"

definition AppEvent :: "gotype list" where
  "AppEvent = [Go_Num 8, Go_Num 8, Go_Num 4, Go_Num 4, Go_Num 8, Go_Num 8, Go_Array 256 (Go_Num 1)]"

definition SecurityEvent :: "gotype list" where
  "SecurityEvent = [Go_Num 8, Go_Num 8, Go_Num 4, Go_Num 4, Go_Num 4, Go_Num 8, Go_Num 8,
     Go_Array 256 (Go_Num 1)]"

section \<open>Pairs of views\<close>

definition event_views :: "(ctype \<times> gotype list) list" where
  "event_views = [(http_event_ct, HTTPEvent), (memory_event_ct, MemoryEvent), (fs_event_ct, FSEvent),
     (app_event_ct, AppEvent), (security_event_ct, SecurityEvent)]"

section \<open>Paths through kernel objects\<close>

definition cgroup_id_path :: "string list list" where
  "cgroup_id_path = [[''cgroups''], [''dfl_cgrp''], [''kn''], [''id'']]"

definition ppid_path :: "string list list" where
  "ppid_path = [[''real_parent''], [''pid'']]"

definition uid_path :: "string list list" where
  "uid_path = [[''cred''], [''uid'', ''val'']]"

definition gid_path :: "string list list" where
  "gid_path = [[''cred''], [''gid'', ''val'']]"

definition exe_file_path :: "string list list" where
  "exe_file_path = [[''mm''], [''exe_file'']]"

definition exe_dentry_path :: "string list list" where
  "exe_dentry_path = [[''f_path'', ''dentry'']]"

definition exe_name_path :: "string list list" where
  "exe_name_path = [[''d_name'', ''name'']]"

section \<open>Event by event\<close>

lemmas layout_defs = k_u64_ct_def k_u32_ct_def round_up_def go_layout_def go_end_def Let_def

lemma http_view: "c_layout http_event_ct = go_layout HTTPEvent"
  by (simp add: http_event_ct_def HTTPEvent_def layout_defs)

lemma memory_view: "c_layout memory_event_ct = go_layout MemoryEvent"
  by (simp add: memory_event_ct_def MemoryEvent_def layout_defs)

lemma fs_view: "c_layout fs_event_ct = go_layout FSEvent"
  by (simp add: fs_event_ct_def FSEvent_def layout_defs)

lemma app_view: "c_layout app_event_ct = go_layout AppEvent"
  by (simp add: app_event_ct_def AppEvent_def layout_defs)

lemma security_view: "c_layout security_event_ct = go_layout SecurityEvent"
  by (simp add: security_event_ct_def SecurityEvent_def layout_defs)

section \<open>Members of the objects on the paths\<close>

lemma find_in_append:
  "find_in f (xs @ ys) = (case find_in f xs of Some t \<Rightarrow> Some t | None \<Rightarrow> find_in f ys)"
proof (induction xs)
  case (Cons m xs)
  obtain x b t where "m = Mem x b t" by (cases m)
  with Cons show ?case by (auto split: option.splits)
qed simp

text \<open>The part of \<open>task_struct\<close> in which each name is found.\<close>

lemma task_part_1:
  "find_in ''mm'' task_struct_ct_1 = None"
  "find_in ''real_parent'' task_struct_ct_1 = None"
  "find_in ''pid'' task_struct_ct_1 = None"
  "find_in ''cred'' task_struct_ct_1 = None"
  "find_in ''cgroups'' task_struct_ct_1 = None"
  by (simp_all add: task_struct_ct_1_def)

lemma task_part_2:
  "find_in ''mm'' task_struct_ct_2 = Some (Ptr ''mm_struct'')"
  "find_in ''real_parent'' task_struct_ct_2 = None"
  "find_in ''pid'' task_struct_ct_2 = None"
  "find_in ''cred'' task_struct_ct_2 = None"
  "find_in ''cgroups'' task_struct_ct_2 = None"
  by (simp_all add: task_struct_ct_2_def)

lemma task_part_3:
  "find_in ''real_parent'' task_struct_ct_3 = Some (Ptr ''task_struct'')"
  "find_in ''pid'' task_struct_ct_3 = Some (pid_t_ct)"
  "find_in ''cred'' task_struct_ct_3 = Some (Ptr ''cred'')"
  "find_in ''cgroups'' task_struct_ct_3 = None"
  by (simp_all add: task_struct_ct_3_def)

lemma task_part_4:
  "find_in ''cgroups'' task_struct_ct_4 = Some (Ptr ''css_set'')"
  by (simp_all add: task_struct_ct_4_def)

lemma task_members:
  "find_member ''mm'' task_struct_ct = Some (Ptr ''mm_struct'')"
  "find_member ''real_parent'' task_struct_ct = Some (Ptr ''task_struct'')"
  "find_member ''pid'' task_struct_ct = Some (pid_t_ct)"
  "find_member ''cred'' task_struct_ct = Some (Ptr ''cred'')"
  "find_member ''cgroups'' task_struct_ct = Some (Ptr ''css_set'')"
  by (simp_all add: task_struct_ct_def find_in_append task_part_1 task_part_2 task_part_3 task_part_4)

lemma css_set_dfl_cgrp: "find_member ''dfl_cgrp'' css_set_ct = Some (Ptr ''cgroup'')"
  by (simp add: css_set_ct_def)

lemma cgroup_kn: "find_member ''kn'' cgroup_ct = Some (Ptr ''kernfs_node'')"
  by (simp add: cgroup_ct_def)

lemma kernfs_node_id: "find_member ''id'' kernfs_node_ct = Some (u64_ct)"
  by (simp add: kernfs_node_ct_def)

lemma cred_uid: "find_member ''uid'' cred_ct = Some (kuid_t_ct)"
  by (simp add: cred_ct_def)

lemma cred_gid: "find_member ''gid'' cred_ct = Some (kgid_t_ct)"
  by (simp add: cred_ct_def)

lemma mm_struct_exe_file: "find_member ''exe_file'' mm_struct_ct = Some (Ptr ''file'')"
  by (simp add: mm_struct_ct_def)

lemma file_f_path: "find_member ''f_path'' file_ct = Some (path_ct)"
  by (simp add: file_ct_def)

lemma path_dentry: "find_member ''dentry'' path_ct = Some (Ptr ''dentry'')"
  by (simp add: path_ct_def)

lemma dentry_d_name: "find_member ''d_name'' dentry_ct = Some (qstr_ct)"
  by (simp add: dentry_ct_def)

lemma kuid_t_val: "find_member ''val'' kuid_t_ct = Some (uid_t_ct)"
  by (simp add: kuid_t_ct_def)

lemma kgid_t_val: "find_member ''val'' kgid_t_ct = Some (gid_t_ct)"
  by (simp add: kgid_t_ct_def)

lemma qstr_name: "find_member ''name'' qstr_ct = Some (Ptr [])"
  by (simp add: qstr_ct_def)

lemmas object_members = task_members css_set_dfl_cgrp cgroup_kn kernfs_node_id cred_uid cred_gid mm_struct_exe_file file_f_path path_dentry dentry_d_name kuid_t_val kgid_t_val qstr_name

lemma known_types:
  "kernel_types ''task_struct'' = Some task_struct_ct"
  "kernel_types ''cred'' = Some cred_ct"
  "kernel_types ''css_set'' = Some css_set_ct"
  "kernel_types ''cgroup'' = Some cgroup_ct"
  "kernel_types ''kernfs_node'' = Some kernfs_node_ct"
  "kernel_types ''mm_struct'' = Some mm_struct_ct"
  "kernel_types ''file'' = Some file_ct"
  "kernel_types ''dentry'' = Some dentry_ct"
  by (simp_all add: kernel_types_def)

lemmas path_defs = cgroup_id_path_def ppid_path_def uid_path_def gid_path_def exe_file_path_def
  exe_dentry_path_def exe_name_path_def

lemmas width_defs = u64_ct_def k_u64_ct_def pid_t_ct_def k_kernel_pid_t_ct_def uid_t_ct_def
  k_kernel_uid32_t_ct_def gid_t_ct_def k_kernel_gid32_t_ct_def

text \<open>
  Property C38. The Go side reads what the programs wrote: for each of the five kinds of events,
  whatever the reserved memory held, casting the submitted bytes to the Go structure gives back
  every field that the program stored.
\<close>

theorem events_read_back:
  assumes "(c, g) \<in> set event_views" and "length buf = size_of c" and "map length vs = map go_size g"
  shows "go_view g (c_store c vs buf) = vs"
proof -
  have "c_layout c = go_layout g" using assms(1)
    by (auto simp: event_views_def http_view memory_view fs_view app_view security_view)
  moreover have "fst (c_layout c) = size_of c" using assms(1)
    by (auto simp: event_views_def http_event_ct_def memory_event_ct_def fs_event_ct_def
        app_event_ct_def security_event_ct_def)
  moreover have "list_all (\<lambda>t. 0 < go_align t) g \<and> g \<noteq> []" using assms(1)
    by (auto simp: event_views_def HTTPEvent_def MemoryEvent_def FSEvent_def AppEvent_def
        SecurityEvent_def)
  ultimately show ?thesis using assms(2,3) by (intro cast_reads_back) simp_all
qed

theorem events_read_back_witness:
  "go_view MemoryEvent (c_store memory_event_ct
     [replicate 8 1, replicate 8 2, replicate 4 3, replicate 4 4, replicate 8 5, replicate 8 6,
      replicate 4 7] (replicate 48 9)) =
     [replicate 8 1, replicate 8 2, replicate 4 3, replicate 4 4, replicate 8 5, replicate 8 6,
      replicate 4 7]"
  by (rule events_read_back)
    (simp_all add: event_views_def memory_event_ct_def MemoryEvent_def layout_defs)

section \<open>Fields of contexts\<close>

text \<open>The byte offset and the type of a named field of a structure.\<close>

fun field_from :: "nat \<Rightarrow> string \<Rightarrow> member list \<Rightarrow> (nat \<times> ctype) option" where
  "field_from pos f [] = None"
| "field_from pos f (Mem x b t # ms) =
     (if x = f then Some (place pos (Mem x b t) div 8, t)
      else field_from (place pos (Mem x b t) + width (Mem x b t)) f ms)"

fun field_at :: "string \<Rightarrow> ctype \<Rightarrow> (nat \<times> ctype) option" where
  "field_at f (Struct ms) = field_from 0 f ms"
| "field_at f t = None"

lemmas context_scalars = size_t_ct_def k_kernel_size_t_ct_def k_kernel_ulong_t_ct_def u32_ct_def
  k_u32_ct_def pid_t_ct_def k_kernel_pid_t_ct_def

lemma trace_entry_layout: "size_of trace_entry_ct = 8" "align_of trace_entry_ct = 4"
  by code_simp+

lemma sys_enter_fields:
  "field_at ''args'' trace_event_raw_sys_enter_ct = Some (16, Arr 6 (Scalar 8))"
  by (simp_all add: trace_event_raw_sys_enter_ct_def trace_entry_layout context_scalars round_up_def)

lemma sys_exit_fields:
  "field_at ''ret'' trace_event_raw_sys_exit_ct = Some (16, Scalar 8)"
  by (simp_all add: trace_event_raw_sys_exit_ct_def trace_entry_layout context_scalars round_up_def)

lemma sched_switch_fields:
  "field_at ''prev_pid'' trace_event_raw_sched_switch_ct = Some (24, Scalar 4)"
  "field_at ''prev_state'' trace_event_raw_sched_switch_ct = Some (32, Scalar 8)"
  "field_at ''next_pid'' trace_event_raw_sched_switch_ct = Some (56, Scalar 4)"
  by (simp_all add: trace_event_raw_sched_switch_ct_def trace_entry_layout context_scalars round_up_def)

lemma sched_wakeup_template_fields:
  "field_at ''pid'' trace_event_raw_sched_wakeup_template_ct = Some (24, Scalar 4)"
  by (simp_all add: trace_event_raw_sched_wakeup_template_ct_def trace_entry_layout context_scalars round_up_def)

lemma sched_process_template_fields:
  "field_at ''pid'' trace_event_raw_sched_process_template_ct = Some (24, Scalar 4)"
  by (simp_all add: trace_event_raw_sched_process_template_ct_def trace_entry_layout context_scalars round_up_def)

lemma kmalloc_fields:
  "field_at ''ptr'' trace_event_raw_kmalloc_ct = Some (16, Ptr [])"
  "field_at ''bytes_alloc'' trace_event_raw_kmalloc_ct = Some (32, Scalar 8)"
  by (simp_all add: trace_event_raw_kmalloc_ct_def trace_entry_layout context_scalars round_up_def)

lemma kfree_fields:
  "field_at ''ptr'' trace_event_raw_kfree_ct = Some (16, Ptr [])"
  by (simp_all add: trace_event_raw_kfree_ct_def trace_entry_layout context_scalars round_up_def)

lemma inet_sock_set_state_fields:
  "field_at ''oldstate'' trace_event_raw_inet_sock_set_state_ct = Some (16, Scalar 4)"
  "field_at ''newstate'' trace_event_raw_inet_sock_set_state_ct = Some (20, Scalar 4)"
  by (simp_all add: trace_event_raw_inet_sock_set_state_ct_def trace_entry_layout context_scalars round_up_def)

lemma pt_regs_fields:
  "field_at ''ax'' pt_regs_ct = Some (80, Scalar 8)"
  "field_at ''di'' pt_regs_ct = Some (112, Scalar 8)"
  by (simp_all add: pt_regs_ct_def trace_entry_layout context_scalars round_up_def)

text \<open>
  The fields that the programs read from their contexts exist in \<^verbatim>\<open>vmlinux.h\<close>, with
  the widths of the fields of the model's records, and at the offsets of the kernel's
  tracepoint formats and register frame.
\<close>

theorem context_fields_typed:
  "field_at ''args'' trace_event_raw_sys_enter_ct = Some (16, Arr 6 (Scalar 8)) \<and>
   field_at ''ret'' trace_event_raw_sys_exit_ct = Some (16, Scalar 8) \<and>
   field_at ''prev_pid'' trace_event_raw_sched_switch_ct = Some (24, Scalar 4) \<and>
   field_at ''prev_state'' trace_event_raw_sched_switch_ct = Some (32, Scalar 8) \<and>
   field_at ''next_pid'' trace_event_raw_sched_switch_ct = Some (56, Scalar 4) \<and>
   field_at ''pid'' trace_event_raw_sched_wakeup_template_ct = Some (24, Scalar 4) \<and>
   field_at ''pid'' trace_event_raw_sched_process_template_ct = Some (24, Scalar 4) \<and>
   field_at ''ptr'' trace_event_raw_kmalloc_ct = Some (16, Ptr []) \<and>
   field_at ''bytes_alloc'' trace_event_raw_kmalloc_ct = Some (32, Scalar 8) \<and>
   field_at ''ptr'' trace_event_raw_kfree_ct = Some (16, Ptr []) \<and>
   field_at ''oldstate'' trace_event_raw_inet_sock_set_state_ct = Some (16, Scalar 4) \<and>
   field_at ''newstate'' trace_event_raw_inet_sock_set_state_ct = Some (20, Scalar 4) \<and>
   field_at ''ax'' pt_regs_ct = Some (80, Scalar 8) \<and>
   field_at ''di'' pt_regs_ct = Some (112, Scalar 8)"
  by (simp add: sys_enter_fields sys_exit_fields sched_switch_fields sched_wakeup_template_fields sched_process_template_fields kmalloc_fields kfree_fields inet_sock_set_state_fields pt_regs_fields)


end
