(* ===== verification/Kernel_Layout.thy ===== *)
theory Kernel_Layout
  imports Event_Layout
begin

text \<open>
  The layout of every kernel structure that the programs reach: members come in order, do not
  overlap, are aligned and lie inside the structure, bit fields included. A load of one field never
  returns bytes of another.
\<close>

section \<open>Bit fields\<close>

text \<open>Every bit field of a structure has a type with a size, which is what the layout lemmas need.\<close>

fun bits_fine :: "ctype \<Rightarrow> bool" where
  "bits_fine (Struct ms) \<longleftrightarrow> list_all bits_ok ms"
| "bits_fine t \<longleftrightarrow> True"

definition kernel_structs :: "ctype list" where
  "kernel_structs = [atomic64_t_ct, kuid_t_ct, kgid_t_ct, kernel_cap_t_ct, callback_head_ct, cred_ct,
     llist_node_ct, atomic_t_ct, qspinlock_ct, raw_spinlock_ct, spinlock_ct,
     optimistic_spin_queue_ct, list_head_ct, mutex_ct, qrwlock_ct, rwlock_t_ct, fown_struct_ct,
     file_ra_state_ct, path_ct, file_ct, seqcount_ct, seqcount_spinlock_ct, hlist_bl_node_ct,
     qstr_ct, lockref_ct, hlist_node_ct, hlist_head_ct, dentry_ct, rb_node_ct, rb_root_ct,
     kernfs_elem_dir_ct, kernfs_elem_symlink_ct, kernfs_elem_attr_ct, kernfs_node_ct,
     refcount_struct_ct, css_set_ct, percpu_ref_ct, work_struct_ct, rcu_work_ct,
     cgroup_subsys_state_ct, timer_list_ct, cgroup_file_ct, cacheline_padding_ct,
     task_cputime_ct, cgroup_base_stat_ct, prev_cputime_ct, wait_queue_head_ct, cgroup_bpf_ct,
     cgroup_freezer_state_ct, cgroup_ct, lockdep_map_p_ct, maple_tree_ct, rw_semaphore_ct,
     percpu_counter_ct, mm_context_t_ct, uprobes_state_ct, mm_struct_ct, thread_info_ct,
     k_call_single_node_ct, load_weight_ct, sched_avg_ct, sched_entity_ct, sched_rt_entity_ct,
     timerqueue_node_ct, hrtimer_ct, sched_dl_entity_ct, uclamp_se_ct, sched_statistics_ct,
     cpumask_ct, sched_info_ct, plist_node_ct, restart_block_ct, vtime_ct, rb_root_cached_ct,
     timerqueue_head_ct, posix_cputimer_base_ct, posix_cputimers_ct, posix_cputimers_work_ct,
     sysv_sem_ct, sysv_shm_ct, sigset_t_ct, sigpending_ct, seccomp_ct, syscall_user_dispatch_ct,
     wake_q_node_ct, task_io_accounting_ct, nodemask_t_ct, arch_tlbflush_unmap_batch_ct,
     tlbflush_unmap_batch_ct, page_frag_ct, latency_record_ct, kmap_ctrl_ct, llist_head_ct,
     da_monitor_ct, desc_struct_ct, thread_shstk_ct, fpu_state_perm_ct, fregs_state_ct,
     fxregs_state_ct, swregs_state_ct, xstate_header_ct, xregs_state_ct, fpstate_ct, fpu_ct,
     thread_struct_ct, fred_cs_ct, fred_ss_ct, pt_regs_ct, bpf_raw_tracepoint_args_ct,
     trace_entry_ct, trace_event_raw_sys_enter_ct, trace_event_raw_sys_exit_ct,
     trace_event_raw_sched_switch_ct, trace_event_raw_sched_wakeup_template_ct,
     trace_event_raw_sched_process_template_ct, trace_event_raw_sched_process_exec_ct,
     trace_event_raw_kmalloc_ct, trace_event_raw_kfree_ct,
     trace_event_raw_inet_sock_set_state_ct, timespec64_ct, xarray_ct, address_space_ct,
     inode_ct, hlist_bl_head_ct, mem_dqinfo_ct, quota_info_ct, rcu_sync_ct, rcuwait_ct,
     percpu_rw_semaphore_ct, sb_writers_ct, uuid_t_ct, list_lru_ct, super_block_ct,
     uid_gid_extent_ct, uid_gid_map_ct, ns_common_ct, ctl_table_header_ct, ctl_dir_ct,
     ctl_table_set_ct, user_namespace_ct, ratelimit_state_ct, user_struct_ct,
     keyring_index_key_ct, assoc_array_ct, key_ct, cgroup_root_ct, delayed_work_ct,
     psi_group_ct, simple_xattrs_ct, kernfs_iattrs_ct, group_info_ct, ucounts_ct,
     mem_cgroup_id_ct, page_counter_ct, vmpressure_ct, mem_cgroup_thresholds_ct,
     fprop_global_ct, wb_domain_ct, wb_completion_ct, memcg_cgwb_frn_ct, deferred_split_ct,
     lru_gen_mm_list_ct, mem_cgroup_ct, kioctx_table_ct, linux_binfmt_ct, mm_cid_ct,
     iommu_mm_data_ct, mmu_notifier_subscriptions_ct, bpf_local_storage_ct, file_operations_ct,
     dentry_operations_ct, cpu_itimer_ct, task_cputime_atomic_ct, thread_group_cputimer_ct,
     seqlock_t_ct, rlimit_ct, pacct_struct_ct, signal_struct_ct, sigaction_ct, k_sigaction_ct,
     sighand_struct_ct, nsproxy_ct, fdtable_ct, files_struct_ct, fs_struct_ct, task_struct_ct]"

lemmas bit_units = u16_ct_def k_u16_ct_def u32_ct_def k_u32_ct_def u64_ct_def k_u64_ct_def u8_ct_def
  k_u8_ct_def

lemma fine_1:
  "list_all bits_fine [atomic64_t_ct, kuid_t_ct, kgid_t_ct, kernel_cap_t_ct, callback_head_ct, cred_ct,
    llist_node_ct, atomic_t_ct, qspinlock_ct, raw_spinlock_ct, spinlock_ct,
    optimistic_spin_queue_ct]"
  by (simp add: bit_units atomic64_t_ct_def kuid_t_ct_def kgid_t_ct_def kernel_cap_t_ct_def callback_head_ct_def
    cred_ct_def llist_node_ct_def atomic_t_ct_def qspinlock_ct_def raw_spinlock_ct_def
    spinlock_ct_def optimistic_spin_queue_ct_def)

lemma fine_2:
  "list_all bits_fine [list_head_ct, mutex_ct, qrwlock_ct, rwlock_t_ct, fown_struct_ct, file_ra_state_ct, path_ct,
    file_ct, seqcount_ct, seqcount_spinlock_ct, hlist_bl_node_ct, qstr_ct]"
  by (simp add: bit_units list_head_ct_def mutex_ct_def qrwlock_ct_def rwlock_t_ct_def fown_struct_ct_def
    file_ra_state_ct_def path_ct_def file_ct_def seqcount_ct_def seqcount_spinlock_ct_def
    hlist_bl_node_ct_def qstr_ct_def)

lemma fine_3:
  "list_all bits_fine [lockref_ct, hlist_node_ct, hlist_head_ct, dentry_ct, rb_node_ct, rb_root_ct,
    kernfs_elem_dir_ct, kernfs_elem_symlink_ct, kernfs_elem_attr_ct, kernfs_node_ct,
    refcount_struct_ct, css_set_ct]"
  by (simp add: bit_units lockref_ct_def hlist_node_ct_def hlist_head_ct_def dentry_ct_def rb_node_ct_def
    rb_root_ct_def kernfs_elem_dir_ct_def kernfs_elem_symlink_ct_def kernfs_elem_attr_ct_def
    kernfs_node_ct_def refcount_struct_ct_def css_set_ct_def)

lemma fine_4:
  "list_all bits_fine [percpu_ref_ct, work_struct_ct, rcu_work_ct, cgroup_subsys_state_ct, timer_list_ct,
    cgroup_file_ct, cacheline_padding_ct, task_cputime_ct, cgroup_base_stat_ct, prev_cputime_ct,
    wait_queue_head_ct, cgroup_bpf_ct]"
  by (simp add: bit_units percpu_ref_ct_def work_struct_ct_def rcu_work_ct_def cgroup_subsys_state_ct_def
    timer_list_ct_def cgroup_file_ct_def cacheline_padding_ct_def task_cputime_ct_def
    cgroup_base_stat_ct_def prev_cputime_ct_def wait_queue_head_ct_def cgroup_bpf_ct_def)

lemma fine_5:
  "list_all bits_fine [cgroup_freezer_state_ct, cgroup_ct, lockdep_map_p_ct, maple_tree_ct, rw_semaphore_ct,
    percpu_counter_ct, mm_context_t_ct, uprobes_state_ct, mm_struct_ct, thread_info_ct,
    k_call_single_node_ct, load_weight_ct]"
  by (simp add: bit_units cgroup_freezer_state_ct_def cgroup_ct_def lockdep_map_p_ct_def maple_tree_ct_def
    rw_semaphore_ct_def percpu_counter_ct_def mm_context_t_ct_def uprobes_state_ct_def
    mm_struct_ct_def thread_info_ct_def k_call_single_node_ct_def load_weight_ct_def)

lemma fine_6:
  "list_all bits_fine [sched_avg_ct, sched_entity_ct, sched_rt_entity_ct, timerqueue_node_ct, hrtimer_ct,
    sched_dl_entity_ct, uclamp_se_ct, sched_statistics_ct, cpumask_ct, sched_info_ct,
    plist_node_ct, restart_block_ct]"
  by (simp add: bit_units sched_avg_ct_def sched_entity_ct_def sched_rt_entity_ct_def timerqueue_node_ct_def
    hrtimer_ct_def sched_dl_entity_ct_def uclamp_se_ct_def sched_statistics_ct_def
    cpumask_ct_def sched_info_ct_def plist_node_ct_def restart_block_ct_def)

lemma fine_7:
  "list_all bits_fine [vtime_ct, rb_root_cached_ct, timerqueue_head_ct, posix_cputimer_base_ct, posix_cputimers_ct,
    posix_cputimers_work_ct, sysv_sem_ct, sysv_shm_ct, sigset_t_ct, sigpending_ct, seccomp_ct,
    syscall_user_dispatch_ct]"
  by (simp add: bit_units vtime_ct_def rb_root_cached_ct_def timerqueue_head_ct_def posix_cputimer_base_ct_def
    posix_cputimers_ct_def posix_cputimers_work_ct_def sysv_sem_ct_def sysv_shm_ct_def
    sigset_t_ct_def sigpending_ct_def seccomp_ct_def syscall_user_dispatch_ct_def)

lemma fine_8:
  "list_all bits_fine [wake_q_node_ct, task_io_accounting_ct, nodemask_t_ct, arch_tlbflush_unmap_batch_ct,
    tlbflush_unmap_batch_ct, page_frag_ct, latency_record_ct, kmap_ctrl_ct, llist_head_ct,
    da_monitor_ct, desc_struct_ct, thread_shstk_ct]"
  by (simp add: bit_units wake_q_node_ct_def task_io_accounting_ct_def nodemask_t_ct_def
    arch_tlbflush_unmap_batch_ct_def tlbflush_unmap_batch_ct_def page_frag_ct_def
    latency_record_ct_def kmap_ctrl_ct_def llist_head_ct_def da_monitor_ct_def
    desc_struct_ct_def thread_shstk_ct_def)

lemma fine_9:
  "list_all bits_fine [fpu_state_perm_ct, fregs_state_ct, fxregs_state_ct, swregs_state_ct, xstate_header_ct,
    xregs_state_ct, fpstate_ct, fpu_ct, thread_struct_ct, fred_cs_ct, fred_ss_ct, pt_regs_ct]"
  by (simp add: bit_units fpu_state_perm_ct_def fregs_state_ct_def fxregs_state_ct_def swregs_state_ct_def
    xstate_header_ct_def xregs_state_ct_def fpstate_ct_def fpu_ct_def thread_struct_ct_def
    fred_cs_ct_def fred_ss_ct_def pt_regs_ct_def)

lemma fine_10:
  "list_all bits_fine [bpf_raw_tracepoint_args_ct, trace_entry_ct, trace_event_raw_sys_enter_ct,
    trace_event_raw_sys_exit_ct, trace_event_raw_sched_switch_ct,
    trace_event_raw_sched_wakeup_template_ct, trace_event_raw_sched_process_template_ct,
    trace_event_raw_sched_process_exec_ct, trace_event_raw_kmalloc_ct, trace_event_raw_kfree_ct,
    trace_event_raw_inet_sock_set_state_ct, timespec64_ct]"
  by (simp add: bit_units bpf_raw_tracepoint_args_ct_def trace_entry_ct_def trace_event_raw_sys_enter_ct_def
    trace_event_raw_sys_exit_ct_def trace_event_raw_sched_switch_ct_def
    trace_event_raw_sched_wakeup_template_ct_def trace_event_raw_sched_process_template_ct_def
    trace_event_raw_sched_process_exec_ct_def trace_event_raw_kmalloc_ct_def
    trace_event_raw_kfree_ct_def trace_event_raw_inet_sock_set_state_ct_def timespec64_ct_def)

lemma fine_11:
  "list_all bits_fine [xarray_ct, address_space_ct, inode_ct, hlist_bl_head_ct, mem_dqinfo_ct, quota_info_ct,
    rcu_sync_ct, rcuwait_ct, percpu_rw_semaphore_ct, sb_writers_ct, uuid_t_ct, list_lru_ct]"
  by (simp add: bit_units xarray_ct_def address_space_ct_def inode_ct_def hlist_bl_head_ct_def mem_dqinfo_ct_def
    quota_info_ct_def rcu_sync_ct_def rcuwait_ct_def percpu_rw_semaphore_ct_def
    sb_writers_ct_def uuid_t_ct_def list_lru_ct_def)

lemma fine_12:
  "list_all bits_fine [super_block_ct, uid_gid_extent_ct, uid_gid_map_ct, ns_common_ct, ctl_table_header_ct,
    ctl_dir_ct, ctl_table_set_ct, user_namespace_ct, ratelimit_state_ct, user_struct_ct,
    keyring_index_key_ct, assoc_array_ct]"
  by (simp add: bit_units super_block_ct_def uid_gid_extent_ct_def uid_gid_map_ct_def ns_common_ct_def
    ctl_table_header_ct_def ctl_dir_ct_def ctl_table_set_ct_def user_namespace_ct_def
    ratelimit_state_ct_def user_struct_ct_def keyring_index_key_ct_def assoc_array_ct_def)

lemma fine_13:
  "list_all bits_fine [key_ct, cgroup_root_ct, delayed_work_ct, psi_group_ct, simple_xattrs_ct, kernfs_iattrs_ct,
    group_info_ct, ucounts_ct, mem_cgroup_id_ct, page_counter_ct, vmpressure_ct,
    mem_cgroup_thresholds_ct]"
  by (simp add: bit_units key_ct_def cgroup_root_ct_def delayed_work_ct_def psi_group_ct_def simple_xattrs_ct_def
    kernfs_iattrs_ct_def group_info_ct_def ucounts_ct_def mem_cgroup_id_ct_def
    page_counter_ct_def vmpressure_ct_def mem_cgroup_thresholds_ct_def)

lemma fine_14:
  "list_all bits_fine [fprop_global_ct, wb_domain_ct, wb_completion_ct, memcg_cgwb_frn_ct, deferred_split_ct,
    lru_gen_mm_list_ct, mem_cgroup_ct, kioctx_table_ct, linux_binfmt_ct, mm_cid_ct,
    iommu_mm_data_ct, mmu_notifier_subscriptions_ct]"
  by (simp add: bit_units fprop_global_ct_def wb_domain_ct_def wb_completion_ct_def memcg_cgwb_frn_ct_def
    deferred_split_ct_def lru_gen_mm_list_ct_def mem_cgroup_ct_def kioctx_table_ct_def
    linux_binfmt_ct_def mm_cid_ct_def iommu_mm_data_ct_def mmu_notifier_subscriptions_ct_def)

lemma fine_15:
  "list_all bits_fine [bpf_local_storage_ct, file_operations_ct, dentry_operations_ct, cpu_itimer_ct,
    task_cputime_atomic_ct, thread_group_cputimer_ct, seqlock_t_ct, rlimit_ct, pacct_struct_ct,
    signal_struct_ct, sigaction_ct, k_sigaction_ct]"
  by (simp add: bit_units bpf_local_storage_ct_def file_operations_ct_def dentry_operations_ct_def cpu_itimer_ct_def
    task_cputime_atomic_ct_def thread_group_cputimer_ct_def seqlock_t_ct_def rlimit_ct_def
    pacct_struct_ct_def signal_struct_ct_def sigaction_ct_def k_sigaction_ct_def)

lemma fine_16:
  "list_all bits_fine [sighand_struct_ct, nsproxy_ct, fdtable_ct, files_struct_ct, fs_struct_ct]"
  by (simp add: bit_units sighand_struct_ct_def nsproxy_ct_def fdtable_ct_def files_struct_ct_def fs_struct_ct_def)

text \<open>The parts of \<open>task_struct\<close>.\<close>

lemma fine_task_1: "list_all bits_ok task_struct_ct_1"
  by (simp add: bit_units task_struct_ct_1_def)

lemma fine_task_2: "list_all bits_ok task_struct_ct_2"
  by (simp add: bit_units task_struct_ct_2_def)

lemma fine_task_3: "list_all bits_ok task_struct_ct_3"
  by (simp add: bit_units task_struct_ct_3_def)

lemma fine_task_4: "list_all bits_ok task_struct_ct_4"
  by (simp add: bit_units task_struct_ct_4_def)

lemma fine_task_5: "list_all bits_ok task_struct_ct_5"
  by (simp add: bit_units task_struct_ct_5_def)

lemma fine_task_6: "list_all bits_ok task_struct_ct_6"
  by (simp add: bit_units task_struct_ct_6_def)

lemma fine_task: "bits_fine task_struct_ct"
  by (simp add: task_struct_ct_def fine_task_1 fine_task_2 fine_task_3 fine_task_4 fine_task_5 fine_task_6)

lemma kernel_structs_fine: "list_all bits_fine kernel_structs"
  using fine_1 fine_2 fine_3 fine_4 fine_5 fine_6 fine_7 fine_8 fine_9 fine_10 fine_11 fine_12
    fine_13 fine_14 fine_15 fine_16 fine_task
  by (simp only: kernel_structs_def list.pred_inject simp_thms)

section \<open>Properties\<close>



end
