(* ===== verification/Bpf_Map.thy ===== *)
theory Bpf_Map
  imports Bpf_Prelude
begin

text \<open>
  The run-time library of the eBPF dialect, part one: maps. A \<open>BPF_MAP_TYPE_HASH\<close> map is the
  association list of its entries and its \<open>max_entries\<close>; the operations are the helper calls
  the programs make, with the return codes that bpf(2) documents. A lookup returns a pointer into
  the entry; storing through it is \<open>map_modify\<close>, and the null pointer is \<open>None\<close>.

  The locale \<open>bpf_hash\<close> is the contract the programs rely on: what a lookup finds after each
  operation, which keys exist, and when an insertion is refused. The lemmas about the two idioms
  of the programs (look up or create, then update in place) are proved from the contract only;
  the interpretation \<open>hash_map\<close> discharges it for the model.
\<close>

section \<open>The map model\<close>

record ('k, 'v) bpf_map =
  max_entries :: nat
  elems :: "('k \<times> 'v) list"

definition BPF_ANY :: u64 where "BPF_ANY = 0"
definition BPF_NOEXIST :: u64 where "BPF_NOEXIST = 1"
definition BPF_EXIST :: u64 where "BPF_EXIST = 2"

definition EINVAL :: int where "EINVAL = 22"
definition ENOENT :: int where "ENOENT = 2"
definition EEXIST :: int where "EEXIST = 17"
definition E2BIG :: int where "E2BIG = 7"

definition new_map :: "nat \<Rightarrow> ('k, 'v) bpf_map" where
  "new_map n = \<lparr>max_entries = n, elems = []\<rparr>"

definition map_lookup :: "('k, 'v) bpf_map \<Rightarrow> 'k \<Rightarrow> 'v option" where
  "map_lookup m k = map_of (elems m) k"

definition map_room :: "('k, 'v) bpf_map \<Rightarrow> bool" where
  "map_room m \<longleftrightarrow> length (elems m) < max_entries m"

definition map_update_elem ::
  "('k, 'v) bpf_map \<Rightarrow> 'k \<Rightarrow> 'v \<Rightarrow> u64 \<Rightarrow> int \<times> ('k, 'v) bpf_map" where
  "map_update_elem m k v flags =
     (if flags > BPF_EXIST then (- EINVAL, m)
      else case map_lookup m k of
        Some _ \<Rightarrow>
          if flags = BPF_NOEXIST then (- EEXIST, m)
          else (0, m\<lparr>elems := AList.update k v (elems m)\<rparr>)
      | None \<Rightarrow>
          if flags = BPF_EXIST then (- ENOENT, m)
          else if map_room m then (0, m\<lparr>elems := AList.update k v (elems m)\<rparr>)
          else (- E2BIG, m))"

definition map_delete_elem :: "('k, 'v) bpf_map \<Rightarrow> 'k \<Rightarrow> int \<times> ('k, 'v) bpf_map" where
  "map_delete_elem m k =
     (case map_lookup m k of
        None \<Rightarrow> (- ENOENT, m)
      | Some _ \<Rightarrow> (0, m\<lparr>elems := AList.delete k (elems m)\<rparr>))"

text \<open>Most programs ignore the return codes.\<close>

definition map_put :: "('k, 'v) bpf_map \<Rightarrow> 'k \<Rightarrow> 'v \<Rightarrow> ('k, 'v) bpf_map" where
  "map_put m k v = snd (map_update_elem m k v BPF_ANY)"

definition map_put_new :: "('k, 'v) bpf_map \<Rightarrow> 'k \<Rightarrow> 'v \<Rightarrow> ('k, 'v) bpf_map" where
  "map_put_new m k v = snd (map_update_elem m k v BPF_NOEXIST)"

definition map_delete :: "('k, 'v) bpf_map \<Rightarrow> 'k \<Rightarrow> ('k, 'v) bpf_map" where
  "map_delete m k = snd (map_delete_elem m k)"

text \<open>A store through the pointer that a lookup of \<open>k\<close> returned.\<close>

definition map_modify :: "('k, 'v) bpf_map \<Rightarrow> 'k \<Rightarrow> ('v \<Rightarrow> 'v) \<Rightarrow> ('k, 'v) bpf_map" where
  "map_modify m k f =
     (case map_lookup m k of
        None \<Rightarrow> m
      | Some v \<Rightarrow> m\<lparr>elems := AList.update k (f v) (elems m)\<rparr>)"

text \<open>
  The idiom \<open>p = lookup(k); if (!p) { update(k, init, BPF_ANY); p = lookup(k); }\<close> as an
  operation on the map; \<open>p\<close> is then \<open>map_lookup\<close> on the result.
\<close>

definition lookup_or_init :: "('k, 'v) bpf_map \<Rightarrow> 'k \<Rightarrow> 'v \<Rightarrow> ('k, 'v) bpf_map" where
  "lookup_or_init m k init =
     (case map_lookup m k of None \<Rightarrow> map_put m k init | Some _ \<Rightarrow> m)"

definition map_keys :: "('k, 'v) bpf_map \<Rightarrow> 'k set" where
  "map_keys m = fst ` set (elems m)"

definition map_wf :: "('k, 'v) bpf_map \<Rightarrow> bool" where
  "map_wf m \<longleftrightarrow> distinct (map fst (elems m)) \<and> length (elems m) \<le> max_entries m"

section \<open>The contract\<close>

locale bpf_hash =
  fixes lookup :: "'m \<Rightarrow> 'k \<Rightarrow> 'v option"
    and put :: "'m \<Rightarrow> 'k \<Rightarrow> 'v \<Rightarrow> 'm"
    and del :: "'m \<Rightarrow> 'k \<Rightarrow> 'm"
    and modify :: "'m \<Rightarrow> 'k \<Rightarrow> ('v \<Rightarrow> 'v) \<Rightarrow> 'm"
    and room :: "'m \<Rightarrow> bool"
    and keys :: "'m \<Rightarrow> 'k set"
    and capacity :: "'m \<Rightarrow> nat"
    and wf :: "'m \<Rightarrow> bool"
  assumes lookup_put:
      "lookup (put m k v) k' =
         (if k' = k \<and> (lookup m k \<noteq> None \<or> room m) then Some v else lookup m k')"
    and lookup_del: "lookup (del m k) k' = (if k' = k then None else lookup m k')"
    and lookup_modify: "lookup (modify m k f) k' = (if k' = k then map_option f (lookup m k') else lookup m k')"
    and keys_lookup: "k \<in> keys m \<longleftrightarrow> lookup m k \<noteq> None"
    and room_card: "wf m \<Longrightarrow> room m \<longleftrightarrow> card (keys m) < capacity m"
    and finite_keys: "finite (keys m)"
    and capacity_put: "capacity (put m k v) = capacity m"
    and capacity_del: "capacity (del m k) = capacity m"
    and capacity_modify: "capacity (modify m k f) = capacity m"
    and wf_put: "wf m \<Longrightarrow> wf (put m k v)"
    and wf_del: "wf m \<Longrightarrow> wf (del m k)"
    and wf_modify: "wf m \<Longrightarrow> wf (modify m k f)"
begin

lemma lookup_put_room: "lookup m k \<noteq> None \<or> room m \<Longrightarrow> lookup (put m k v) k = Some v"
  by (simp add: lookup_put)

lemma keys_put_subset: "keys (put m k v) \<subseteq> insert k (keys m)"
  by (auto simp: keys_lookup lookup_put split: if_splits)

lemma keys_modify: "keys (modify m k f) = keys m"
  by (auto simp: keys_lookup lookup_modify split: if_splits)

lemma keys_del: "keys (del m k) = keys m - {k}"
  by (auto simp: keys_lookup lookup_del split: if_splits)

text \<open>A map large enough for the keys in use never refuses one of them.\<close>

lemma room_within:
  assumes "wf m" and "finite K" and "keys m \<subseteq> K" and "card K \<le> capacity m" and "k \<in> K"
  shows "lookup m k \<noteq> None \<or> room m"
proof (cases "lookup m k = None")
  case True
  then have "keys m \<subset> K"
    using assms(3,5) by (auto simp: keys_lookup)
  then have "card (keys m) < card K"
    using assms(2) by (simp add: psubset_card_mono)
  then show ?thesis
    using assms(1,4) by (simp add: room_card)
qed simp

end

text \<open>Maps whose keys are drawn from a set that fits: every insertion succeeds.\<close>

definition fits :: "'k set \<Rightarrow> ('k, 'v) bpf_map \<Rightarrow> bool" where
  "fits K m \<longleftrightarrow> map_wf m \<and> finite K \<and> map_keys m \<subseteq> K \<and> card K \<le> max_entries m"

section \<open>The model meets the contract\<close>

lemma flag_values [simp]:
  "BPF_ANY = 0" "BPF_NOEXIST = 1" "BPF_EXIST = 2"
  by (simp_all add: BPF_ANY_def BPF_NOEXIST_def BPF_EXIST_def)

lemma max_entries_ops [simp]:
  "max_entries (map_put m k v) = max_entries m"
  "max_entries (map_put_new m k v) = max_entries m"
  "max_entries (map_delete m k) = max_entries m"
  "max_entries (map_modify m k f) = max_entries m"
  "max_entries (lookup_or_init m k v) = max_entries m"
  "max_entries (new_map n) = n"
  by (auto simp: map_put_def map_put_new_def map_update_elem_def map_delete_def
      map_delete_elem_def map_modify_def lookup_or_init_def new_map_def split: option.splits)

lemma lookup_new [simp]: "map_lookup (new_map n) k = None"
  by (simp add: map_lookup_def new_map_def)

lemma lookup_map_put [map_simps]:
  "map_lookup (map_put m k v) k' =
     (if k' = k \<and> (map_lookup m k \<noteq> None \<or> map_room m) then Some v else map_lookup m k')"
  by (auto simp: map_put_def map_update_elem_def map_lookup_def update_conv' split: option.splits)

lemma lookup_map_put_new [map_simps]:
  "map_lookup (map_put_new m k v) k' =
     (if k' = k \<and> map_lookup m k = None \<and> map_room m then Some v else map_lookup m k')"
  by (auto simp: map_put_new_def map_update_elem_def map_lookup_def update_conv' split: option.splits)

lemma lookup_map_delete [map_simps]:
  "map_lookup (map_delete m k) k' = (if k' = k then None else map_lookup m k')"
  by (auto simp: map_delete_def map_delete_elem_def map_lookup_def delete_conv' split: option.splits)

lemma lookup_map_modify [map_simps]:
  "map_lookup (map_modify m k f) k' =
     (if k' = k then map_option f (map_lookup m k') else map_lookup m k')"
  by (auto simp: map_modify_def map_lookup_def update_conv' split: option.splits)

lemma lookup_lookup_or_init [map_simps]:
  "map_lookup (lookup_or_init m k v) k' =
     (if k' = k \<and> map_lookup m k = None \<and> map_room m then Some v else map_lookup m k')"
  by (auto simp: lookup_or_init_def map_simps split: option.splits)

lemma keys_map_lookup: "k \<in> map_keys m \<longleftrightarrow> map_lookup m k \<noteq> None"
  by (auto simp: map_keys_def map_lookup_def map_of_eq_None_iff)

lemma finite_map_keys: "finite (map_keys m)"
  by (simp add: map_keys_def)

lemma card_map_keys: "map_wf m \<Longrightarrow> card (map_keys m) = length (elems m)"
  by (metis distinct_card length_map list.set_map map_keys_def map_wf_def)

lemma length_update: 
  "distinct (map fst xs) \<Longrightarrow>
     length (AList.update k v xs) = (if map_of xs k = None then Suc (length xs) else length xs)"
  by (induction xs) auto

lemma length_update_ge: "length xs \<le> length (AList.update k v xs)"
  by (induction xs) auto

text \<open>A full map stays full under insertions and in-place updates.\<close>

lemma full_put: "\<not> map_room m \<Longrightarrow> \<not> map_room (map_put m k v)"
  using length_update_ge [of "elems m" k v]
  by (auto simp: map_room_def map_put_def map_update_elem_def split: option.splits)

lemma map_wf_put: "map_wf m \<Longrightarrow> map_wf (map_put m k v)"
  by (auto simp: map_wf_def map_put_def map_update_elem_def map_lookup_def map_room_def
      length_update distinct_update split: option.splits)

lemma map_wf_put_new: "map_wf m \<Longrightarrow> map_wf (map_put_new m k v)"
  by (auto simp: map_wf_def map_put_new_def map_update_elem_def map_lookup_def map_room_def
      length_update distinct_update split: option.splits)

lemma map_wf_delete: "map_wf m \<Longrightarrow> map_wf (map_delete m k)"
  using le_trans [OF length_delete_le]
  by (auto simp: map_wf_def map_delete_def map_delete_elem_def distinct_delete split: option.splits)

lemma map_wf_modify: "map_wf m \<Longrightarrow> map_wf (map_modify m k f)"
  by (auto simp: map_wf_def map_modify_def map_lookup_def length_update distinct_update
      split: option.splits)

lemma map_wf_lookup_or_init: "map_wf m \<Longrightarrow> map_wf (lookup_or_init m k v)"
  by (auto simp: lookup_or_init_def map_wf_put split: option.splits)

lemma map_wf_new [simp]: "map_wf (new_map n)"
  by (simp add: map_wf_def new_map_def)

lemmas map_wf_ops = map_wf_put map_wf_put_new map_wf_delete map_wf_modify map_wf_lookup_or_init

interpretation hash_map: bpf_hash map_lookup map_put map_delete map_modify map_room map_keys
  max_entries map_wf
proof (unfold_locales, goal_cases)
  case (5 m)
  then show ?case by (simp add: card_map_keys map_room_def)
qed (auto simp: map_simps keys_map_lookup map_wf_ops finite_map_keys)

lemma keys_new [simp]: "map_keys (new_map n) = {}"
  by (simp add: map_keys_def new_map_def)

lemma keys_lookup_or_init: "map_keys (lookup_or_init m k v) \<subseteq> insert k (map_keys m)"
  using hash_map.keys_put_subset by (fastforce simp: lookup_or_init_def split: option.splits)

lemma fits_new: "finite K \<Longrightarrow> card K \<le> n \<Longrightarrow> fits K (new_map n)"
  by (simp add: fits_def)

lemma fits_room: "fits K m \<Longrightarrow> k \<in> K \<Longrightarrow> map_lookup m k \<noteq> None \<or> map_room m"
  unfolding fits_def by (blast dest: hash_map.room_within)

lemma fits_put: "fits K m \<Longrightarrow> k \<in> K \<Longrightarrow> fits K (map_put m k v)"
  using hash_map.keys_put_subset [of m k v] by (auto simp: fits_def map_wf_ops)

lemma keys_put_new: "map_keys (map_put_new m k v) \<subseteq> insert k (map_keys m)"
  by (auto simp: keys_map_lookup map_simps split: if_splits)

lemma fits_put_new: "fits K m \<Longrightarrow> k \<in> K \<Longrightarrow> fits K (map_put_new m k v)"
  using keys_put_new [of m k v] by (auto simp: fits_def map_wf_ops)

lemma fits_modify: "fits K m \<Longrightarrow> fits K (map_modify m k f)"
  by (auto simp: fits_def map_wf_ops hash_map.keys_modify)

lemma fits_delete: "fits K m \<Longrightarrow> fits K (map_delete m k)"
  by (auto simp: fits_def map_wf_ops hash_map.keys_del)

lemma fits_lookup_or_init: "fits K m \<Longrightarrow> k \<in> K \<Longrightarrow> fits K (lookup_or_init m k v)"
  by (auto simp: lookup_or_init_def fits_put split: option.splits)

lemmas fits_ops = fits_put fits_put_new fits_modify fits_delete fits_lookup_or_init

section \<open>Facts about all entries\<close>

definition all_entries :: "('v \<Rightarrow> bool) \<Rightarrow> ('k, 'v) bpf_map \<Rightarrow> bool" where
  "all_entries P m \<longleftrightarrow> (\<forall>k v. map_lookup m k = Some v \<longrightarrow> P v)"

lemma all_entries_new [simp]: "all_entries P (new_map n)"
  by (simp add: all_entries_def)

lemma all_entries_put: "all_entries P m \<Longrightarrow> P v \<Longrightarrow> all_entries P (map_put m k v)"
  by (auto simp: all_entries_def map_simps split: if_splits)

lemma all_entries_delete: "all_entries P m \<Longrightarrow> all_entries P (map_delete m k)"
  by (auto simp: all_entries_def map_simps split: if_splits)

lemma all_entries_lookup: "all_entries P m \<Longrightarrow> map_lookup m k = Some v \<Longrightarrow> P v"
  by (simp add: all_entries_def)

lemma all_entries_case:
  "all_entries P m \<Longrightarrow> case map_lookup m k of None \<Rightarrow> True | Some v \<Rightarrow> P v"
  by (simp add: all_entries_def split: option.split)

lemma all_entries_modify:
  "all_entries P m \<Longrightarrow> (\<And>v. P v \<Longrightarrow> P (f v)) \<Longrightarrow> all_entries P (map_modify m k f)"
  by (auto simp: all_entries_def map_simps split: if_splits)

lemma all_entries_init: "all_entries P m \<Longrightarrow> P v \<Longrightarrow> all_entries P (lookup_or_init m k v)"
  by (auto simp: all_entries_def map_simps split: if_splits)

lemmas all_entries_ops = all_entries_put all_entries_delete all_entries_modify all_entries_init

section \<open>Sums over the entries\<close>

definition map_sum :: "('k \<Rightarrow> 'v \<Rightarrow> u64) \<Rightarrow> ('k, 'v) bpf_map \<Rightarrow> u64" where
  "map_sum g m = sum_list (map (\<lambda>(k, v). g k v) (elems m))"

lemma update_fresh: "map_of xs k = None \<Longrightarrow> AList.update k v xs = xs @ [(k, v)]"
  by (induction xs) (auto split: if_splits)

lemma sum_delete:
  "distinct (map fst xs) \<Longrightarrow> map_of xs k = Some v \<Longrightarrow>
     sum_list (map (\<lambda>(k, v). g k v :: u64) (AList.delete k xs)) =
       sum_list (map (\<lambda>(k, v). g k v) xs) - g k v"
proof (induction xs)
  case (Cons x xs)
  obtain a b where x: "x = (a, b)" by fastforce
  show ?case
  proof (cases "a = k")
    case True
    with Cons.prems x have "AList.delete k xs = xs"
      by (intro delete_id) auto
    with True x Cons.prems show ?thesis by simp
  next
    case False
    with Cons x show ?thesis by simp
  qed
qed simp

lemma map_sum_new [simp]: "map_sum g (new_map n) = 0"
  by (simp add: map_sum_def new_map_def)

lemma map_sum_put:
  "map_lookup m k = None \<Longrightarrow> map_room m \<Longrightarrow> map_sum g (map_put m k v) = map_sum g m + g k v"
  by (simp add: map_sum_def map_put_def map_update_elem_def map_lookup_def update_fresh)

lemma map_sum_delete:
  "map_wf m \<Longrightarrow> map_lookup m k = Some v \<Longrightarrow> map_sum g (map_delete m k) = map_sum g m - g k v"
  by (simp add: map_sum_def map_delete_def map_delete_elem_def map_lookup_def map_wf_def sum_delete)

section \<open>Counters kept per key\<close>

text \<open>The counter \<open>f\<close> of key \<open>k\<close>; a key without entry counts as zero.\<close>

definition map_total :: "('v \<Rightarrow> u64) \<Rightarrow> ('k, 'v) bpf_map \<Rightarrow> 'k \<Rightarrow> u64" where
  "map_total f m k = (case map_lookup m k of None \<Rightarrow> 0 | Some v \<Rightarrow> f v)"

lemma map_total_new [simp]: "map_total f (new_map n) k = 0"
  by (simp add: map_total_def)

text \<open>The programs charge an entry by creating it charged, or else by updating it in place.\<close>

lemma charge_total:
  assumes "map_lookup m k \<noteq> None \<or> map_room m" and "f new = d" and "\<And>c. f (upd c) = f c + d"
  shows "map_total f (case map_lookup m k of None \<Rightarrow> map_put m k new | Some _ \<Rightarrow> map_modify m k upd) k' =
    map_total f m k' + (if k' = k then d else 0)"
  using assms by (auto simp: map_total_def map_simps split: option.split)

lemma modify_total:
  assumes "map_lookup m k \<noteq> None" and "\<And>c. f (upd c) = f c + d"
  shows "map_total f (map_modify m k upd) k' = map_total f m k' + (if k' = k then d else 0)"
  using assms by (auto simp: map_total_def map_simps split: option.split)

lemma fits_charge:
  "fits K m \<Longrightarrow> k \<in> K \<Longrightarrow>
     fits K (case map_lookup m k of None \<Rightarrow> map_put m k new | Some _ \<Rightarrow> map_modify m k upd)"
  by (auto simp: fits_ops split: option.split)

lemma all_entries_charge_case:
  "all_entries P m \<Longrightarrow> P new \<Longrightarrow> (\<And>c. P c \<Longrightarrow> P (upd c)) \<Longrightarrow>
     all_entries P (case map_lookup m k of None \<Rightarrow> map_put m k new | Some _ \<Rightarrow> map_modify m k upd)"
  by (auto intro: all_entries_put all_entries_modify split: option.split)

end
