(* ===== verification/Bpf_Env.thy ===== *)
theory Bpf_Env
  imports Bpf_Map "HOL-Library.Numeral_Type"
begin

text \<open>
  The run-time library of the eBPF dialect, part two: what one invocation of a program sees of
  the kernel. The results of the helper calls are inputs of the model, collected in the record
  \<open>kenv\<close>: process and cgroup ids, the clock (the n-th reading of the invocation), the n-th
  ring buffer reservation (\<open>None\<close> when the buffer is full; otherwise the reserved
  memory, whose old contents are arbitrary because the helper does not clear it), the stack id,
  the task's command name, and what reads of user memory deliver. Nothing is assumed about these
  inputs unless a theorem says so.

  The context structures are the \<open>trace_event_raw_*\<close> records of
  \<^verbatim>\<open>src/watcher/internal/ebpf/bpf/headers/vmlinux.h\<close>. The kernel objects that
  \<open>BPF_CORE_READ\<close> walks are one heap per structure type, each a partial function from
  addresses; a read through a bad pointer delivers zero, as the macro's probe reads do.
\<close>

section \<open>Contexts of the hooks\<close>

record trace_entry =
  te_type :: u16
  te_flags :: u8
  te_preempt_count :: u8
  te_pid :: s32

record trace_event_raw_sys_enter =
  se_ent :: trace_entry
  se_id :: s64
  se_args :: "6 \<Rightarrow> u64"

record trace_event_raw_sys_exit =
  sx_ent :: trace_entry
  sx_id :: s64
  sx_ret :: s64

record trace_event_raw_sched_wakeup_template =
  sw_ent :: trace_entry
  sw_comm :: "u8 list"
  sw_pid :: s32
  sw_prio :: s32
  sw_target_cpu :: s32

record trace_event_raw_sched_switch =
  ss_ent :: trace_entry
  ss_prev_comm :: "u8 list"
  ss_prev_pid :: s32
  ss_prev_prio :: s32
  ss_prev_state :: s64
  ss_next_comm :: "u8 list"
  ss_next_pid :: s32
  ss_next_prio :: s32

record trace_event_raw_sched_process_template =
  sp_ent :: trace_entry
  sp_comm :: "u8 list"
  sp_pid :: s32
  sp_prio :: s32

record trace_event_raw_kmalloc =
  km_ent :: trace_entry
  km_call_site :: u64
  km_ptr :: u64
  km_bytes_req :: u64
  km_bytes_alloc :: u64
  km_gfp_flags :: u64
  km_node :: s32

record trace_event_raw_kfree =
  kf_ent :: trace_entry
  kf_call_site :: u64
  kf_ptr :: u64

record trace_event_raw_inet_sock_set_state =
  is_ent :: trace_entry
  is_skaddr :: u64
  is_oldstate :: s32
  is_newstate :: s32
  is_sport :: u16
  is_dport :: u16
  is_family :: u16
  is_protocol :: u16
  is_saddr :: "u8 list"
  is_daddr :: "u8 list"
  is_saddr_v6 :: "u8 list"
  is_daddr_v6 :: "u8 list"

text \<open>Registers at a uprobe; the unions around \<open>cs\<close> and \<open>ss\<close> are their 8 bytes.\<close>

record pt_regs =
  r15 :: u64
  r14 :: u64
  r13 :: u64
  r12 :: u64
  bp :: u64
  bx :: u64
  r11 :: u64
  r10 :: u64
  r9 :: u64
  r8 :: u64
  ax :: u64
  cx :: u64
  dx :: u64
  si :: u64
  di :: u64
  orig_ax :: u64
  ip :: u64
  cs :: u64
  flags :: u64
  sp :: u64
  ss :: u64

text \<open>The TCP states of the enumeration in \<^verbatim>\<open>vmlinux.h\<close>.\<close>

datatype tcp_state =
  TCP_ESTABLISHED | TCP_SYN_SENT | TCP_SYN_RECV | TCP_FIN_WAIT1 | TCP_FIN_WAIT2
| TCP_TIME_WAIT | TCP_CLOSE | TCP_CLOSE_WAIT | TCP_LAST_ACK | TCP_LISTEN | TCP_CLOSING
| TCP_NEW_SYN_RECV | TCP_BOUND_INACTIVE | TCP_MAX_STATES

primrec tcp_code :: "tcp_state \<Rightarrow> s32" where
  "tcp_code TCP_ESTABLISHED = 1"
| "tcp_code TCP_SYN_SENT = 2"
| "tcp_code TCP_SYN_RECV = 3"
| "tcp_code TCP_FIN_WAIT1 = 4"
| "tcp_code TCP_FIN_WAIT2 = 5"
| "tcp_code TCP_TIME_WAIT = 6"
| "tcp_code TCP_CLOSE = 7"
| "tcp_code TCP_CLOSE_WAIT = 8"
| "tcp_code TCP_LAST_ACK = 9"
| "tcp_code TCP_LISTEN = 10"
| "tcp_code TCP_CLOSING = 11"
| "tcp_code TCP_NEW_SYN_RECV = 12"
| "tcp_code TCP_BOUND_INACTIVE = 13"
| "tcp_code TCP_MAX_STATES = 14"

section \<open>Kernel objects\<close>

record task_struct =
  t_mm :: u64
  t_pid :: s32
  t_real_parent :: u64
  t_cred :: u64
  t_cgroups :: u64

record cred =
  c_uid :: u32
  c_gid :: u32

record dentry =
  d_name_name :: u64

record kheap =
  h_task :: "u64 \<Rightarrow> task_struct option"
  h_cred :: "u64 \<Rightarrow> cred option"
  h_css_dfl_cgrp :: "u64 \<Rightarrow> u64 option"
  h_cgroup_kn :: "u64 \<Rightarrow> u64 option"
  h_kernfs_id :: "u64 \<Rightarrow> u64 option"
  h_mm_exe_file :: "u64 \<Rightarrow> u64 option"
  h_file_f_path_dentry :: "u64 \<Rightarrow> u64 option"
  h_dentry :: "u64 \<Rightarrow> dentry option"
  h_str :: "u64 \<Rightarrow> u8 list option"

definition core_read :: "(u64 \<Rightarrow> 'a option) \<Rightarrow> ('a \<Rightarrow> 'b :: zero) \<Rightarrow> u64 \<Rightarrow> 'b" where
  "core_read heap field p = (case heap p of None \<Rightarrow> 0 | Some x \<Rightarrow> field x)"

section \<open>One invocation\<close>

record 'ev kenv =
  pid_tgid :: u64
  cgroup :: u64
  ktime :: "nat \<Rightarrow> u64"
  stackid :: s64
  comm :: "nat \<Rightarrow> u8 list"
  reserve :: "nat \<Rightarrow> 'ev option"
  cur_task :: u64
  kmem :: kheap
  user_mem :: "u64 \<Rightarrow> nat \<Rightarrow> u8 list option"
  user_str :: "u64 \<Rightarrow> nat \<Rightarrow> u8 list"

text \<open>
  \<open>BPF_CORE_READ(task, cgroups, dfl_cgrp, kn, id)\<close> on the current task: the helper
  \<open>get_cgroup_id\<close> that fs_tracker, app_specific and security_monitor each define.
\<close>

definition get_cgroup_id :: "'ev kenv \<Rightarrow> u64" where
  "get_cgroup_id E =
     core_read (h_kernfs_id (kmem E)) id
       (core_read (h_cgroup_kn (kmem E)) id
         (core_read (h_css_dfl_cgrp (kmem E)) id
           (core_read (h_task (kmem E)) t_cgroups (cur_task E))))"

text \<open>
  \<open>bpf_probe_read_kernel_str(dst, sizeof(dst), s)\<close>: at most \<open>sizeof(dst) - 1\<close> bytes
  and a NUL; the bytes of \<open>dst\<close> behind the NUL keep their old contents.
\<close>

definition read_str :: "u8 list \<Rightarrow> u8 list \<Rightarrow> u8 list" where
  "read_str dst s =
     (let c = take (length dst - 1) s @ [0] in c @ drop (length c) dst)"

lemma length_read_str: "dst \<noteq> [] \<Longrightarrow> length (read_str dst s) = length dst"
  by (cases dst) (auto simp: read_str_def)

lemma str_of_read_str:
  assumes "0 \<notin> set s" and "length s < length dst"
  shows "str_of (read_str dst s) = s"
proof -
  have "\<forall>c \<in> set s. c \<noteq> 0" using assms(1) by metis
  with assms(2) show ?thesis
    by (simp add: read_str_def str_of_def Let_def takeWhile_append2)
qed

text \<open>Submitting to a ring buffer appends the record; a failed reservation drops it.\<close>

definition ringbuf_emit :: "'ev option \<Rightarrow> ('ev \<Rightarrow> 'ev) \<Rightarrow> 'ev list \<Rightarrow> 'ev list" where
  "ringbuf_emit slot fill q = (case slot of None \<Rightarrow> q | Some old \<Rightarrow> q @ [fill old])"

text \<open>A concrete invocation for the examples: process 1, thread 1, cgroup 1, a clock that ticks.\<close>

definition kheap0 :: kheap where
  "kheap0 = \<lparr>h_task = (\<lambda>_. None), h_cred = (\<lambda>_. None), h_css_dfl_cgrp = (\<lambda>_. None),
     h_cgroup_kn = (\<lambda>_. None), h_kernfs_id = (\<lambda>_. None), h_mm_exe_file = (\<lambda>_. None),
     h_file_f_path_dentry = (\<lambda>_. None), h_dentry = (\<lambda>_. None), h_str = (\<lambda>_. None)\<rparr>"

definition env0 :: "'ev kenv" where
  "env0 = \<lparr>pid_tgid = 4294967297, cgroup = 1, ktime = (\<lambda>n. 1000 * of_nat (n + 1)), stackid = 3,
     comm = (\<lambda>n. replicate n 0), reserve = (\<lambda>_. None), cur_task = 0, kmem = kheap0,
     user_mem = (\<lambda>_ _. None), user_str = (\<lambda>_ n. replicate n 0)\<rparr>"

definition entry0 :: trace_entry where
  "entry0 = \<lparr>te_type = 0, te_flags = 0, te_preempt_count = 0, te_pid = 1\<rparr>"

definition regs0 :: pt_regs where
  "regs0 = \<lparr>r15 = 0, r14 = 0, r13 = 0, r12 = 0, bp = 0, bx = 0, r11 = 0, r10 = 0, r9 = 0, r8 = 0,
     ax = 0, cx = 0, dx = 0, si = 0, di = 0, orig_ax = 0, ip = 0, cs = 0, flags = 0, sp = 0, ss = 0\<rparr>"

text \<open>
  What a raw memory access of a program can do wrong. The kernel's verifier would refuse such a
  program; in the model the access is a value.
\<close>

datatype bpf_fault = NullDeref | OutOfBounds

end
