(* ===== verification/Memory_Tracker.thy ===== *)
theory Memory_Tracker
  imports Bpf_Env
begin

text \<open>
  \<^verbatim>\<open>src/watcher/internal/ebpf/bpf/memory_tracker/memory_tracker.bpf.c\<close>: allocation metrics per
  cgroup and the table of live allocations. The state holds the four hash maps and the events
  submitted to the ring buffer; a run is a list of hook invocations (\<open>mem_event\<close>). The main
  results: the metrics' internal accounting identities hold in every run, and for kernel
  allocations freed by their own cgroup the net counter is exactly the sum of the live sizes.
\<close>

section \<open>Data\<close>

record alloc_info =
  ai_size :: u64
  ai_timestamp :: u64
  ai_cgroup_id :: u64
  ai_pid :: u32
  ai_stack_id :: u32

record memory_metrics =
  alloc_count :: u64
  free_count :: u64
  bytes_allocated :: u64
  bytes_freed :: u64
  net_allocated :: u64
  small_allocs :: u64
  medium_allocs :: u64
  large_allocs :: u64
  huge_allocs :: u64
  page_faults :: u64
  major_page_faults :: u64
  last_update :: u64

record leak_candidate =
  lc_address :: u64
  lc_size :: u64
  lc_alloc_time :: u64
  lc_stack_id :: u32
  lc_pid :: u32

record gc_metrics =
  gc_count :: u64
  gc_time_ns :: u64
  bytes_collected :: u64
  last_gc_time :: u64

record memory_event =
  ev_timestamp :: u64
  ev_cgroup_id :: u64
  ev_pid :: u32
  ev_event_type :: u32
  ev_address :: u64
  ev_size :: u64
  ev_stack_id :: u32

record mem_state =
  active_allocs :: "(u64, alloc_info) bpf_map"
  memory_metrics_map :: "(u64, memory_metrics) bpf_map"
  leak_candidates :: "(u64, leak_candidate list) bpf_map"
  gc_metrics_map :: "(u64, gc_metrics) bpf_map"
  memory_events :: "memory_event list"

definition mem_init :: mem_state where
  "mem_init = \<lparr>active_allocs = new_map 16384, memory_metrics_map = new_map 16384,
     leak_candidates = new_map 16384, gc_metrics_map = new_map 16384, memory_events = []\<rparr>"

definition memory_metrics_zero :: memory_metrics where
  "memory_metrics_zero = \<lparr>alloc_count = 0, free_count = 0, bytes_allocated = 0, bytes_freed = 0,
     net_allocated = 0, small_allocs = 0, medium_allocs = 0, large_allocs = 0, huge_allocs = 0,
     page_faults = 0, major_page_faults = 0, last_update = 0\<rparr>"

definition gc_metrics_zero :: gc_metrics where
  "gc_metrics_zero = \<lparr>gc_count = 0, gc_time_ns = 0, bytes_collected = 0, last_gc_time = 0\<rparr>"

section \<open>Programs\<close>

definition update_size_histogram :: "u64 \<Rightarrow> memory_metrics \<Rightarrow> memory_metrics" where
  "update_size_histogram sz c =
     (if sz < 1024 then c\<lparr>small_allocs := small_allocs c + 1\<rparr>
      else if sz < 65536 then c\<lparr>medium_allocs := medium_allocs c + 1\<rparr>
      else if sz < 1048576 then c\<lparr>large_allocs := large_allocs c + 1\<rparr>
      else c\<lparr>huge_allocs := huge_allocs c + 1\<rparr>)"

text \<open>The block \<open>if (metrics) { ... }\<close> that \<open>trace_kmalloc\<close> and \<open>trace_malloc\<close> share.\<close>

definition charge_alloc :: "u64 \<Rightarrow> u64 \<Rightarrow> memory_metrics \<Rightarrow> memory_metrics" where
  "charge_alloc sz now c =
     (let c1 = c\<lparr>alloc_count := alloc_count c + 1,
                 bytes_allocated := bytes_allocated c + sz,
                 net_allocated := net_allocated c + sz\<rparr>
      in (update_size_histogram sz c1)\<lparr>last_update := now\<rparr>)"

text \<open>The block \<open>if (metrics) { ... }\<close> that \<open>trace_kfree\<close> and \<open>trace_free\<close> share.\<close>

definition charge_free :: "u64 \<Rightarrow> u64 \<Rightarrow> memory_metrics \<Rightarrow> memory_metrics" where
  "charge_free sz now c =
     c\<lparr>free_count := free_count c + 1, bytes_freed := bytes_freed c + sz,
       net_allocated := net_allocated c - sz, last_update := now\<rparr>"

definition trace_kmalloc ::
  "memory_event kenv \<Rightarrow> trace_event_raw_kmalloc \<Rightarrow> mem_state \<Rightarrow> mem_state" where
  "trace_kmalloc E ctx s =
     (let address = km_ptr ctx;
          sz = km_bytes_alloc ctx;
          cgroup_id = cgroup E;
          pid = pid_of (pid_tgid E)
      in if address = 0 then s
         else
           let stack_id = ucast (stackid E);
               info = \<lparr>ai_size = sz, ai_timestamp = ktime E 0, ai_cgroup_id = cgroup_id,
                       ai_pid = pid, ai_stack_id = stack_id\<rparr>;
               mm = lookup_or_init (memory_metrics_map s) cgroup_id memory_metrics_zero;
               t = (if map_lookup mm cgroup_id = None then 1 else 2)
           in s\<lparr>active_allocs := map_put (active_allocs s) address info,
                memory_metrics_map := map_modify mm cgroup_id (charge_alloc sz (ktime E 1)),
                memory_events := ringbuf_emit (reserve E 0)
                  (\<lambda>ev. ev\<lparr>ev_timestamp := ktime E t, ev_cgroup_id := cgroup_id, ev_pid := pid,
                          ev_event_type := 0, ev_address := address, ev_size := sz,
                          ev_stack_id := stack_id\<rparr>) (memory_events s)\<rparr>)"

definition trace_kfree ::
  "memory_event kenv \<Rightarrow> trace_event_raw_kfree \<Rightarrow> mem_state \<Rightarrow> mem_state" where
  "trace_kfree E ctx s =
     (let address = kf_ptr ctx;
          cgroup_id = cgroup E;
          pid = pid_of (pid_tgid E)
      in if address = 0 then s
         else case map_lookup (active_allocs s) address of
           None \<Rightarrow> s
         | Some info \<Rightarrow>
             let sz = ai_size info;
                 t = (if map_lookup (memory_metrics_map s) cgroup_id = None then 0 else 1)
             in s\<lparr>memory_metrics_map :=
                    map_modify (memory_metrics_map s) cgroup_id (charge_free sz (ktime E 0)),
                  memory_events := ringbuf_emit (reserve E 0)
                    (\<lambda>ev. ev\<lparr>ev_timestamp := ktime E t, ev_cgroup_id := cgroup_id, ev_pid := pid,
                            ev_event_type := 1, ev_address := address, ev_size := sz,
                            ev_stack_id := ai_stack_id info\<rparr>) (memory_events s),
                  active_allocs := map_delete (active_allocs s) address\<rparr>)"

text \<open>
  \<open>bpf_probe_read_user(&sz, 8, di)\<close>: the program reads 8 bytes of user memory at the address
  in the first argument register; a failed read leaves the initial zero.
\<close>

definition le_word :: "u8 list \<Rightarrow> u64" where
  "le_word bs = foldr (\<lambda>b acc. ucast b OR push_bit 8 acc) bs 0"

definition trace_malloc :: "memory_event kenv \<Rightarrow> pt_regs \<Rightarrow> mem_state \<Rightarrow> mem_state" where
  "trace_malloc E ctx s =
     (let sz = (case user_mem E (di ctx) 8 of None \<Rightarrow> 0 | Some bs \<Rightarrow> le_word bs);
          cgroup_id = cgroup E;
          mm = lookup_or_init (memory_metrics_map s) cgroup_id memory_metrics_zero
      in s\<lparr>memory_metrics_map := map_modify mm cgroup_id (charge_alloc sz (ktime E 0))\<rparr>)"

definition trace_malloc_ret :: "memory_event kenv \<Rightarrow> pt_regs \<Rightarrow> mem_state \<Rightarrow> mem_state" where
  "trace_malloc_ret E ctx s =
     (let address = ax ctx;
          cgroup_id = cgroup E;
          pid = pid_of (pid_tgid E)
      in if address = 0 then s
         else
           let info = \<lparr>ai_size = 0, ai_timestamp = ktime E 0, ai_cgroup_id = cgroup_id,
                       ai_pid = pid, ai_stack_id = ucast (stackid E)\<rparr>
           in s\<lparr>active_allocs := map_put (active_allocs s) address info\<rparr>)"

definition trace_free :: "memory_event kenv \<Rightarrow> pt_regs \<Rightarrow> mem_state \<Rightarrow> mem_state" where
  "trace_free E ctx s =
     (let address = di ctx;
          cgroup_id = cgroup E
      in if address = 0 then s
         else case map_lookup (active_allocs s) address of
           None \<Rightarrow> s
         | Some info \<Rightarrow>
             s\<lparr>memory_metrics_map :=
                 map_modify (memory_metrics_map s) cgroup_id (charge_free (ai_size info) (ktime E 0)),
               active_allocs := map_delete (active_allocs s) address\<rparr>)"

definition trace_go_gc_start :: "memory_event kenv \<Rightarrow> pt_regs \<Rightarrow> mem_state \<Rightarrow> mem_state" where
  "trace_go_gc_start E ctx s =
     (let cgroup_id = cgroup E;
          gm = lookup_or_init (gc_metrics_map s) cgroup_id gc_metrics_zero
      in s\<lparr>gc_metrics_map := map_modify gm cgroup_id
             (\<lambda>g. g\<lparr>gc_count := gc_count g + 1, last_gc_time := ktime E 0\<rparr>)\<rparr>)"

text \<open>
  \<open>check_for_leaks\<close> only computes two local values and is never called;
  \<open>periodic_leak_check\<close> does nothing.
\<close>

definition check_for_leaks :: "memory_event kenv \<Rightarrow> u64 \<times> u64" where
  "check_for_leaks E = (ktime E 0, 5 * 60 * 1000000000)"

definition periodic_leak_check :: "mem_state \<Rightarrow> mem_state" where
  "periodic_leak_check s = s"

datatype mem_hook =
  Kmalloc "memory_event kenv" trace_event_raw_kmalloc
| Kfree "memory_event kenv" trace_event_raw_kfree
| Malloc "memory_event kenv" pt_regs
| Malloc_Ret "memory_event kenv" pt_regs
| Free "memory_event kenv" pt_regs
| Go_Gc_Start "memory_event kenv" pt_regs
| Leak_Check

fun mem_step :: "mem_hook \<Rightarrow> mem_state \<Rightarrow> mem_state" where
  "mem_step (Kmalloc E ctx) s = trace_kmalloc E ctx s"
| "mem_step (Kfree E ctx) s = trace_kfree E ctx s"
| "mem_step (Malloc E ctx) s = trace_malloc E ctx s"
| "mem_step (Malloc_Ret E ctx) s = trace_malloc_ret E ctx s"
| "mem_step (Free E ctx) s = trace_free E ctx s"
| "mem_step (Go_Gc_Start E ctx) s = trace_go_gc_start E ctx s"
| "mem_step Leak_Check s = periodic_leak_check s"

section \<open>Accounting identities\<close>

definition mem_entry_ok :: "memory_metrics \<Rightarrow> bool" where
  "mem_entry_ok c \<longleftrightarrow>
     alloc_count c = small_allocs c + medium_allocs c + large_allocs c + huge_allocs c \<and>
     net_allocated c = bytes_allocated c - bytes_freed c \<and>
     page_faults c = 0 \<and> major_page_faults c = 0"

lemma mem_entry_ok_zero: "mem_entry_ok memory_metrics_zero"
  by (simp add: mem_entry_ok_def memory_metrics_zero_def)

lemma mem_entry_ok_alloc: "mem_entry_ok c \<Longrightarrow> mem_entry_ok (charge_alloc sz now c)"
  by (simp add: mem_entry_ok_def charge_alloc_def update_size_histogram_def Let_def)

lemma mem_entry_ok_free: "mem_entry_ok c \<Longrightarrow> mem_entry_ok (charge_free sz now c)"
  by (simp add: mem_entry_ok_def charge_free_def)

definition gc_entry_ok :: "gc_metrics \<Rightarrow> bool" where
  "gc_entry_ok g \<longleftrightarrow> gc_time_ns g = 0 \<and> bytes_collected g = 0"

definition mem_inv :: "mem_state \<Rightarrow> bool" where
  "mem_inv s \<longleftrightarrow>
     all_entries mem_entry_ok (memory_metrics_map s) \<and>
     all_entries gc_entry_ok (gc_metrics_map s) \<and>
     map_keys (leak_candidates s) = {}"

lemmas mem_handlers = trace_kmalloc_def trace_kfree_def trace_malloc_def trace_malloc_ret_def
  trace_free_def trace_go_gc_start_def periodic_leak_check_def

lemma mem_inv_step: "mem_inv s \<Longrightarrow> mem_inv (mem_step e s)"
  by (cases e)
    (auto simp: mem_inv_def mem_handlers Let_def mem_entry_ok_zero mem_entry_ok_alloc
      mem_entry_ok_free gc_entry_ok_def gc_metrics_zero_def
      split: option.split intro!: all_entries_modify all_entries_init)

interpretation mem_machine: event_machine mem_step "\<lambda>_. True" mem_inv
  by unfold_locales (rule mem_inv_step)

lemma mem_inv_init: "mem_inv mem_init"
  by (simp add: mem_inv_def mem_init_def)

section \<open>Live allocations and the net counter\<close>

text \<open>
  Kernel allocations whose address is fresh and finds room, and frees by the cgroup that owns
  the allocation (or of addresses the tracker never saw).
\<close>

inductive kmem_reach :: "mem_state \<Rightarrow> bool" where
  init: "kmem_reach mem_init"
| alloc: "kmem_reach s \<Longrightarrow> map_lookup (active_allocs s) (km_ptr ctx) = None \<Longrightarrow>
     map_room (active_allocs s) \<Longrightarrow>
     map_lookup (memory_metrics_map s) (cgroup E) \<noteq> None \<or> map_room (memory_metrics_map s) \<Longrightarrow>
     kmem_reach (trace_kmalloc E ctx s)"
| free: "kmem_reach s \<Longrightarrow>
     (\<And>info. map_lookup (active_allocs s) (kf_ptr ctx) = Some info \<Longrightarrow>
        ai_cgroup_id info = cgroup E) \<Longrightarrow>
     kmem_reach (trace_kfree E ctx s)"

definition net_of :: "mem_state \<Rightarrow> u64 \<Rightarrow> u64" where
  "net_of s cg = (case map_lookup (memory_metrics_map s) cg of
     None \<Rightarrow> 0 | Some c \<Rightarrow> net_allocated c)"

definition held_by :: "u64 \<Rightarrow> u64 \<Rightarrow> alloc_info \<Rightarrow> u64" where
  "held_by cg a info = (if ai_cgroup_id info = cg then ai_size info else 0)"

definition live_bytes :: "mem_state \<Rightarrow> u64 \<Rightarrow> u64" where
  "live_bytes s cg = map_sum (held_by cg) (active_allocs s)"

definition kmem_inv :: "mem_state \<Rightarrow> bool" where
  "kmem_inv s \<longleftrightarrow> map_wf (active_allocs s) \<and> (\<forall>cg. net_of s cg = live_bytes s cg) \<and>
     (\<forall>a info. map_lookup (active_allocs s) a = Some info \<longrightarrow>
        map_lookup (memory_metrics_map s) (ai_cgroup_id info) \<noteq> None)"

lemma net_charge [simp]:
  "net_allocated (charge_alloc sz now c) = net_allocated c + sz"
  "net_allocated (charge_free sz now c) = net_allocated c - sz"
  by (simp_all add: charge_alloc_def charge_free_def update_size_histogram_def Let_def)

lemma net_memory_metrics_zero [simp]: "net_allocated memory_metrics_zero = 0"
  by (simp add: memory_metrics_zero_def)

lemma net_of_kmalloc:
  assumes "map_lookup (memory_metrics_map s) (cgroup E) \<noteq> None \<or> map_room (memory_metrics_map s)"
    and "km_ptr ctx \<noteq> 0"
  shows "net_of (trace_kmalloc E ctx s) cg =
    net_of s cg + (if cg = cgroup E then km_bytes_alloc ctx else 0)"
  using assms by (auto simp: net_of_def trace_kmalloc_def Let_def map_simps split: option.splits)

lemma kmem_inv_alloc:
  assumes inv: "kmem_inv s" and fresh: "map_lookup (active_allocs s) (km_ptr ctx) = None"
    and room: "map_room (active_allocs s)"
    and mroom: "map_lookup (memory_metrics_map s) (cgroup E) \<noteq> None \<or> map_room (memory_metrics_map s)"
  shows "kmem_inv (trace_kmalloc E ctx s)"
proof (cases "km_ptr ctx = 0")
  case True
  with inv show ?thesis by (simp add: trace_kmalloc_def)
next
  case False
  have live: "live_bytes (trace_kmalloc E ctx s) cg =
      live_bytes s cg + (if cg = cgroup E then km_bytes_alloc ctx else 0)" for cg
    using False fresh room
    by (simp add: live_bytes_def trace_kmalloc_def Let_def map_sum_put held_by_def)
  have "map_lookup (memory_metrics_map (trace_kmalloc E ctx s)) (cgroup E) \<noteq> None"
    using False mroom by (auto simp: trace_kmalloc_def Let_def map_simps)
  moreover have "map_lookup (memory_metrics_map s) k \<noteq> None \<Longrightarrow>
      map_lookup (memory_metrics_map (trace_kmalloc E ctx s)) k \<noteq> None" for k
    using False by (auto simp: trace_kmalloc_def Let_def map_simps)
  ultimately show ?thesis
    using inv False fresh room net_of_kmalloc [OF mroom False] live
    by (auto simp: kmem_inv_def trace_kmalloc_def Let_def map_wf_ops lookup_map_put)
qed

lemma kmem_inv_free:
  assumes inv: "kmem_inv s"
    and own: "\<And>info. map_lookup (active_allocs s) (kf_ptr ctx) = Some info \<Longrightarrow>
      ai_cgroup_id info = cgroup E"
  shows "kmem_inv (trace_kfree E ctx s)"
proof (cases "kf_ptr ctx = 0 \<or> map_lookup (active_allocs s) (kf_ptr ctx) = None")
  case True
  with inv show ?thesis by (auto simp: trace_kfree_def Let_def)
next
  case False
  then obtain info where info: "map_lookup (active_allocs s) (kf_ptr ctx) = Some info"
    and nz: "kf_ptr ctx \<noteq> 0" by auto
  have o: "ai_cgroup_id info = cgroup E" by (rule own [OF info])
  have wf: "map_wf (active_allocs s)" using inv by (simp add: kmem_inv_def)
  have owner_known: "map_lookup (memory_metrics_map s) (cgroup E) \<noteq> None"
    using inv info o by (metis kmem_inv_def)
  have "live_bytes (trace_kfree E ctx s) cg =
      live_bytes s cg - (if cg = cgroup E then ai_size info else 0)" for cg
    using nz info o
    by (simp add: live_bytes_def trace_kfree_def Let_def map_sum_delete [OF wf info] held_by_def)
  moreover have "net_of (trace_kfree E ctx s) cg =
      net_of s cg - (if cg = cgroup E then ai_size info else 0)" for cg
    using nz info o owner_known
    by (auto simp: net_of_def trace_kfree_def Let_def map_simps split: option.split)
  moreover have "map_lookup (memory_metrics_map (trace_kfree E ctx s)) k = None \<longleftrightarrow>
      map_lookup (memory_metrics_map s) k = None" for k
    using nz info by (simp add: trace_kfree_def Let_def map_simps)
  ultimately show ?thesis
    using inv nz info by (auto simp: kmem_inv_def trace_kfree_def Let_def map_wf_ops lookup_map_delete)
qed

lemma kmem_reach_inv: "kmem_reach s \<Longrightarrow> kmem_inv s"
proof (induction rule: kmem_reach.induct)
  case init
  then show ?case by (simp add: kmem_inv_def mem_init_def net_of_def live_bytes_def)
next
  case (alloc s ctx E)
  then show ?case by (intro kmem_inv_alloc)
next
  case (free s ctx E)
  then show ?case by (intro kmem_inv_free)
qed

section \<open>Size classes\<close>

datatype size_class = Small | Medium | Large | Huge

definition class_of :: "u64 \<Rightarrow> size_class" where
  "class_of sz = (if unat sz < 1024 then Small else if unat sz < 65536 then Medium
     else if unat sz < 1048576 then Large else Huge)"

text \<open>The classes are ordered by size, and a class is an interval of sizes.\<close>

primrec class_rank :: "size_class \<Rightarrow> nat" where
  "class_rank Small = 0"
| "class_rank Medium = 1"
| "class_rank Large = 2"
| "class_rank Huge = 3"

lemma class_rank_inj: "class_rank a = class_rank b \<longleftrightarrow> a = b"
  by (cases a; cases b) simp_all

instantiation size_class :: linorder
begin

definition less_eq_size_class :: "size_class \<Rightarrow> size_class \<Rightarrow> bool" where
  "less_eq_size_class a b \<longleftrightarrow> class_rank a \<le> class_rank b"

definition less_size_class :: "size_class \<Rightarrow> size_class \<Rightarrow> bool" where
  "less_size_class a b \<longleftrightarrow> class_rank a < class_rank b"

instance
  by standard (auto simp: less_eq_size_class_def less_size_class_def class_rank_inj)

end

lemma class_of_mono: "mono class_of"
  by (rule monoI) (auto simp: class_of_def less_eq_size_class_def word_le_nat_alt)

primrec class_counter :: "size_class \<Rightarrow> memory_metrics \<Rightarrow> u64" where
  "class_counter Small c = small_allocs c"
| "class_counter Medium c = medium_allocs c"
| "class_counter Large c = large_allocs c"
| "class_counter Huge c = huge_allocs c"

text \<open>The cgroup and size that a hook charges as an allocation.\<close>

fun alloc_of :: "mem_hook \<Rightarrow> (u64 \<times> u64) option" where
  "alloc_of (Kmalloc E ctx) =
     (if km_ptr ctx = 0 then None else Some (cgroup E, km_bytes_alloc ctx))"
| "alloc_of (Malloc E ctx) =
     Some (cgroup E, case user_mem E (di ctx) 8 of None \<Rightarrow> 0 | Some bs \<Rightarrow> le_word bs)"
| "alloc_of _ = None"

definition in_class :: "u64 \<Rightarrow> size_class \<Rightarrow> mem_hook \<Rightarrow> bool" where
  "in_class cg k e \<longleftrightarrow>
     (case alloc_of e of None \<Rightarrow> False | Some (cg', sz) \<Rightarrow> cg' = cg \<and> class_of sz = k)"

definition charged_cgroup_in :: "u64 set \<Rightarrow> mem_hook \<Rightarrow> bool" where
  "charged_cgroup_in K e \<longleftrightarrow> (case alloc_of e of None \<Rightarrow> True | Some (cg, sz) \<Rightarrow> cg \<in> K)"

definition class_total :: "mem_state \<Rightarrow> u64 \<Rightarrow> size_class \<Rightarrow> u64" where
  "class_total s cg k = (case map_lookup (memory_metrics_map s) cg of
     None \<Rightarrow> 0 | Some c \<Rightarrow> class_counter k c)"

lemma class_charge_alloc:
  "class_counter k (charge_alloc sz now c) = class_counter k c + (if class_of sz = k then 1 else 0)"
  by (cases k)
    (auto simp: charge_alloc_def update_size_histogram_def class_of_def word_less_nat_alt Let_def)

lemma class_charge_free [simp]: "class_counter k (charge_free sz now c) = class_counter k c"
  by (cases k) (simp_all add: charge_free_def)

lemma class_zero [simp]: "class_counter k memory_metrics_zero = 0"
  by (cases k) (simp_all add: memory_metrics_zero_def)

lemma mem_fits_step:
  "charged_cgroup_in K e \<Longrightarrow> fits K (memory_metrics_map s) \<Longrightarrow>
     fits K (memory_metrics_map (mem_step e s))"
  by (cases e)
    (auto simp: mem_handlers Let_def charged_cgroup_in_def fits_modify fits_lookup_or_init
      split: option.split)

lemma class_total_step:
  assumes "charged_cgroup_in K e" and "fits K (memory_metrics_map s)"
  shows "class_total (mem_step e s) cg k = class_total s cg k + (if in_class cg k e then 1 else 0)"
proof (cases "alloc_of e")
  case None
  then show ?thesis
    by (cases e)
      (auto simp: mem_handlers Let_def in_class_def class_total_def map_simps split: option.splits)
next
  case (Some a)
  obtain c sz where a: "a = (c, sz)" by fastforce
  have "map_lookup (memory_metrics_map s) c \<noteq> None \<or> map_room (memory_metrics_map s)"
    using assms Some a fits_room [of K "memory_metrics_map s" c]
    by (simp add: charged_cgroup_in_def)
  with Some a show ?thesis
    by (cases e)
      (auto simp: mem_handlers Let_def in_class_def class_total_def map_simps class_charge_alloc
        split: option.splits if_splits)
qed

interpretation mem_classes: counting_machine mem_step "charged_cgroup_in K"
    "\<lambda>s. fits K (memory_metrics_map s)" "\<lambda>e. if in_class cg k e then 1 else 0"
    "\<lambda>s. class_total s cg k" for K cg k
  by unfold_locales (rule mem_fits_step class_total_step, assumption+)+

section \<open>Examples\<close>

definition kmalloc_ctx :: "u64 \<Rightarrow> u64 \<Rightarrow> trace_event_raw_kmalloc" where
  "kmalloc_ctx p n = \<lparr>km_ent = entry0, km_call_site = 0, km_ptr = p, km_bytes_req = n,
     km_bytes_alloc = n, km_gfp_flags = 0, km_node = 0\<rparr>"

definition kfree_ctx :: "u64 \<Rightarrow> trace_event_raw_kfree" where
  "kfree_ctx p = \<lparr>kf_ent = entry0, kf_call_site = 0, kf_ptr = p\<rparr>"

definition event0 :: memory_event where
  "event0 = \<lparr>ev_timestamp = 7, ev_cgroup_id = 7, ev_pid = 7, ev_event_type = 7, ev_address = 7,
     ev_size = 7, ev_stack_id = 7\<rparr>"

definition in_cgroup :: "u64 \<Rightarrow> memory_event kenv" where
  "in_cgroup cg = env0\<lparr>cgroup := cg, reserve := (\<lambda>_. Some event0)\<rparr>"

lemma mem_example_simps [simp]:
  "km_ptr (kmalloc_ctx p n) = p" "km_bytes_alloc (kmalloc_ctx p n) = n" "kf_ptr (kfree_ctx p) = p"
  "cgroup (in_cgroup cg) = cg" "reserve (in_cgroup cg) i = Some event0"
  by (simp_all add: kmalloc_ctx_def kfree_ctx_def in_cgroup_def env0_def)

lemma mem_init_simps [simp]:
  "map_lookup (active_allocs mem_init) a = None" "map_room (active_allocs mem_init)"
  "map_lookup (memory_metrics_map mem_init) cg = None" "map_room (memory_metrics_map mem_init)"
  by (simp_all add: mem_init_def map_room_def new_map_def map_lookup_def)

section \<open>Properties\<close>

text \<open>
  Property C2. For kernel allocations at fresh addresses that find room in the tables, freed by
  the cgroup that allocated them, the net counter of every cgroup is exactly the sum of the sizes
  of its live allocations, in every reachable state.
\<close>

theorem net_is_live_bytes:
  assumes "kmem_reach s"
  shows "net_of s cg = live_bytes s cg"
  using kmem_reach_inv [OF assms] by (simp add: kmem_inv_def)

theorem net_is_live_bytes_witness:
  "net_of (trace_kmalloc (in_cgroup 4) (kmalloc_ctx 64 100) mem_init) 4 =
   live_bytes (trace_kmalloc (in_cgroup 4) (kmalloc_ctx 64 100) mem_init) 4"
  by (rule net_is_live_bytes) (rule kmem_reach.alloc [OF kmem_reach.init], simp_all)

text \<open>
  Accounting identities of the metrics in every run of all hooks, kernel and user:
  the four size classes partition the allocation count, the net counter is allocated minus freed
  bytes, and the page-fault counters stay zero because no hook writes them.
\<close>

theorem memory_accounting_identities:
  assumes "map_lookup (memory_metrics_map (fold mem_step es mem_init)) cg = Some c"
  shows "alloc_count c = small_allocs c + medium_allocs c + large_allocs c + huge_allocs c \<and>
    net_allocated c = bytes_allocated c - bytes_freed c \<and>
    page_faults c = 0 \<and> major_page_faults c = 0"
proof -
  have "mem_inv (fold mem_step es mem_init)"
    by (rule mem_machine.run_inv) (simp_all add: list_all_iff mem_inv_init)
  then show ?thesis
    using assms by (auto simp: mem_inv_def mem_entry_ok_def dest: all_entries_lookup)
qed

theorem memory_accounting_identities_witness:
  "\<exists>c. map_lookup (memory_metrics_map (fold mem_step
       [Kmalloc (in_cgroup 4) (kmalloc_ctx 64 5000), Kfree (in_cgroup 4) (kfree_ctx 64)] mem_init)) 4
     = Some c \<and> bytes_allocated c - bytes_freed c = 0"
proof -
  let ?es = "[Kmalloc (in_cgroup 4) (kmalloc_ctx 64 5000), Kfree (in_cgroup 4) (kfree_ctx 64)]"
  obtain c where c: "map_lookup (memory_metrics_map (fold mem_step ?es mem_init)) 4 = Some c"
    and n: "net_allocated c = 0"
    by (simp add: trace_kmalloc_def trace_kfree_def Let_def map_simps)
  with memory_accounting_identities [OF c] show ?thesis by (intro exI [of _ c]) simp
qed

text \<open>
  The size histogram counts exactly: over any run that charges at most 16384 cgroups,
  each class counter of a cgroup is the number of its allocations whose size lies in the class,
  with the boundaries 1024, 65536 and 1048576 bytes belonging to the upper class.
\<close>

theorem size_histogram_exact:
  assumes "finite K" and "card K \<le> 16384" and "list_all (charged_cgroup_in K) es"
  shows "class_total (fold mem_step es mem_init) cg k = of_nat (length (filter (in_class cg k) es))"
proof -
  have "fits K (memory_metrics_map mem_init)"
    using assms(1,2) by (simp add: mem_init_def fits_new)
  from mem_classes.run_counter [OF assms(3) this, of cg k] show ?thesis
    by (simp add: sum_list_indicator class_total_def)
qed

theorem size_histogram_exact_witness:
  "class_total (fold mem_step [Kmalloc (in_cgroup 4) (kmalloc_ctx 64 1023),
     Kmalloc (in_cgroup 4) (kmalloc_ctx 96 1024), Kmalloc (in_cgroup 4) (kmalloc_ctx 0 8)] mem_init) 4 Small = 1"
  by (subst size_histogram_exact [of "{4}"])
    (simp_all add: charged_cgroup_in_def in_class_def class_of_def)

text \<open>
  Allocation and free of one kernel object by one cgroup cancel: the table of live
  allocations and all net counters are as before, and the two submitted events agree on
  address, size and stack.
\<close>

theorem kmalloc_kfree_roundtrip:
  assumes "km_ptr c \<noteq> 0" and "kf_ptr f = km_ptr c" and "cgroup E2 = cgroup E1"
    and "map_lookup (active_allocs s) (km_ptr c) = None" and "map_room (active_allocs s)"
    and "map_lookup (memory_metrics_map s) (cgroup E1) \<noteq> None \<or> map_room (memory_metrics_map s)"
    and "reserve E1 0 = Some o1" and "reserve E2 0 = Some o2"
    and "s' = trace_kfree E2 f (trace_kmalloc E1 c s)"
  shows "(\<forall>a. map_lookup (active_allocs s') a = map_lookup (active_allocs s) a) \<and>
    (\<forall>cg. net_of s' cg = net_of s cg) \<and>
    (\<exists>e1 e2. memory_events s' = memory_events s @ [e1, e2] \<and>
       ev_event_type e1 = 0 \<and> ev_event_type e2 = 1 \<and> ev_address e1 = km_ptr c \<and>
       ev_address e2 = ev_address e1 \<and> ev_size e1 = km_bytes_alloc c \<and>
       ev_size e2 = ev_size e1 \<and> ev_stack_id e2 = ev_stack_id e1)"
  using assms
  by (auto simp: trace_kmalloc_def trace_kfree_def Let_def map_simps net_of_def ringbuf_emit_def
      split: option.splits)

theorem kmalloc_kfree_roundtrip_witness:
  "net_of (trace_kfree (in_cgroup 4) (kfree_ctx 64)
     (trace_kmalloc (in_cgroup 4) (kmalloc_ctx 64 100) mem_init)) 4 = net_of mem_init 4"
  using kmalloc_kfree_roundtrip [of "kmalloc_ctx 64 100" "kfree_ctx 64" "in_cgroup 4" "in_cgroup 4"
      mem_init event0 event0]
  by simp

text \<open>
  An allocation freed from another cgroup stays on the allocating cgroup's net
  counter, its table entry is gone so that no later free removes it, and the freeing cgroup is credited with bytes it never held: its net counter
  drops by the size, wrapping below zero if it held less.
\<close>

theorem foreign_free_misattributed:
  assumes "km_ptr c \<noteq> 0" and "kf_ptr f = km_ptr c" and "cgroup E2 \<noteq> cgroup E1"
    and "map_lookup (active_allocs s) (km_ptr c) = None" and "map_room (active_allocs s)"
    and "map_lookup (memory_metrics_map s) (cgroup E1) \<noteq> None"
    and "map_lookup (memory_metrics_map s) (cgroup E2) \<noteq> None"
    and "s' = trace_kfree E2 f (trace_kmalloc E1 c s)"
  shows "net_of s' (cgroup E1) = net_of s (cgroup E1) + km_bytes_alloc c \<and>
    net_of s' (cgroup E2) = net_of s (cgroup E2) - km_bytes_alloc c \<and>
    map_lookup (active_allocs s') (km_ptr c) = None"
  using assms
  by (auto simp: trace_kmalloc_def trace_kfree_def Let_def map_simps net_of_def split: option.splits)

theorem foreign_free_misattributed_witness:
  "net_of (trace_kfree (in_cgroup 9) (kfree_ctx 64) (trace_kmalloc (in_cgroup 4) (kmalloc_ctx 64 100)
     (trace_malloc (in_cgroup 9) regs0 (trace_malloc (in_cgroup 4) regs0 mem_init)))) 9 = - 100"
  using foreign_free_misattributed [of "kmalloc_ctx 64 100" "kfree_ctx 64" "in_cgroup 9" "in_cgroup 4"
      "trace_malloc (in_cgroup 9) regs0 (trace_malloc (in_cgroup 4) regs0 mem_init)"]
  by (simp add: trace_malloc_def Let_def map_simps net_of_def in_cgroup_def env0_def mem_init_def
      map_room_def new_map_def map_lookup_def lookup_or_init_def map_put_def map_update_elem_def
      map_modify_def)

text \<open>
  Freeing user memory never lowers a counter of bytes: the return probe of malloc
  records size 0 (the size is not carried over from the entry probe), so the matching free
  changes neither the freed bytes nor the net counter of any cgroup.
\<close>

theorem user_free_releases_nothing:
  assumes "ax r \<noteq> 0" and "di f = ax r"
    and "map_lookup (active_allocs s) (ax r) \<noteq> None \<or> map_room (active_allocs s)"
    and "s' = trace_free E2 f (trace_malloc_ret E1 r s)"
  shows "(\<forall>cg. map_option bytes_freed (map_lookup (memory_metrics_map s') cg) =
               map_option bytes_freed (map_lookup (memory_metrics_map s) cg)) \<and>
    (\<forall>cg. net_of s' cg = net_of s cg) \<and> map_lookup (active_allocs s') (ax r) = None"
  using assms
  by (auto simp: trace_malloc_ret_def trace_free_def Let_def map_simps net_of_def charge_free_def
      option.map_comp split: option.splits)

theorem user_free_releases_nothing_witness:
  "net_of (trace_free (in_cgroup 4) (regs0\<lparr>di := 64\<rparr>) (trace_malloc_ret (in_cgroup 4) (regs0\<lparr>ax := 64\<rparr>)
     mem_init)) 4 = net_of mem_init 4"
  using user_free_releases_nothing [of "regs0\<lparr>ax := 64\<rparr>" "regs0\<lparr>di := 64\<rparr>" mem_init _ "in_cgroup 4" "in_cgroup 4"]
  by simp

end
