(* ===== verification/C_String.thy ===== *)
theory C_String
  imports Bpf_Env
begin

text \<open>
  The string routines that several programs carry as inline helpers: the hash loop that
  fs_tracker (\<open>hash_file_path\<close>), app_specific (\<open>hash_function_name\<close>) and security_monitor
  (\<open>hash_path\<close>) each define, and the substring search of security_monitor. A string is read through
  \<open>rd i\<close>, the byte at offset \<open>i\<close>; \<open>None\<close> is an access outside readable memory and makes
  the routine return \<open>None\<close>. The lemmas relate the loops to the hash polynomial and to
  \<open>sublist\<close>.
\<close>

section \<open>Readable buffers\<close>

definition holds :: "u8 list \<Rightarrow> (nat \<Rightarrow> u8 option) \<Rightarrow> bool" where
  "holds data rd \<longleftrightarrow> (\<forall>i < length data. rd i = Some (data ! i))"

definition list_rd :: "u8 list \<Rightarrow> nat \<Rightarrow> u8 option" where
  "list_rd data i = (if i < length data then Some (data ! i) else None)"

lemma holds_list_rd: "holds data (list_rd data)"
  by (simp add: holds_def list_rd_def)

lemma takeWhile_nonzero: "(0 :: u8) \<notin> set xs \<Longrightarrow> takeWhile (\<lambda>c. c \<noteq> 0) (xs @ 0 # ys) = xs"
  by (subst takeWhile_append2) auto

lemma str_of_cstr: "0 \<notin> set (bytes_of s) \<Longrightarrow> str_of (cstr s) = bytes_of s"
  by (simp add: str_of_def cstr_def takeWhile_nonzero)

lemma str_of_take: "str_of (take n buf) = take n (str_of buf)"
proof (induction buf arbitrary: n)
  case (Cons b buf)
  then show ?case by (cases n) (simp_all add: str_of_def)
qed (simp add: str_of_def)

lemma str_of_nth: "i < length (str_of buf) \<Longrightarrow> str_of buf ! i = buf ! i \<and> buf ! i \<noteq> 0"
  using nth_mem [of i "str_of buf"] by (auto simp: str_of_def takeWhile_nth dest: set_takeWhileD)

lemma str_of_end: "length (str_of buf) < length buf \<Longrightarrow> buf ! length (str_of buf) = 0"
  using nth_length_takeWhile [of "\<lambda>c. c \<noteq> 0" buf] by (simp add: str_of_def)

lemma length_str_of: "length (str_of buf) \<le> length buf"
  by (simp add: str_of_def length_takeWhile_le)

section \<open>The hash\<close>

text \<open>
  \<open>for (i = 0; i < bound && path[i] != 0; i++) hash = ((hash << 5) + hash) + path[i]\<close>, where
  \<open>char\<close> is signed, so the byte is sign-extended.
\<close>

function hash_loop :: "(nat \<Rightarrow> u8 option) \<Rightarrow> nat \<Rightarrow> nat \<Rightarrow> u64 \<Rightarrow> u64 option" where
  "hash_loop rd bound i hash =
     (if i < bound then
        case rd i of
          None \<Rightarrow> None
        | Some c \<Rightarrow>
            if c \<noteq> 0 then hash_loop rd bound (i + 1) ((push_bit 5 hash + hash) + scast c)
            else Some hash
      else Some hash)"
  by pat_completeness auto
termination
  by (relation "measure (\<lambda>(rd, bound, i, hash). bound - i)") auto

declare hash_loop.simps [simp del]

definition djb2_from :: "u64 \<Rightarrow> u8 list \<Rightarrow> u64" where
  "djb2_from h s = foldl (\<lambda>h c. 33 * h + scast c) h s"

definition djb2 :: "u8 list \<Rightarrow> u64" where
  "djb2 s = djb2_from 5381 s"

lemma djb2_from_simps [simp]:
  "djb2_from h [] = h"
  "djb2_from h (c # s) = djb2_from (33 * h + scast c) s"
  "djb2_from h (s @ t) = djb2_from (djb2_from h s) t"
  by (simp_all add: djb2_from_def)

lemma djb2_step: "push_bit 5 h + h = 33 * (h :: u64)"
  by (simp add: push_bit_eq_mult)

lemma hash_loop_from:
  assumes "holds buf rd" and "bound \<le> length buf \<or> length (str_of buf) < length buf"
  shows "i \<le> length (str_of buf) \<Longrightarrow>
    hash_loop rd bound i h = Some (djb2_from h (take (bound - i) (drop i (str_of buf))))"
proof (induction "bound - i" arbitrary: i h)
  case 0
  then show ?case by (subst hash_loop.simps) simp
next
  case (Suc n)
  then have i: "i < bound" by simp
  show ?case
  proof (cases "i = length (str_of buf)")
    case True
    then have "rd i = Some 0"
      using assms i length_str_of [of buf] str_of_end [of buf] by (auto simp: holds_def)
    with i True show ?thesis by (subst hash_loop.simps) simp
  next
    case False
    then have lt: "i < length (str_of buf)" using Suc.prems by simp
    then have "rd i = Some (str_of buf ! i)" and "str_of buf ! i \<noteq> 0"
      using assms(1) length_str_of [of buf] str_of_nth [of i buf] by (auto simp: holds_def)
    moreover have "take (bound - i) (drop i (str_of buf)) =
        str_of buf ! i # take (bound - (i + 1)) (drop (i + 1) (str_of buf))"
      using i lt by (metis Cons_nth_drop_Suc Suc_diff_Suc add.commute plus_1_eq_Suc take_Suc_Cons)
    moreover have "n = bound - (i + 1)" using Suc.hyps(2) by simp
    ultimately show ?thesis
      using i lt Suc.hyps(1) [of "i + 1"] by (subst hash_loop.simps) (simp add: djb2_step)
  qed
qed

lemma hash_loop_djb2:
  "holds buf rd \<Longrightarrow> bound \<le> length buf \<or> length (str_of buf) < length buf \<Longrightarrow>
     hash_loop rd bound 0 5381 = Some (djb2 (take bound (str_of buf)))"
  by (simp add: hash_loop_from djb2_def)

text \<open>Closed form: a polynomial in 33.\<close>

lemma djb2_from_poly:
  "djb2_from h s = 33 ^ length s * h + (\<Sum>i < length s. 33 ^ (length s - 1 - i) * scast (s ! i))"
proof (induction s arbitrary: h)
  case (Cons c s)
  have "(\<Sum>i < Suc (length s). 33 ^ (length s - i) * scast ((c # s) ! i)) =
      33 ^ length s * scast c + (\<Sum>i < length s. 33 ^ (length s - 1 - i) * scast (s ! i) :: u64)"
    by (simp only: sum.lessThan_Suc_shift) (simp add: lessThan_Suc_atMost)
  with Cons show ?case by (simp add: algebra_simps)
qed simp

text \<open>Moving 33 from one character to its left neighbour does not change the hash.\<close>

lemma djb2_shift:
  assumes "(scast a' :: u64) = scast a + 1" and "(scast b' :: u64) = scast b - 33"
  shows "djb2 (xs @ a' # b' # ys) = djb2 (xs @ a # b # ys)"
proof -
  have "33 * scast a' + scast b' = (33 * scast a + scast b :: u64)"
    by (simp add: assms algebra_simps)
  then show ?thesis by (simp add: djb2_def add.assoc)
qed

section \<open>Substring search\<close>

text \<open>The inner loop of \<open>str_contains\<close> at position \<open>i\<close>: \<open>match\<close>, unless a read fails.\<close>

function match_at :: "(nat \<Rightarrow> u8 option) \<Rightarrow> (nat \<Rightarrow> u8 option) \<Rightarrow> nat \<Rightarrow> nat \<Rightarrow> bool option" where
  "match_at str substr i j =
     (if j < 32 then
        case substr j of
          None \<Rightarrow> None
        | Some b \<Rightarrow>
            if b \<noteq> 0 then
              if i + j \<ge> 256 then Some False
              else case str (i + j) of
                     None \<Rightarrow> None
                   | Some a \<Rightarrow> if a \<noteq> b then Some False else match_at str substr i (j + 1)
            else Some True
      else Some True)"
  by pat_completeness auto
termination
  by (relation "measure (\<lambda>(str, substr, i, j). 32 - j)") auto

declare match_at.simps [simp del]

function contains_from :: "(nat \<Rightarrow> u8 option) \<Rightarrow> (nat \<Rightarrow> u8 option) \<Rightarrow> nat \<Rightarrow> bool option" where
  "contains_from str substr i =
     (if i < 256 then
        case str i of
          None \<Rightarrow> None
        | Some c \<Rightarrow>
            if c \<noteq> 0 then
              case match_at str substr i 0 of
                None \<Rightarrow> None
              | Some True \<Rightarrow> Some True
              | Some False \<Rightarrow> contains_from str substr (i + 1)
            else Some False
      else Some False)"
  by pat_completeness auto
termination
  by (relation "measure (\<lambda>(str, substr, i). 256 - i)") auto

declare contains_from.simps [simp del]

text \<open>The null pointer is \<open>None\<close>.\<close>

definition str_contains ::
  "(nat \<Rightarrow> u8 option) option \<Rightarrow> (nat \<Rightarrow> u8 option) option \<Rightarrow> bool option" where
  "str_contains str substr =
     (case (str, substr) of
        (Some s, Some t) \<Rightarrow> contains_from s t 0
      | _ \<Rightarrow> Some False)"

lemma match_at_prefix:
  assumes "length buf = 256" and lit: "0 \<notin> set lit" "length lit \<le> 32"
  shows "j \<le> length lit \<Longrightarrow> i + j \<le> length (str_of buf) \<Longrightarrow>
    match_at (list_rd buf) (list_rd (lit @ [0])) i j = Some (prefix (drop j lit) (drop (i + j) (str_of buf)))"
proof (induction "length lit - j" arbitrary: j)
  case 0
  then have "j = length lit" by simp
  then show ?case by (subst match_at.simps) (simp add: list_rd_def)
next
  case (Suc n)
  then have j: "j < length lit" by simp
  then have b: "lit ! j \<noteq> 0" "drop j lit = lit ! j # drop (Suc j) lit"
    using lit(1) by (metis nth_mem, simp add: Cons_nth_drop_Suc)
  have rd: "list_rd (lit @ [0]) j = Some (lit ! j)" using j by (simp add: list_rd_def nth_append)
  show ?case
  proof (cases "i + j < length (str_of buf)")
    case True
    then have a: "list_rd buf (i + j) = Some (str_of buf ! (i + j))"
      "drop (i + j) (str_of buf) = str_of buf ! (i + j) # drop (i + (j + 1)) (str_of buf)"
      using length_str_of [of buf] str_of_nth [OF True] True
      by (simp_all add: list_rd_def) (metis Cons_nth_drop_Suc)
    moreover have "i + j < 256" using True length_str_of [of buf] assms(1) by simp
    moreover have "match_at (list_rd buf) (list_rd (lit @ [0])) i (j + 1) =
        Some (prefix (drop (j + 1) lit) (drop (i + (j + 1)) (str_of buf)))"
      using Suc.hyps(2) j True by (intro Suc.hyps(1)) simp_all
    ultimately show ?thesis
      using b rd j lit(2) by (subst match_at.simps) auto
  next
    case False
    then have e: "i + j = length (str_of buf)" using Suc.prems by simp
    show ?thesis
    proof (cases "i + j < 256")
      case True
      then have "list_rd buf (i + j) = Some 0"
        using e assms(1) str_of_end [of buf] by (simp add: list_rd_def)
      with b rd j lit(2) e True show ?thesis by (subst match_at.simps) simp
    next
      case False
      with b rd j lit(2) e show ?thesis by (subst match_at.simps) simp
    qed
  qed
qed

lemma sublist_Cons_drop:
  "i < length s \<Longrightarrow> sublist t (drop i s) \<longleftrightarrow> prefix t (drop i s) \<or> sublist t (drop (i + 1) s)"
  by (metis Cons_nth_drop_Suc add.commute plus_1_eq_Suc sublist_Cons_right)

lemma contains_from_sublist:
  assumes "length buf = 256" and "0 \<notin> set lit" and "length lit \<le> 32" and "lit \<noteq> []"
  shows "i \<le> length (str_of buf) \<Longrightarrow>
    contains_from (list_rd buf) (list_rd (lit @ [0])) i = Some (sublist lit (drop i (str_of buf)))"
proof (induction "length (str_of buf) - i" arbitrary: i)
  case 0
  then have e: "i = length (str_of buf)" by simp
  then have "i < 256 \<Longrightarrow> list_rd buf i = Some 0"
    using assms(1) str_of_end [of buf] by (simp add: list_rd_def)
  with e assms(4) show ?case by (subst contains_from.simps) simp
next
  case (Suc n)
  then have lt: "i < length (str_of buf)" by simp
  then have "i < 256" and "list_rd buf i = Some (str_of buf ! i)" and "str_of buf ! i \<noteq> 0"
    using assms(1) length_str_of [of buf] str_of_nth [OF lt] by (auto simp: list_rd_def)
  moreover have "contains_from (list_rd buf) (list_rd (lit @ [0])) (i + 1) =
      Some (sublist lit (drop (i + 1) (str_of buf)))"
    using Suc.hyps(2) lt by (intro Suc.hyps(1)) simp_all
  moreover have "match_at (list_rd buf) (list_rd (lit @ [0])) i 0 = Some (prefix lit (drop i (str_of buf)))"
    using match_at_prefix [OF assms(1-3), of 0 i] lt by simp
  ultimately show ?case
    using sublist_Cons_drop [OF lt, of lit] by (subst contains_from.simps) (auto split: bool.split)
qed

lemma str_contains_sublist:
  assumes "length buf = 256" and "0 \<notin> set (bytes_of lit)" and "length lit \<le> 32" and "lit \<noteq> []"
  shows "str_contains (Some (list_rd buf)) (Some (list_rd (cstr lit))) =
    Some (sublist (bytes_of lit) (str_of buf))"
  using contains_from_sublist [OF assms(1,2), of 0] assms(3,4)
  by (simp add: str_contains_def cstr_def bytes_of_def)

end
