(* ===== verification/Security_Monitor.thy ===== *)
theory Security_Monitor
  imports C_String
begin

text \<open>
  \<^verbatim>\<open>src/watcher/internal/ebpf/bpf/security_monitor/security_monitor.bpf.c\<close>: system calls,
  executed programs, opened files, connections and memory pressure per cgroup, with alerts in a
  ring buffer; and the policy tables that \<^verbatim>\<open>security_monitor.go\<close> fills before it attaches
  the hooks (\<open>initializeSecurityPolicies\<close>, \<open>hashString\<close>). A hook returns the new state, or a
  fault with the state at that point.
\<close>

section \<open>Data\<close>

record security_metrics =
  total_syscalls :: u64
  suspicious_syscalls :: u64
  privilege_escalation_attempts :: u64
  syscall_rate_violations :: u64
  memory_violations :: u64
  cpu_violations :: u64
  fd_violations :: u64
  process_violations :: u64
  suspicious_connections :: u64
  blocked_connections :: u64
  port_scan_attempts :: u64
  new_processes :: u64
  suspicious_processes :: u64
  setuid_executions :: u64
  container_escape_attempts :: u64
  unauthorized_file_access :: u64
  sensitive_file_access :: u64
  system_file_modifications :: u64
  last_update :: u64

record syscall_stats =
  st_count :: u64
  st_last_seen :: u64
  st_avg_frequency :: u64
  st_is_suspicious :: u8

record process_info =
  pi_pid :: u32
  pi_ppid :: u32
  pi_uid :: u32
  pi_gid :: u32
  pi_start_time :: u64
  pi_comm :: "u8 list"
  pi_filename :: "u8 list"
  pi_is_suspicious :: u8
  pi_cgroup_id :: u64

record network_connection =
  nc_src_ip :: u32
  nc_dst_ip :: u32
  nc_src_port :: u16
  nc_dst_port :: u16
  nc_protocol :: u8
  nc_timestamp :: u64
  nc_bytes_transferred :: u64
  nc_is_suspicious :: u8
  nc_cgroup_id :: u64

record security_event =
  ev_timestamp :: u64
  ev_cgroup_id :: u64
  ev_pid :: u32
  ev_event_type :: u32
  ev_severity :: u32
  ev_value1 :: u64
  ev_value2 :: u64
  ev_description :: "u8 list"

record sec_state =
  security_metrics_map :: "(u64, security_metrics) bpf_map"
  syscall_stats_map :: "(u32, syscall_stats) bpf_map"
  process_map :: "(u32, process_info) bpf_map"
  network_connections_map :: "(u64, network_connection) bpf_map"
  security_events :: "security_event list"
  syscall_allowlist :: "(u32, u8) bpf_map"
  sensitive_paths_map :: "(u64, u8) bpf_map"

text \<open>The maps as loaded, before any policy.\<close>

definition sec_loaded :: sec_state where
  "sec_loaded = \<lparr>security_metrics_map = new_map 10000, syscall_stats_map = new_map 1000,
     process_map = new_map 10000, network_connections_map = new_map 5000, security_events = [],
     syscall_allowlist = new_map 500, sensitive_paths_map = new_map 1000\<rparr>"

definition security_metrics_zero :: security_metrics where
  "security_metrics_zero = \<lparr>total_syscalls = 0, suspicious_syscalls = 0,
     privilege_escalation_attempts = 0, syscall_rate_violations = 0, memory_violations = 0,
     cpu_violations = 0, fd_violations = 0, process_violations = 0, suspicious_connections = 0,
     blocked_connections = 0, port_scan_attempts = 0, new_processes = 0, suspicious_processes = 0,
     setuid_executions = 0, container_escape_attempts = 0, unauthorized_file_access = 0,
     sensitive_file_access = 0, system_file_modifications = 0, last_update = 0\<rparr>"

record bpf_raw_tracepoint_args =
  ra_args :: "nat \<Rightarrow> u64"

record trace_event_raw_sched_process_exec =
  pe_ent :: trace_entry
  pe_data_loc_filename :: u32
  pe_pid :: s32
  pe_old_pid :: s32

section \<open>Helper functions\<close>

definition suspicious_numbers :: "u32 list" where
  "suspicious_numbers = [105, 106, 113, 114, 117, 119, 157, 158, 163, 164, 165, 166, 167, 168,
     169, 172, 173, 310, 311]"

definition is_suspicious_syscall :: "(u32, u8) bpf_map \<Rightarrow> u32 \<Rightarrow> bool" where
  "is_suspicious_syscall allowlist nr =
     (if map_lookup allowlist nr = Some 1 then False else nr \<in> set suspicious_numbers)"

definition hash_path :: "(nat \<Rightarrow> u8 option) \<Rightarrow> u64 option" where
  "hash_path path = hash_loop path 256 0 5381"

text \<open>\<open>str_contains(s, l1) || str_contains(s, l2) || ...\<close> with string literals.\<close>

fun contains_any :: "u8 list \<Rightarrow> string list \<Rightarrow> bool option" where
  "contains_any buf [] = Some False"
| "contains_any buf (lit # lits) =
     (case str_contains (Some (list_rd buf)) (Some (list_rd (cstr lit))) of
        None \<Rightarrow> None
      | Some True \<Rightarrow> Some True
      | Some False \<Rightarrow> contains_any buf lits)"

text \<open>
  The events submitted so far in an invocation, with the number of clock readings and of
  reservations it has made: the clock is read only when the reservation succeeds.
\<close>

record emitter =
  clock :: nat
  tries :: nat
  out :: "security_event list"

definition emit_security_event ::
  "security_event kenv \<Rightarrow> u64 \<Rightarrow> u32 \<Rightarrow> u32 \<Rightarrow> u32 \<Rightarrow> u64 \<Rightarrow> u64 \<Rightarrow> string \<Rightarrow> emitter \<Rightarrow> emitter" where
  "emit_security_event E cg pid ty sev v1 v2 desc q =
     (case reserve E (tries q) of
        None \<Rightarrow> q\<lparr>tries := tries q + 1\<rparr>
      | Some ev \<Rightarrow> \<lparr>clock = clock q + 1, tries = tries q + 1,
          out = out q @ [ev\<lparr>ev_timestamp := ktime E (clock q), ev_cgroup_id := cg, ev_pid := pid,
            ev_event_type := ty, ev_severity := sev, ev_value1 := v1, ev_value2 := v2,
            ev_description := read_str (ev_description ev) (bytes_of desc)\<rparr>]\<rparr>)"

section \<open>Programs\<close>

type_synonym sec_result = "bpf_fault \<times> sec_state + sec_state"

definition metrics_new :: "u64 \<Rightarrow> security_metrics" where
  "metrics_new now = security_metrics_zero\<lparr>total_syscalls := 1, last_update := now\<rparr>"

definition charge_syscall :: "u64 \<Rightarrow> security_metrics \<Rightarrow> security_metrics" where
  "charge_syscall now c = c\<lparr>total_syscalls := total_syscalls c + 1, last_update := now\<rparr>"

text \<open>The first block: the call is counted, an entry created if the cgroup has none.\<close>

definition count_call ::
  "u64 \<Rightarrow> u64 \<Rightarrow> (u64, security_metrics) bpf_map \<Rightarrow> (u64, security_metrics) bpf_map" where
  "count_call now cg m =
     (case map_lookup m cg of
        None \<Rightarrow> map_put m cg (metrics_new now)
      | Some _ \<Rightarrow> map_modify m cg (charge_syscall now))"

definition escalates :: "u32 \<Rightarrow> bool" where
  "escalates nr \<longleftrightarrow> nr \<in> {105, 106, 113, 114, 117, 119}"

definition charge_suspicious :: "u32 \<Rightarrow> security_metrics \<Rightarrow> security_metrics" where
  "charge_suspicious nr c =
     (let c1 = c\<lparr>suspicious_syscalls := suspicious_syscalls c + 1\<rparr>
      in if escalates nr
         then c1\<lparr>privilege_escalation_attempts := privilege_escalation_attempts c1 + 1\<rparr> else c1)"

definition stats_new :: "bool \<Rightarrow> u64 \<Rightarrow> syscall_stats" where
  "stats_new susp now = \<lparr>st_count = 1, st_last_seen = now, st_avg_frequency = 0, st_is_suspicious = of_bool susp\<rparr>"

definition charge_stats :: "u64 \<Rightarrow> syscall_stats \<Rightarrow> syscall_stats" where
  "charge_stats now st = st\<lparr>st_count := st_count st + 1, st_last_seen := now\<rparr>"

definition trace_sys_enter ::
  "security_event kenv \<Rightarrow> bpf_raw_tracepoint_args \<Rightarrow> sec_state \<Rightarrow> sec_result" where
  "trace_sys_enter E ctx s =
     (let nr = (ucast (ra_args ctx 1) :: u32);
          cg = get_cgroup_id E;
          pid = pid_of (pid_tgid E);
          now = ktime E 0;
          m1 = count_call now cg (security_metrics_map s);
          susp = is_suspicious_syscall (syscall_allowlist s) nr;
          stats = (case map_lookup (syscall_stats_map s) nr of
                     None \<Rightarrow> map_put (syscall_stats_map s) nr (stats_new susp now)
                   | Some _ \<Rightarrow> map_modify (syscall_stats_map s) nr (charge_stats now))
      in if susp then
           if map_lookup m1 cg = None then Inl (NullDeref, s\<lparr>security_metrics_map := m1\<rparr>)
           else
             let q0 = \<lparr>clock = 1, tries = 0, out = security_events s\<rparr>;
                 q1 = (if escalates nr then
                         emit_security_event E cg pid 0 2 (ucast nr) 0 ''Privilege escalation attempt detected'' q0
                       else q0);
                 q2 = emit_security_event E cg pid 0 1 (ucast nr) 0 ''Suspicious syscall detected'' q1
             in Inr (s\<lparr>security_metrics_map := map_modify m1 cg (charge_suspicious nr),
                      security_events := out q2, syscall_stats_map := stats\<rparr>)
         else Inr (s\<lparr>security_metrics_map := m1, syscall_stats_map := stats\<rparr>))"

text \<open>
  \<open>bpf_probe_read_kernel_str\<close> from a kernel address: a bad address clears the destination, which
  is already zero here.
\<close>

definition exe_name :: "security_event kenv \<Rightarrow> u8 list" where
  "exe_name E =
     (let H = kmem E;
          file = core_read (h_mm_exe_file H) id (core_read (h_task H) t_mm (cur_task E))
      in if file = 0 then replicate 256 0
         else
           let den = core_read (h_file_f_path_dentry H) id file
           in if den = 0 then replicate 256 0
              else case h_str H (core_read (h_dentry H) d_name_name den) of
                     None \<Rightarrow> replicate 256 0
                   | Some name \<Rightarrow> read_str (replicate 256 0) name)"

definition attack_tools :: "string list" where
  "attack_tools = [''ncat'', ''nc'', ''nmap'', ''wget'', ''curl'', ''python'', ''perl'', ''ruby'']"

definition charge_exec :: "bool \<Rightarrow> bool \<Rightarrow> security_metrics \<Rightarrow> security_metrics" where
  "charge_exec susp root c =
     (let c1 = c\<lparr>new_processes := new_processes c + 1\<rparr>;
          c2 = (if susp then c1\<lparr>suspicious_processes := suspicious_processes c1 + 1\<rparr> else c1)
      in if root then c2\<lparr>setuid_executions := setuid_executions c2 + 1\<rparr> else c2)"

definition trace_process_exec ::
  "security_event kenv \<Rightarrow> trace_event_raw_sched_process_exec \<Rightarrow> sec_state \<Rightarrow> sec_result" where
  "trace_process_exec E ctx s =
     (let pid = pid_of (pid_tgid E);
          cg = get_cgroup_id E;
          now = ktime E 0;
          H = kmem E;
          task = cur_task E;
          ppid = core_read (h_task H) t_pid (core_read (h_task H) t_real_parent task);
          uid = core_read (h_cred H) c_uid (core_read (h_task H) t_cred task);
          gid = core_read (h_cred H) c_gid (core_read (h_task H) t_cred task);
          filename = exe_name E
      in case contains_any filename attack_tools of
           None \<Rightarrow> Inl (OutOfBounds, s)
         | Some tool \<Rightarrow>
           let susp = (tool \<or> (uid = 0 \<and> pid \<noteq> 1));
               proc = \<lparr>pi_pid = pid, pi_ppid = ppid, pi_uid = uid, pi_gid = gid, pi_start_time = now,
                       pi_comm = comm E 16, pi_filename = filename, pi_is_suspicious = of_bool susp,
                       pi_cgroup_id = cg\<rparr>;
               s1 = s\<lparr>process_map := map_put (process_map s) pid proc\<rparr>
           in if map_lookup (security_metrics_map s) cg = None then Inr s1
              else
                let q0 = \<lparr>clock = 1, tries = 0, out = security_events s\<rparr>;
                    q1 = (if susp then
                            emit_security_event E cg pid 3 1 (ucast uid) 0 ''Suspicious process detected'' q0
                          else q0);
                    q2 = (if uid = 0 then
                            emit_security_event E cg pid 3 2 (ucast uid) 0 ''Root process execution'' q1
                          else q1)
                in Inr (s1\<lparr>security_metrics_map :=
                            map_modify (security_metrics_map s) cg (charge_exec susp (uid = 0)),
                          security_events := out q2\<rparr>))"

definition system_dirs :: "string list" where
  "system_dirs = [''/etc/'', ''/sys/'', ''/proc/'', ''/dev/'']"

definition trace_file_access ::
  "security_event kenv \<Rightarrow> trace_event_raw_sys_enter \<Rightarrow> sec_state \<Rightarrow> sec_result" where
  "trace_file_access E ctx s =
     (let cg = get_cgroup_id E;
          pid = pid_of (pid_tgid E);
          filename = user_str E (se_args ctx 1) 256;
          known = (map_lookup (security_metrics_map s) cg \<noteq> None);
          q0 = \<lparr>clock = 0, tries = 0, out = security_events s\<rparr>
      in case hash_path (list_rd filename) of
           None \<Rightarrow> Inl (OutOfBounds, s)
         | Some h \<Rightarrow>
           let sens = (case map_lookup (sensitive_paths_map s) h of None \<Rightarrow> 0 | Some l \<Rightarrow> l);
               m1 = (if sens > 0 \<and> known then
                       map_modify (security_metrics_map s) cg
                         (\<lambda>c. c\<lparr>sensitive_file_access := sensitive_file_access c + 1\<rparr>)
                     else security_metrics_map s);
               q1 = (if sens > 0 \<and> known then
                       emit_security_event E cg pid 4 (ucast sens) 0 0 ''Sensitive file access detected'' q0
                     else q0)
           in case contains_any filename system_dirs of
                None \<Rightarrow> Inl (OutOfBounds, s\<lparr>security_metrics_map := m1, security_events := out q1\<rparr>)
              | Some sys \<Rightarrow>
                let m2 = (if sys \<and> known then
                            map_modify m1 cg
                              (\<lambda>c. c\<lparr>system_file_modifications := system_file_modifications c + 1\<rparr>)
                          else m1);
                    q2 = (if sys \<and> known then
                            emit_security_event E cg pid 4 1 0 0 ''System file access detected'' q1
                          else q1)
                in Inr (s\<lparr>security_metrics_map := m2, security_events := out q2\<rparr>))"

definition trace_tcp_connect :: "security_event kenv \<Rightarrow> pt_regs \<Rightarrow> sec_state \<Rightarrow> sec_state" where
  "trace_tcp_connect E ctx s =
     (let cg = get_cgroup_id E;
          pid = pid_of (pid_tgid E)
      in case map_lookup (security_metrics_map s) cg of
           None \<Rightarrow> s
         | Some c \<Rightarrow>
             if suspicious_connections c > 100 then
               s\<lparr>security_events := out (emit_security_event E cg pid 2 1 0 0 ''High connection rate detected''
                   \<lparr>clock = 0, tries = 0, out = security_events s\<rparr>)\<rparr>
             else s)"

text \<open>The two memory hooks differ in severity and text only.\<close>

definition memory_violation ::
  "security_event kenv \<Rightarrow> u32 \<Rightarrow> string \<Rightarrow> sec_state \<Rightarrow> sec_state" where
  "memory_violation E sev desc s =
     (let cg = get_cgroup_id E;
          pid = pid_of (pid_tgid E)
      in case map_lookup (security_metrics_map s) cg of
           None \<Rightarrow> s
         | Some _ \<Rightarrow>
             s\<lparr>security_metrics_map := map_modify (security_metrics_map s) cg
                 (\<lambda>c. c\<lparr>memory_violations := memory_violations c + 1\<rparr>),
               security_events := out (emit_security_event E cg pid 1 sev 0 0 desc
                 \<lparr>clock = 0, tries = 0, out = security_events s\<rparr>)\<rparr>)"

definition trace_memory_pressure :: "security_event kenv \<Rightarrow> sec_state \<Rightarrow> sec_state" where
  "trace_memory_pressure E s = memory_violation E 1 ''Memory pressure event detected'' s"

definition trace_oom_event :: "security_event kenv \<Rightarrow> sec_state \<Rightarrow> sec_state" where
  "trace_oom_event E s = memory_violation E 2 ''OOM event detected'' s"

datatype sec_hook =
  Sys_Enter "security_event kenv" bpf_raw_tracepoint_args
| Process_Exec "security_event kenv" trace_event_raw_sched_process_exec
| File_Access "security_event kenv" trace_event_raw_sys_enter
| Tcp_Connect "security_event kenv" pt_regs
| Memory_Pressure "security_event kenv"
| Oom_Event "security_event kenv"

definition after :: "sec_result \<Rightarrow> sec_state" where
  "after r = (case r of Inl (_, s) \<Rightarrow> s | Inr s \<Rightarrow> s)"

fun sec_step :: "sec_hook \<Rightarrow> sec_state \<Rightarrow> sec_state" where
  "sec_step (Sys_Enter E ctx) s = after (trace_sys_enter E ctx s)"
| "sec_step (Process_Exec E ctx) s = after (trace_process_exec E ctx s)"
| "sec_step (File_Access E ctx) s = after (trace_file_access E ctx s)"
| "sec_step (Tcp_Connect E ctx) s = trace_tcp_connect E ctx s"
| "sec_step (Memory_Pressure E) s = trace_memory_pressure E s"
| "sec_step (Oom_Event E) s = trace_oom_event E s"

section \<open>The policy tables\<close>

text \<open>\<open>hashString\<close> of the user-space side, on a string of ASCII characters.\<close>

definition hashString :: "string \<Rightarrow> u64" where
  "hashString s = foldl (\<lambda>hash c. (push_bit 5 hash + hash) + ucast (of_char c :: u8)) 5381 s"

definition safeSyscalls :: "u32 list" where
  "safeSyscalls = [0, 1, 2, 3, 4, 5, 6, 7, 8, 9, 10, 11, 12, 13, 14, 15, 16, 17, 18, 19, 20]"

definition sensitivePaths :: "(string \<times> u8) list" where
  "sensitivePaths = [(''/etc/passwd'', 3), (''/etc/shadow'', 3), (''/etc/sudoers'', 3),
     (''/etc/ssh/'', 2), (''/root/.ssh/'', 2), (''/proc/sys/'', 2), (''/sys/class/'', 2),
     (''/etc/crontab'', 2), (''/var/log/auth.log'', 1), (''/var/log/secure'', 1)]"

definition initializeSecurityPolicies :: "sec_state \<Rightarrow> sec_state" where
  "initializeSecurityPolicies s =
     s\<lparr>syscall_allowlist := fold (\<lambda>nr m. map_put m nr 1) safeSyscalls (syscall_allowlist s),
       sensitive_paths_map :=
         fold (\<lambda>(path, l) m. map_put m (hashString path) l) sensitivePaths (sensitive_paths_map s)\<rparr>"

definition sec_init :: sec_state where
  "sec_init = initializeSecurityPolicies sec_loaded"

section \<open>The policy tables hold the hashes of the paths\<close>

lemma policy_hashes:
  "map (\<lambda>p. hashString (fst p)) sensitivePaths =
     [13789497318489331601,
      13789497318614375781,
      12331553745757864228,
      249810756979395164,
      13790094233671788306,
      8243770383029989349,
      13790154792712775751,
      12331553724989995496,
      6532021474002882559,
      13777534393154903012]"
  by (simp add: sensitivePaths_def hashString_def of_char_def push_bit_eq_mult)

lemma distinct_hashes: "distinct (map (\<lambda>p. hashString (fst p)) sensitivePaths)"
  unfolding policy_hashes by simp

lemma fold_put_lookup:
  "distinct (map (\<lambda>p. h (fst p)) ps) \<Longrightarrow> length (elems m) + length ps \<le> max_entries m \<Longrightarrow>
   distinct (map fst (elems m)) \<Longrightarrow>
     map_lookup (fold (\<lambda>(path, l) m. map_put m (h path) l) ps m) k =
       (case map_of (map (\<lambda>(path, l). (h path, l)) ps) k of None \<Rightarrow> map_lookup m k | Some l \<Rightarrow> Some l)"
proof (induction ps arbitrary: m)
  case (Cons p ps)
  obtain path l where p: "p = (path, l)" by fastforce
  let ?m = "map_put m (h path) l"
  have wf: "map_wf m" using Cons.prems by (simp add: map_wf_def)
  then have "map_wf ?m" by (rule map_wf_put)
  moreover have "length (elems ?m) \<le> length (elems m) + 1"
    using Cons.prems length_update [of "elems m" "h path" l]
    by (auto simp: map_put_def map_update_elem_def split: option.splits)
  ultimately have "map_lookup (fold (\<lambda>(path, l) m. map_put m (h path) l) ps ?m) k =
      (case map_of (map (\<lambda>(path, l). (h path, l)) ps) k of None \<Rightarrow> map_lookup ?m k | Some l \<Rightarrow> Some l)"
    using Cons.prems p by (intro Cons.IH) (auto simp: map_wf_def)
  moreover have "map_room m" using Cons.prems by (simp add: map_room_def)
  moreover have "map_of (map (\<lambda>(path, l). (h path, l)) ps) (h path) = None"
    using Cons.prems(1) p by (force simp: map_of_eq_None_iff)
  ultimately show ?case
    using p by (auto simp: map_simps split: option.split)
qed simp

lemma policy_lookup:
  "map_lookup (sensitive_paths_map sec_init) k =
     map_of (map (\<lambda>(path, l). (hashString path, l)) sensitivePaths) k"
proof -
  have "length sensitivePaths \<le> 1000" by (simp add: sensitivePaths_def)
  then show ?thesis
    using fold_put_lookup [OF distinct_hashes, of "new_map 1000" k]
    by (simp add: sec_init_def initializeSecurityPolicies_def sec_loaded_def new_map_def map_lookup_def
        split: option.split)
qed

lemma policy_member:
  assumes "(path, l) \<in> set sensitivePaths"
  shows "map_lookup (sensitive_paths_map sec_init) (hashString path) = Some l"
proof -
  have "distinct (map fst (map (\<lambda>(path, l). (hashString path, l)) sensitivePaths))"
    using distinct_hashes by (simp add: comp_def case_prod_beta)
  then show ?thesis
    unfolding policy_lookup using assms by (intro map_of_is_SomeI) force+
qed

text \<open>The user-space hash and the hash loop of the program agree on ASCII strings.\<close>

definition ascii :: "string \<Rightarrow> bool" where
  "ascii s \<longleftrightarrow> (\<forall>b \<in> set (bytes_of s). 0 < b \<and> b < 128)"

lemma scast_ascii:
  assumes "(b :: u8) < 128"
  shows "(scast b :: u64) = ucast b"
proof -
  have u: "uint b < 2 ^ 7" "- (2 ^ 7) \<le> uint b"
    using assms order_trans [OF _ uint_ge_0, of "- (2 ^ 7)" b] by (simp_all add: word_less_def)
  have "sint b = signed_take_bit 7 (uint b)" by (simp add: sint_uint)
  also have "\<dots> = uint b" by (rule signed_take_bit_int_eq_self [OF u(2,1)])
  finally show ?thesis unfolding scast_eq ucast_eq by (rule arg_cong)
qed

lemma hashString_djb2: "ascii s \<Longrightarrow> hashString s = djb2 (bytes_of s)"
proof -
  have "ascii s \<Longrightarrow>
      foldl (\<lambda>hash c. (push_bit 5 hash + hash) + ucast (of_char c :: u8)) h s = djb2_from h (bytes_of s)" for h
    by (induction s arbitrary: h) (simp_all add: ascii_def bytes_of_def djb2_step scast_ascii)
  then show "ascii s \<Longrightarrow> ?thesis" by (simp add: hashString_def djb2_def)
qed

lemma ascii_nonzero: "ascii s \<Longrightarrow> 0 \<notin> set (bytes_of s)"
  by (auto simp: ascii_def)

lemma hash_path_buffer:
  "length buf = 256 \<Longrightarrow> hash_path (list_rd buf) = Some (djb2 (str_of buf))"
  using hash_loop_djb2 [OF holds_list_rd, of 256 buf] length_str_of [of buf]
  by (simp add: hash_path_def)

section \<open>Substring searches\<close>

definition found_in :: "string list \<Rightarrow> u8 list \<Rightarrow> bool" where
  "found_in lits buf \<longleftrightarrow> (\<exists>lit \<in> set lits. sublist (bytes_of lit) (str_of buf))"

lemma contains_any_found:
  assumes "length buf = 256"
  shows "\<forall>lit \<in> set lits. 0 \<notin> set (bytes_of lit) \<and> length lit \<le> 32 \<and> lit \<noteq> [] \<Longrightarrow>
    contains_any buf lits = Some (found_in lits buf)"
  by (induction lits) (auto simp: found_in_def str_contains_sublist [OF assms] split: bool.split)

lemma tools_found: "length buf = 256 \<Longrightarrow> contains_any buf attack_tools = Some (found_in attack_tools buf)"
  by (rule contains_any_found) (simp_all add: attack_tools_def bytes_of_def of_char_def)

lemma dirs_found: "length buf = 256 \<Longrightarrow> contains_any buf system_dirs = Some (found_in system_dirs buf)"
  by (rule contains_any_found) (simp_all add: system_dirs_def bytes_of_def of_char_def)

lemma length_exe_name: "length (exe_name E) = 256"
  by (auto simp: exe_name_def Let_def length_read_str split: option.split)

lemma frame_emit [simp]: "tries (emit_security_event E cg pid ty sev v1 v2 d q) = tries q + 1"
  by (simp add: emit_security_event_def split: option.split)

section \<open>Runs\<close>

fun sec_env :: "sec_hook \<Rightarrow> security_event kenv" where
  "sec_env (Sys_Enter E ctx) = E"
| "sec_env (Process_Exec E ctx) = E"
| "sec_env (File_Access E ctx) = E"
| "sec_env (Tcp_Connect E ctx) = E"
| "sec_env (Memory_Pressure E) = E"
| "sec_env (Oom_Event E) = E"

lemmas sec_handlers = trace_sys_enter_def trace_process_exec_def trace_file_access_def
  trace_tcp_connect_def trace_memory_pressure_def trace_oom_event_def memory_violation_def

text \<open>The policy tables never change, and nothing counts a suspicious connection.\<close>

definition sec_inv :: "sec_state \<Rightarrow> bool" where
  "sec_inv s \<longleftrightarrow> syscall_allowlist s = syscall_allowlist sec_init \<and>
     sensitive_paths_map s = sensitive_paths_map sec_init \<and>
     all_entries (\<lambda>c. suspicious_connections c = 0) (security_metrics_map s)"

lemma frame_sys_enter:
  "syscall_allowlist (after (trace_sys_enter E ctx s)) = syscall_allowlist s \<and>
   sensitive_paths_map (after (trace_sys_enter E ctx s)) = sensitive_paths_map s"
  by (simp add: trace_sys_enter_def after_def Let_def)

lemma frame_exec:
  "syscall_allowlist (after (trace_process_exec E ctx s)) = syscall_allowlist s \<and>
   sensitive_paths_map (after (trace_process_exec E ctx s)) = sensitive_paths_map s"
  by (simp add: trace_process_exec_def after_def Let_def tools_found length_exe_name)

lemma frame_file:
  "syscall_allowlist (after (trace_file_access E ctx s)) = syscall_allowlist s \<and>
   sensitive_paths_map (after (trace_file_access E ctx s)) = sensitive_paths_map s"
  by (simp add: trace_file_access_def after_def Let_def split: option.split)

lemma charge_connections [simp]:
  "suspicious_connections (metrics_new now) = 0"
  "suspicious_connections (charge_syscall now c) = suspicious_connections c"
  "suspicious_connections (charge_suspicious nr c) = suspicious_connections c"
  "suspicious_connections (charge_exec susp root c) = suspicious_connections c"
  by (simp_all add: metrics_new_def charge_syscall_def charge_suspicious_def charge_exec_def
      security_metrics_zero_def Let_def)

lemma metrics_exec:
  "security_metrics_map (after (trace_process_exec E ctx s)) =
     map_modify (security_metrics_map s) (get_cgroup_id E)
       (charge_exec (found_in attack_tools (exe_name E) \<or>
           core_read (h_cred (kmem E)) c_uid (core_read (h_task (kmem E)) t_cred (cur_task E)) = 0 \<and>
           pid_of (pid_tgid E) \<noteq> 1)
         (core_read (h_cred (kmem E)) c_uid (core_read (h_task (kmem E)) t_cred (cur_task E)) = 0))"
  by (simp add: trace_process_exec_def after_def Let_def tools_found length_exe_name map_modify_def
      split: option.split)

lemma connections_step:
  assumes "all_entries (\<lambda>c. suspicious_connections c = 0) (security_metrics_map s)"
  shows "all_entries (\<lambda>c. suspicious_connections c = 0) (security_metrics_map (sec_step e s))"
proof (cases e)
  case (Sys_Enter E ctx)
  with assms show ?thesis
    by (auto simp: trace_sys_enter_def after_def Let_def count_call_def
        intro!: all_entries_charge_case all_entries_modify)
next
  case (Process_Exec E ctx)
  with assms show ?thesis by (auto simp: metrics_exec intro!: all_entries_modify)
next
  case (File_Access E ctx)
  with assms show ?thesis
    by (auto simp: trace_file_access_def after_def Let_def split: option.split
        intro!: all_entries_modify)
qed (use assms in \<open>auto simp: sec_handlers Let_def split: option.split intro!: all_entries_modify\<close>)

lemma frame_others:
  "syscall_allowlist (trace_tcp_connect E ctx s) = syscall_allowlist s"
  "sensitive_paths_map (trace_tcp_connect E ctx s) = sensitive_paths_map s"
  "syscall_allowlist (memory_violation E sev d s) = syscall_allowlist s"
  "sensitive_paths_map (memory_violation E sev d s) = sensitive_paths_map s"
  by (simp_all add: trace_tcp_connect_def memory_violation_def Let_def split: option.split)

lemma frame_step:
  "syscall_allowlist (sec_step e s) = syscall_allowlist s"
  "sensitive_paths_map (sec_step e s) = sensitive_paths_map s"
  by (cases e; simp add: frame_sys_enter frame_exec frame_file frame_others trace_memory_pressure_def
      trace_oom_event_def)+

lemma sec_inv_step: "sec_inv s \<Longrightarrow> sec_inv (sec_step e s)"
  unfolding sec_inv_def frame_step using connections_step by blast

interpretation sec_machine: event_machine sec_step "\<lambda>_. True" sec_inv
  by unfold_locales (rule sec_inv_step)

lemma sec_inv_init: "sec_inv sec_init"
  by (simp add: sec_inv_def sec_init_def initializeSecurityPolicies_def sec_loaded_def)

section \<open>Counting system calls\<close>

definition fits_sec :: "u64 set \<Rightarrow> (u32, u8) bpf_map \<Rightarrow> sec_state \<Rightarrow> bool" where
  "fits_sec K L s \<longleftrightarrow> fits K (security_metrics_map s) \<and> syscall_allowlist s = L"

datatype syscall_class = Any_Call | Suspicious_Call | Escalation

fun in_class :: "(u32, u8) bpf_map \<Rightarrow> syscall_class \<Rightarrow> u32 \<Rightarrow> bool" where
  "in_class L Any_Call nr \<longleftrightarrow> True"
| "in_class L Suspicious_Call nr \<longleftrightarrow> is_suspicious_syscall L nr"
| "in_class L Escalation nr \<longleftrightarrow> is_suspicious_syscall L nr \<and> escalates nr"

primrec class_counter :: "syscall_class \<Rightarrow> security_metrics \<Rightarrow> u64" where
  "class_counter Any_Call = total_syscalls"
| "class_counter Suspicious_Call = suspicious_syscalls"
| "class_counter Escalation = privilege_escalation_attempts"

declare class_counter.simps [simp del]

fun calls :: "(u32, u8) bpf_map \<Rightarrow> syscall_class \<Rightarrow> u64 \<Rightarrow> sec_hook \<Rightarrow> bool" where
  "calls L c cg (Sys_Enter E ctx) \<longleftrightarrow> get_cgroup_id E = cg \<and> in_class L c (ucast (ra_args ctx 1))"
| "calls L c cg _ \<longleftrightarrow> False"

lemma class_charge:
  "class_counter c (metrics_new now) = (if c = Any_Call then 1 else 0)"
  "class_counter c (charge_syscall now d) = class_counter c d + (if c = Any_Call then 1 else 0)"
  "class_counter c (charge_suspicious nr d) = class_counter c d +
     (if c = Suspicious_Call \<or> c = Escalation \<and> escalates nr then 1 else 0)"
  "class_counter c (charge_exec susp root d) = class_counter c d"
  "class_counter c (d\<lparr>sensitive_file_access := x\<rparr>) = class_counter c d"
  "class_counter c (d\<lparr>system_file_modifications := x\<rparr>) = class_counter c d"
  "class_counter c (d\<lparr>memory_violations := x\<rparr>) = class_counter c d"
  by (cases c; simp add: class_counter.simps metrics_new_def charge_syscall_def charge_suspicious_def charge_exec_def
      security_metrics_zero_def Let_def)+

lemma total_same: "(\<And>d. f (upd d) = f d) \<Longrightarrow> map_total f (map_modify m k upd) k' = map_total f m k'"
  by (auto simp: map_total_def map_simps split: option.split)

lemma count_call_present:
  "map_lookup m cg \<noteq> None \<or> map_room m \<Longrightarrow> map_lookup (count_call now cg m) cg \<noteq> None"
  by (auto simp: count_call_def map_simps split: option.split)

lemma count_call_total:
  "map_lookup m cg \<noteq> None \<or> map_room m \<Longrightarrow>
     map_total (class_counter c) (count_call now cg m) k =
       map_total (class_counter c) m k + (if k = cg \<and> c = Any_Call then 1 else 0)"
  unfolding count_call_def by (subst charge_total [OF _ refl]) (simp_all add: class_charge)

lemma fits_count_call: "fits K m \<Longrightarrow> cg \<in> K \<Longrightarrow> fits K (count_call now cg m)"
  unfolding count_call_def by (rule fits_charge)

lemma metrics_sys_enter:
  assumes "map_lookup (security_metrics_map s) (get_cgroup_id E) \<noteq> None \<or> map_room (security_metrics_map s)"
  shows "security_metrics_map (after (trace_sys_enter E ctx s)) =
      (if is_suspicious_syscall (syscall_allowlist s) (ucast (ra_args ctx 1))
       then map_modify (count_call (ktime E 0) (get_cgroup_id E) (security_metrics_map s)) (get_cgroup_id E)
              (charge_suspicious (ucast (ra_args ctx 1)))
       else count_call (ktime E 0) (get_cgroup_id E) (security_metrics_map s))"
  by (simp add: trace_sys_enter_def after_def Let_def count_call_present [OF assms])

lemma suspicious_call_total:
  assumes "map_lookup m k \<noteq> None \<or> map_room m"
  shows "map_total (class_counter c) (map_modify (count_call now k m) k (charge_suspicious nr)) cg =
    map_total (class_counter c) m cg + (if cg = k \<and> (c = Escalation \<longrightarrow> escalates nr) then 1 else 0)"
  using assms
  by (subst modify_total [where f = "class_counter c" and upd = "charge_suspicious nr",
        OF count_call_present [OF assms] class_charge(3)])
    (cases c; simp add: count_call_total)

lemma count_sys_enter:
  assumes "map_lookup (security_metrics_map s) (get_cgroup_id E) \<noteq> None \<or> map_room (security_metrics_map s)"
  shows "map_total (class_counter c) (security_metrics_map (after (trace_sys_enter E ctx s))) cg =
    map_total (class_counter c) (security_metrics_map s) cg +
      (if calls (syscall_allowlist s) c cg (Sys_Enter E ctx) then 1 else 0)"
  unfolding metrics_sys_enter [OF assms]
  by (cases c) (auto simp: suspicious_call_total [OF assms] count_call_total [OF assms])

lemma count_others:
  assumes "\<forall>E ctx. e \<noteq> Sys_Enter E ctx"
  shows "map_total (class_counter c) (security_metrics_map (sec_step e s)) cg =
    map_total (class_counter c) (security_metrics_map s) cg"
proof (cases e)
  case (File_Access E ctx)
  then show ?thesis
    by (simp add: trace_file_access_def after_def Let_def total_same class_charge split: option.split)
qed (use assms in \<open>auto simp: metrics_exec trace_tcp_connect_def trace_memory_pressure_def
    trace_oom_event_def memory_violation_def Let_def total_same class_charge split: option.split\<close>)

lemma fits_sys_enter:
  "fits K (security_metrics_map s) \<Longrightarrow> get_cgroup_id E \<in> K \<Longrightarrow>
     fits K (security_metrics_map (after (trace_sys_enter E ctx s)))"
  by (subst metrics_sys_enter [OF fits_room]) (simp_all add: fits_count_call fits_modify)

lemma fits_others:
  assumes "\<forall>E ctx. e \<noteq> Sys_Enter E ctx" and "fits K (security_metrics_map s)"
  shows "fits K (security_metrics_map (sec_step e s))"
proof (cases e)
  case (File_Access E ctx)
  with assms show ?thesis
    by (simp add: trace_file_access_def after_def Let_def fits_modify split: option.split)
qed (use assms in \<open>auto simp: metrics_exec trace_tcp_connect_def trace_memory_pressure_def
    trace_oom_event_def memory_violation_def Let_def fits_modify split: option.split\<close>)

interpretation sec_counts: counting_machine sec_step "\<lambda>e. get_cgroup_id (sec_env e) \<in> K"
    "fits_sec K L" "\<lambda>e. if calls L c cg e then 1 else 0"
    "\<lambda>s. map_total (class_counter c) (security_metrics_map s) cg" for K L c cg
proof
  fix e s
  assume K: "get_cgroup_id (sec_env e) \<in> K" and s: "fits_sec K L s"
  show "fits_sec K L (sec_step e s)"
    using K s fits_others [of e K s] fits_sys_enter [of K s]
    by (cases e) (simp_all add: fits_sec_def frame_step del: sec_step.simps, simp)
  show "map_total (class_counter c) (security_metrics_map (sec_step e s)) cg =
      map_total (class_counter c) (security_metrics_map s) cg + (if calls L c cg e then 1 else 0)"
  proof (cases "\<exists>E ctx. e = Sys_Enter E ctx")
    case True
    then obtain E ctx where e: "e = Sys_Enter E ctx" by blast
    then have "map_lookup (security_metrics_map s) (get_cgroup_id E) \<noteq> None \<or> map_room (security_metrics_map s)"
      using K s by (auto simp: fits_sec_def dest: fits_room)
    with e s show ?thesis by (simp add: count_sys_enter fits_sec_def)
  next
    case False
    then have "\<not> calls L c cg e" by (cases e) auto
    with False show ?thesis by (simp add: count_others)
  qed
qed

text \<open>Sign extension commutes with the small shifts of a collision.\<close>

lemma scast_shift:
  "(a :: u8) < 127 \<Longrightarrow> (scast (a + 1) :: u64) = scast a + 1"
  "33 < (b :: u8) \<Longrightarrow> b < 128 \<Longrightarrow> (scast (b - 33) :: u64) = scast b - 33"
proof -
  assume a: "(a :: u8) < 127"
  then have "unat a < 127" by (simp add: word_less_nat_alt)
  then have n: "unat (a + 1) = unat a + 1" by (subst unat_add_lem [THEN iffD1]) simp_all
  with \<open>unat a < 127\<close> have "a + 1 < 128" by (simp add: word_less_nat_alt)
  moreover have "a < 128" using a by (rule order.strict_trans) simp
  moreover have "(ucast (a + 1) :: u64) = of_nat (unat (a + 1))" by (rule of_nat_unat [symmetric])
  then have "(ucast (a + 1) :: u64) = ucast a + 1"
    by (simp only: n of_nat_add of_nat_unat of_nat_1)
  ultimately show "(scast (a + 1) :: u64) = scast a + 1" by (simp add: scast_ascii)
next
  assume b: "33 < (b :: u8)" "b < 128"
  then have n: "unat (b - 33) = unat b - 33" "33 < unat b" "unat b < 128"
    by (simp_all add: unat_sub word_less_nat_alt word_le_nat_alt)
  then have "b - 33 < 128" by (simp add: word_less_nat_alt)
  moreover have "(ucast (b - 33) :: u64) = of_nat (unat (b - 33))" by (rule of_nat_unat [symmetric])
  then have "(ucast (b - 33) :: u64) = ucast b - 33"
    using n(2) by (simp only: n(1) of_nat_diff less_imp_le of_nat_unat of_nat_numeral)
  ultimately show "(scast (b - 33) :: u64) = scast b - 33" using b by (simp add: scast_ascii)
qed

section \<open>Sensitive files\<close>

lemma policy_ascii: "(path, l) \<in> set sensitivePaths \<Longrightarrow> ascii path \<and> 0 < l"
  by (auto simp: sensitivePaths_def ascii_def bytes_of_def of_char_def)

text \<open>A name whose hash is that of a path of the policy is reported at the policy's level.\<close>

lemma file_access_reports:
  assumes "sec_inv s" and "buf = user_str E (se_args ctx 1) 256" and "length buf = 256"
    and "(path, l) \<in> set sensitivePaths" and "djb2 (str_of buf) = hashString path"
    and "map_lookup (security_metrics_map s) (get_cgroup_id E) \<noteq> None" and "reserve E 0 = Some old"
  shows "\<exists>s'. trace_file_access E ctx s = Inr s' \<and>
    map_total sensitive_file_access (security_metrics_map s') (get_cgroup_id E) =
      map_total sensitive_file_access (security_metrics_map s) (get_cgroup_id E) + 1 \<and>
    (\<exists>ev evs. security_events s' = security_events s @ ev # evs \<and> ev_event_type ev = 4 \<and>
       ev_severity ev = ucast l \<and> ev_cgroup_id ev = get_cgroup_id E \<and> ev_pid ev = pid_of (pid_tgid E))"
proof -
  have "map_lookup (sensitive_paths_map s) (djb2 (str_of buf)) = Some l"
    using assms(1,4,5) policy_member by (simp add: sec_inv_def)
  moreover have "0 < l" using assms(4) policy_ascii by blast
  ultimately show ?thesis
    using assms(2,3,6,7)
    by (auto simp: trace_file_access_def Let_def hash_path_buffer dirs_found emit_security_event_def
        modify_total total_same hash_map.keys_modify map_simps split: option.split)
qed

lemma reachable_sec_inv: "sec_inv (fold sec_step es sec_init)"
  by (rule sec_machine.run_inv [OF _ sec_inv_init]) (simp add: list_all_iff)

section \<open>Examples\<close>

definition sec_event0 :: security_event where
  "sec_event0 = \<lparr>ev_timestamp = 0, ev_cgroup_id = 0, ev_pid = 0, ev_event_type = 0, ev_severity = 0,
     ev_value1 = 0, ev_value2 = 0, ev_description = replicate 256 0\<rparr>"

text \<open>A process that opens the file of the given name.\<close>

definition opens :: "string \<Rightarrow> security_event kenv" where
  "opens name = env0\<lparr>reserve := (\<lambda>_. Some sec_event0),
     user_str := (\<lambda>_ n. read_str (replicate n 0) (bytes_of name))\<rparr>"

definition call_ctx :: "u64 \<Rightarrow> bpf_raw_tracepoint_args" where
  "call_ctx nr = \<lparr>ra_args = (\<lambda>i. if i = 1 then nr else 0)\<rparr>"

definition open_ctx :: trace_event_raw_sys_enter where
  "open_ctx = \<lparr>se_ent = entry0, se_id = 257, se_args = (\<lambda>_. 4096)\<rparr>"

text \<open>User 1000 executes the file of the given name.\<close>

definition executing :: "string \<Rightarrow> security_event kenv" where
  "executing name = env0\<lparr>cur_task := 1, kmem := kheap0\<lparr>
     h_task := (\<lambda>p. if p = 1 then Some \<lparr>t_mm = 2, t_pid = 7, t_real_parent = 1, t_cred = 3, t_cgroups = 0\<rparr> else None),
     h_cred := (\<lambda>p. if p = 3 then Some \<lparr>c_uid = 1000, c_gid = 1000\<rparr> else None),
     h_mm_exe_file := (\<lambda>p. if p = 2 then Some 4 else None),
     h_file_f_path_dentry := (\<lambda>p. if p = 4 then Some 5 else None),
     h_dentry := (\<lambda>p. if p = 5 then Some \<lparr>d_name_name = 6\<rparr> else None),
     h_str := (\<lambda>p. if p = 6 then Some (bytes_of name) else None)\<rparr>\<rparr>"

definition exec_ctx :: trace_event_raw_sched_process_exec where
  "exec_ctx = \<lparr>pe_ent = entry0, pe_data_loc_filename = 0, pe_pid = 7, pe_old_pid = 7\<rparr>"

lemma sec_example_simps [simp]:
  "get_cgroup_id (opens name) = 0" "reserve (opens name) n = Some sec_event0"
  "user_str (opens name) a n = read_str (replicate n 0) (bytes_of name)"
  "ra_args (call_ctx nr) (Suc 0) = nr"
  "exe_name (executing name) = read_str (replicate 256 0) (bytes_of name)"
  by (simp_all add: opens_def env0_def get_cgroup_id_def core_read_def kheap0_def call_ctx_def
      exe_name_def executing_def)

lemma room_init:
  "map_room (security_metrics_map sec_init)" "map_room (process_map sec_init)"
  "map_lookup (security_metrics_map sec_init) cg = None"
  by (simp_all add: sec_init_def initializeSecurityPolicies_def sec_loaded_def map_room_def new_map_def
      map_lookup_def)

text \<open>After one call of read by cgroup 0.\<close>

definition sec_seen :: sec_state where
  "sec_seen = fold sec_step [Sys_Enter (opens []) (call_ctx 0)] sec_init"

lemma sec_seen_known: "map_lookup (security_metrics_map sec_seen) 0 \<noteq> None"
proof -
  have "map_lookup (security_metrics_map sec_init) (get_cgroup_id (opens [])) \<noteq> None \<or>
      map_room (security_metrics_map sec_init)"
    by (simp add: room_init)
  from metrics_sys_enter [OF this, of "call_ctx 0"] count_call_present [OF this, of "ktime (opens []) 0"]
  show ?thesis by (simp add: sec_seen_def is_suspicious_syscall_def suspicious_numbers_def)
qed

text \<open>Counting from the installed policy on.\<close>

lemma fits_sec_init:
  "finite K \<Longrightarrow> card K \<le> 10000 \<Longrightarrow> fits_sec K (syscall_allowlist sec_init) sec_init"
  by (simp add: fits_sec_def sec_init_def initializeSecurityPolicies_def sec_loaded_def fits_new)

lemma class_counts:
  assumes "finite K" and "card K \<le> 10000" and "list_all (\<lambda>e. get_cgroup_id (sec_env e) \<in> K) es"
  shows "map_total (class_counter c) (security_metrics_map (fold sec_step es sec_init)) cg =
    of_nat (length (filter (calls (syscall_allowlist sec_init) c cg) es))"
  using sec_counts.run_counter [OF assms(3) fits_sec_init [OF assms(1,2)]]
  by (simp add: sum_list_indicator map_total_def room_init)

section \<open>Properties\<close>

text \<open>
  Property C4. System calls are counted exactly: from the policy tables that user space installs,
  over any run of all hooks with at most 10000 cgroups, a cgroup's total, suspicious and escalation
  counters are the numbers of its calls, of its calls that are on the list and not allowed, and of
  those among them that change user or group ids (modulo \<open>2 ^ 64\<close>).
\<close>

theorem syscall_counts_exact:
  assumes "finite K" and "card K \<le> 10000" and "list_all (\<lambda>e. get_cgroup_id (sec_env e) \<in> K) es"
    and "s = fold sec_step es sec_init" and "L = syscall_allowlist sec_init"
  shows "map_total total_syscalls (security_metrics_map s) cg =
      of_nat (length (filter (calls L Any_Call cg) es)) \<and>
    map_total suspicious_syscalls (security_metrics_map s) cg =
      of_nat (length (filter (calls L Suspicious_Call cg) es)) \<and>
    map_total privilege_escalation_attempts (security_metrics_map s) cg =
      of_nat (length (filter (calls L Escalation cg) es))"
proof -
  note counts = class_counts [OF assms(1-3), folded assms(4,5), where cg = cg]
  from counts [of Any_Call] counts [of Suspicious_Call] counts [of Escalation] show ?thesis
    by (simp add: class_counter.simps)
qed

theorem syscall_counts_exact_witness:
  "map_total total_syscalls (security_metrics_map (fold sec_step
     [Sys_Enter (opens []) (call_ctx 0), Sys_Enter (opens []) (call_ctx 105)] sec_init)) 0 = 2"
  using syscall_counts_exact [of "{0}" "[Sys_Enter (opens []) (call_ctx 0), Sys_Enter (opens []) (call_ctx 105)]"
      _ "syscall_allowlist sec_init" 0]
  by (simp del: sec_step.simps)

text \<open>
  Exactly when the hook on system calls stores through a null pointer: the
  cgroup has no metrics entry, the table of entries is full, and the call is suspicious. Nothing in
  the code checks the second lookup.
\<close>

theorem sys_enter_null_deref:
  "(\<exists>s'. trace_sys_enter E ctx s = Inl (NullDeref, s')) \<longleftrightarrow>
     map_lookup (security_metrics_map s) (get_cgroup_id E) = None \<and>
     \<not> map_room (security_metrics_map s) \<and>
     is_suspicious_syscall (syscall_allowlist s) (ucast (ra_args ctx 1))"
  by (auto simp: trace_sys_enter_def Let_def count_call_def map_simps split: option.splits)

text \<open>
  Property C29. How an executed program is classified: the hook never reads outside its buffer, and
  marks the process as suspicious exactly if its file name contains the name of one of the eight
  tools as a substring, or it runs as root with a process id other than 1.
\<close>

theorem exec_classified:
  assumes "map_lookup (process_map s) (pid_of (pid_tgid E)) \<noteq> None \<or> map_room (process_map s)"
  shows "\<exists>s' proc. trace_process_exec E ctx s = Inr s' \<and>
    map_lookup (process_map s') (pid_of (pid_tgid E)) = Some proc \<and> pi_filename proc = exe_name E \<and>
    pi_is_suspicious proc =
      of_bool ((\<exists>tool \<in> set attack_tools. sublist (bytes_of tool) (str_of (exe_name E))) \<or>
               pi_uid proc = 0 \<and> pi_pid proc \<noteq> 1)"
  using assms
  by (simp add: trace_process_exec_def Let_def tools_found length_exe_name found_in_def [symmetric] map_simps)

theorem exec_classified_witness:
  "\<exists>s' proc. trace_process_exec (executing ''rsync'') exec_ctx sec_init = Inr s' \<and>
     map_lookup (process_map s') 1 = Some proc \<and> pi_is_suspicious proc = 1"
proof -
  have "sublist (bytes_of ''nc'') (bytes_of ''rsync'')"
    by (simp add: bytes_of_def of_char_def sublist_code)
  moreover have "str_of (exe_name (executing ''rsync'')) = bytes_of ''rsync''"
    by (simp add: str_of_read_str bytes_of_def of_char_def)
  ultimately have "\<exists>tool \<in> set attack_tools. sublist (bytes_of tool) (str_of (exe_name (executing ''rsync'')))"
    by (auto simp: attack_tools_def)
  then show ?thesis
    using exec_classified [of sec_init "executing ''rsync''" exec_ctx]
    by (auto simp: room_init executing_def env0_def pid_of_def drop_bit_eq_div)
qed

text \<open>
  Connections never raise an alert: no hook counts a suspicious connection, so in
  every state reachable from the installed policy the hook on \<open>tcp_connect\<close> does nothing.
\<close>

theorem tcp_connect_never_alerts:
  "trace_tcp_connect E ctx (fold sec_step es sec_init) = fold sec_step es sec_init"
  using reachable_sec_inv [of es]
  by (auto simp: trace_tcp_connect_def Let_def sec_inv_def dest: all_entries_lookup split: option.split)

text \<open>
  The policy of user space reaches the program: after any run, a process of a known
  cgroup that opens a file under exactly one of the policy's names is counted, and the first event
  of the invocation carries the severity of the policy. This rests on the agreement of the Go and
  the C hash on the policy's names, and on the ten hashes being different.
\<close>

theorem policy_path_reported:
  assumes "s = fold sec_step es sec_init" and "(path, l) \<in> set sensitivePaths"
    and "buf = user_str E (se_args ctx 1) 256" and "length buf = 256" and "str_of buf = bytes_of path"
    and "map_lookup (security_metrics_map s) (get_cgroup_id E) \<noteq> None" and "reserve E 0 = Some old"
  shows "\<exists>s'. trace_file_access E ctx s = Inr s' \<and>
    map_total sensitive_file_access (security_metrics_map s') (get_cgroup_id E) =
      map_total sensitive_file_access (security_metrics_map s) (get_cgroup_id E) + 1 \<and>
    (\<exists>ev evs. security_events s' = security_events s @ ev # evs \<and> ev_event_type ev = 4 \<and>
       ev_severity ev = ucast l)"
proof -
  have "djb2 (str_of buf) = hashString path"
    using assms(2,5) policy_ascii hashString_djb2 by metis
  from file_access_reports [OF _ assms(3,4,2) this assms(6,7)] show ?thesis
    unfolding assms(1) using reachable_sec_inv by blast
qed

theorem policy_path_reported_witness:
  "\<exists>s'. trace_file_access (opens ''/etc/shadow'') open_ctx sec_seen = Inr s' \<and>
     (\<exists>ev evs. security_events s' = security_events sec_seen @ ev # evs \<and> ev_severity ev = 3)"
proof -
  have "str_of (read_str (replicate 256 0) (bytes_of ''/etc/shadow'')) = bytes_of ''/etc/shadow''"
    by (rule str_of_read_str) (simp_all add: bytes_of_def of_char_def)
  then show ?thesis
    using policy_path_reported [OF sec_seen_def, of "''/etc/shadow''" 3 _ "opens ''/etc/shadow''" open_ctx sec_event0]
      sec_seen_known
    by (auto simp: sensitivePaths_def length_read_str)
qed

text \<open>
  The check on sensitive files is by hash and has false positives that can be
  written down: raising one character of a policy name by one and lowering the next by 33 gives a
  different name that is reported in the same way.
\<close>

theorem colliding_path_reported:
  assumes "s = fold sec_step es sec_init" and "(path, l) \<in> set sensitivePaths"
    and "bytes_of path = xs @ a # b # ys" and "a < 127" and "33 < b" and "b < 128"
    and "buf = user_str E (se_args ctx 1) 256" and "length buf = 256"
    and "str_of buf = xs @ (a + 1) # (b - 33) # ys"
    and "map_lookup (security_metrics_map s) (get_cgroup_id E) \<noteq> None" and "reserve E 0 = Some old"
  shows "str_of buf \<noteq> bytes_of path \<and> (\<exists>s'. trace_file_access E ctx s = Inr s' \<and>
    map_total sensitive_file_access (security_metrics_map s') (get_cgroup_id E) =
      map_total sensitive_file_access (security_metrics_map s) (get_cgroup_id E) + 1 \<and>
    (\<exists>ev evs. security_events s' = security_events s @ ev # evs \<and> ev_event_type ev = 4 \<and>
       ev_severity ev = ucast l))"
proof -
  have "(scast (a + 1) :: u64) = scast a + 1" and "(scast (b - 33) :: u64) = scast b - 33"
    using assms(4-6) by (simp_all add: scast_shift)
  then have "djb2 (str_of buf) = djb2 (bytes_of path)"
    unfolding assms(3,9) by (rule djb2_shift)
  also have "\<dots> = hashString path" using assms(2) policy_ascii hashString_djb2 by metis
  finally have "\<exists>s'. trace_file_access E ctx s = Inr s' \<and>
    map_total sensitive_file_access (security_metrics_map s') (get_cgroup_id E) =
      map_total sensitive_file_access (security_metrics_map s) (get_cgroup_id E) + 1 \<and>
    (\<exists>ev evs. security_events s' = security_events s @ ev # evs \<and> ev_event_type ev = 4 \<and>
       ev_severity ev = ucast l)"
    using file_access_reports [OF _ assms(7,8,2) _ assms(10,11)] reachable_sec_inv assms(1) by blast
  then show ?thesis using assms(3,9) by simp
qed

theorem colliding_path_reported_witness:
  "\<exists>s'. trace_file_access (opens ''/etc/passxC'') open_ctx sec_seen = Inr s' \<and>
     map_total sensitive_file_access (security_metrics_map s') 0 =
       map_total sensitive_file_access (security_metrics_map sec_seen) 0 + 1"
proof -
  have "str_of (read_str (replicate 256 0) (bytes_of ''/etc/passxC'')) = bytes_of ''/etc/passxC''"
    by (rule str_of_read_str) (simp_all add: bytes_of_def of_char_def)
  then show ?thesis
    using colliding_path_reported [OF sec_seen_def, of "''/etc/passwd''" 3
        "[47, 101, 116, 99, 47, 112, 97, 115, 115]" 119 100 "[]" _ "opens ''/etc/passxC''" open_ctx sec_event0]
      sec_seen_known
    by (auto simp: sensitivePaths_def length_read_str bytes_of_def of_char_def)
qed

end
