(* ===== verification/Kernel_Memory.thy ===== *)
theory Kernel_Memory
  imports Event_Layout Memory_Tracker Security_Monitor
begin

text \<open>
  From the bytes of kernel memory to the objects of the model. The programs walk kernel objects with
  \<open>BPF_CORE_READ\<close>, which loads bytes at the offsets of \<^verbatim>\<open>vmlinux.h\<close>; the models of the programs read
  records from one heap per type (\<open>kheap\<close>). \<open>walk\<close> is the former, \<open>heap_of\<close> the abstraction of
  memory to the latter, and the refinement theorem says that the programs compute the same.
\<close>

section \<open>Members with their offsets\<close>

text \<open>
  As \<open>find_member\<close>, with the offset in bytes: members of unnamed structures and unions are found
  at the offset of the unnamed member plus their own.
\<close>

fun member_at :: "string \<Rightarrow> ctype \<Rightarrow> (nat \<times> ctype) option"
  and member_from :: "nat \<Rightarrow> string \<Rightarrow> member list \<Rightarrow> (nat \<times> ctype) option"
  and member_any :: "string \<Rightarrow> member list \<Rightarrow> (nat \<times> ctype) option" where
  "member_at f (Struct ms) = member_from 0 f ms"
| "member_at f (Union ms) = member_any f ms"
| "member_at f (Scalar n) = None"
| "member_at f (Ptr s) = None"
| "member_at f (Arr n t) = None"
| "member_from pos f [] = None"
| "member_from pos f (Mem x b t # ms) =
     (if x = f then Some (place pos (Mem x b t) div 8, t)
      else if x = [] then
        case member_at f t of
          Some (off, u) \<Rightarrow> Some (place pos (Mem x b t) div 8 + off, u)
        | None \<Rightarrow> member_from (place pos (Mem x b t) + width (Mem x b t)) f ms
      else member_from (place pos (Mem x b t) + width (Mem x b t)) f ms)"
| "member_any f [] = None"
| "member_any f (Mem x b t # ms) =
     (if x = f then Some (0, t)
      else if x = [] then
        case member_at f t of Some r \<Rightarrow> Some r | None \<Rightarrow> member_any f ms
      else member_any f ms)"

lemma member_at_type:
  "map_option snd (member_at f t) = find_member f t"
  "map_option snd (member_from pos f ms) = find_in f ms"
  "map_option snd (member_any f ms) = find_in f ms"
  by (induction f t and pos f ms and f ms rule: member_at_member_from_member_any.induct)
    (auto split: option.splits)

text \<open>The offset and type at the end of a path \<open>a.b.c\<close>.\<close>

fun path_at :: "ctype \<Rightarrow> string list \<Rightarrow> (nat \<times> ctype) option" where
  "path_at t [] = Some (0, t)"
| "path_at t (f # fs) =
     (case member_at f t of
        None \<Rightarrow> None
      | Some (off, u) \<Rightarrow> map_option (\<lambda>(off', v). (off + off', v)) (path_at u fs))"

lemma path_at_type: "map_option snd (path_at t fs) = member_type t fs"
proof (induction fs arbitrary: t)
  case (Cons f fs)
  show ?case
  proof (cases "member_at f t")
    case None
    with member_at_type(1) [of f t] show ?thesis by simp
  next
    case (Some r)
    then have "find_member f t = Some (snd r)" using member_at_type(1) [of f t] by simp
    with Some Cons [of "snd r"] show ?thesis
      by (simp add: option.map_comp comp_def case_prod_beta)
  qed
qed simp

definition offset_of :: "ctype \<Rightarrow> string list \<Rightarrow> nat" where
  "offset_of t fs = (case path_at t fs of None \<Rightarrow> 0 | Some (off, u) \<Rightarrow> off)"

lemma path_at_known: "member_type t fs = Some u \<Longrightarrow> path_at t fs = Some (offset_of t fs, u)"
  using path_at_type [of t fs] by (auto simp: offset_of_def)

section \<open>Loads\<close>

type_synonym memory = "u64 \<Rightarrow> u8 option"

text \<open>
  \<open>bpf_probe_read_kernel\<close> of \<open>n\<close> bytes as a little-endian number; a fault anywhere delivers zero.
\<close>

fun bytes_at :: "memory \<Rightarrow> u64 \<Rightarrow> nat \<Rightarrow> u8 list option" where
  "bytes_at mem p 0 = Some []"
| "bytes_at mem p (Suc n) =
     (case (mem p, bytes_at mem (p + 1) n) of (Some b, Some bs) \<Rightarrow> Some (b # bs) | _ \<Rightarrow> None)"

definition load :: "memory \<Rightarrow> u64 \<Rightarrow> nat \<Rightarrow> u64" where
  "load mem p n = (case bytes_at mem p n of None \<Rightarrow> 0 | Some bs \<Rightarrow> le_word bs)"

text \<open>\<open>BPF_CORE_READ(p, path1, path2, ...)\<close> for \<open>p\<close> a pointer to the named structure.\<close>

fun walk :: "(string \<Rightarrow> ctype option) \<Rightarrow> memory \<Rightarrow> string \<Rightarrow> u64 \<Rightarrow> string list list \<Rightarrow> u64" where
  "walk types mem s p [] = p"
| "walk types mem s p (path # paths) =
     (case types s of
        None \<Rightarrow> 0
      | Some t \<Rightarrow>
        (case path_at t path of
           None \<Rightarrow> 0
         | Some (off, u) \<Rightarrow>
             walk types mem (case u of Ptr s' \<Rightarrow> s' | _ \<Rightarrow> []) (load mem (p + of_nat off) (size_of u)) paths))"

section \<open>The objects of the model\<close>

definition heap_of :: "memory \<Rightarrow> (u64 \<Rightarrow> u8 list option) \<Rightarrow> kheap" where
  "heap_of mem str =
     (let word = (\<lambda>t fs p. load mem (p + of_nat (offset_of t fs)) 8);
          half = (\<lambda>t fs p. ucast (load mem (p + of_nat (offset_of t fs)) 4) :: u32)
      in \<lparr>h_task = (\<lambda>p. Some \<lparr>t_mm = word task_struct_ct [''mm''] p,
              t_pid = half task_struct_ct [''pid''] p,
              t_real_parent = word task_struct_ct [''real_parent''] p,
              t_cred = word task_struct_ct [''cred''] p,
              t_cgroups = word task_struct_ct [''cgroups''] p\<rparr>),
          h_cred = (\<lambda>p. Some \<lparr>c_uid = half cred_ct [''uid'', ''val''] p,
              c_gid = half cred_ct [''gid'', ''val''] p\<rparr>),
          h_css_dfl_cgrp = (\<lambda>p. Some (word css_set_ct [''dfl_cgrp''] p)),
          h_cgroup_kn = (\<lambda>p. Some (word cgroup_ct [''kn''] p)),
          h_kernfs_id = (\<lambda>p. Some (word kernfs_node_ct [''id''] p)),
          h_mm_exe_file = (\<lambda>p. Some (word mm_struct_ct [''exe_file''] p)),
          h_file_f_path_dentry = (\<lambda>p. Some (word file_ct [''f_path'', ''dentry''] p)),
          h_dentry = (\<lambda>p. Some \<lparr>d_name_name = word dentry_ct [''d_name'', ''name''] p\<rparr>),
          h_str = str\<rparr>)"

lemma member_types:
  "member_type task_struct_ct [''mm''] = Some (Ptr ''mm_struct'')"
  "member_type task_struct_ct [''pid''] = Some (Scalar 4)"
  "member_type task_struct_ct [''real_parent''] = Some (Ptr ''task_struct'')"
  "member_type task_struct_ct [''cred''] = Some (Ptr ''cred'')"
  "member_type task_struct_ct [''cgroups''] = Some (Ptr ''css_set'')"
  "member_type cred_ct [''uid'', ''val''] = Some (Scalar 4)"
  "member_type cred_ct [''gid'', ''val''] = Some (Scalar 4)"
  "member_type css_set_ct [''dfl_cgrp''] = Some (Ptr ''cgroup'')"
  "member_type cgroup_ct [''kn''] = Some (Ptr ''kernfs_node'')"
  "member_type kernfs_node_ct [''id''] = Some (Scalar 8)"
  "member_type mm_struct_ct [''exe_file''] = Some (Ptr ''file'')"
  "member_type file_ct [''f_path'', ''dentry''] = Some (Ptr ''dentry'')"
  "member_type dentry_ct [''d_name'', ''name''] = Some (Ptr [])"
  by (simp_all add: object_members width_defs)

lemmas path_offsets = member_types [THEN path_at_known]

text \<open>Each walk on memory is the walk on the objects.\<close>

lemmas walk_simps = known_types path_offsets path_defs heap_of_def core_read_def Let_def

declare path_at.simps [simp del]

lemma walk_cgroup_id:
  "kmem E = heap_of mem str \<Longrightarrow>
     get_cgroup_id E = walk kernel_types mem ''task_struct'' (cur_task E) cgroup_id_path"
  by (simp add: get_cgroup_id_def walk_simps)

lemma walk_task:
  "core_read (h_task (heap_of mem str)) t_pid (core_read (h_task (heap_of mem str)) t_real_parent p) =
     ucast (walk kernel_types mem ''task_struct'' p ppid_path)"
  "core_read (h_cred (heap_of mem str)) c_uid (core_read (h_task (heap_of mem str)) t_cred p) =
     ucast (walk kernel_types mem ''task_struct'' p uid_path)"
  "core_read (h_cred (heap_of mem str)) c_gid (core_read (h_task (heap_of mem str)) t_cred p) =
     ucast (walk kernel_types mem ''task_struct'' p gid_path)"
  "core_read (h_mm_exe_file (heap_of mem str)) id (core_read (h_task (heap_of mem str)) t_mm p) =
     walk kernel_types mem ''task_struct'' p exe_file_path"
  "core_read (h_file_f_path_dentry (heap_of mem str)) id p =
     walk kernel_types mem ''file'' p exe_dentry_path"
  "core_read (h_dentry (heap_of mem str)) d_name_name p =
     walk kernel_types mem ''dentry'' p exe_name_path"
  by (simp_all add: walk_simps)

text \<open>The name of the executable, read from memory as \<^verbatim>\<open>trace_process_exec\<close> does.\<close>

definition exe_name_at :: "memory \<Rightarrow> (u64 \<Rightarrow> u8 list option) \<Rightarrow> u64 \<Rightarrow> u8 list" where
  "exe_name_at mem str p =
     (let file = walk kernel_types mem ''task_struct'' p exe_file_path;
          dentry = walk kernel_types mem ''file'' file exe_dentry_path
      in if file = 0 \<or> dentry = 0 then replicate 256 0
         else case str (walk kernel_types mem ''dentry'' dentry exe_name_path) of
                None \<Rightarrow> replicate 256 0
              | Some name \<Rightarrow> read_str (replicate 256 0) name)"

lemma walk_exe_name: "kmem E = heap_of mem str \<Longrightarrow> exe_name E = exe_name_at mem str (cur_task E)"
  unfolding exe_name_def exe_name_at_def by (simp add: walk_task Let_def) (simp add: heap_of_def Let_def)

lemma length_exe_name_at: "length (exe_name_at mem str p) = 256"
  by (auto simp: exe_name_at_def Let_def length_read_str split: option.split)

section \<open>Properties\<close>

text \<open>
  Property C20. The record heaps refine kernel memory: when the objects are those that the bytes of
  memory hold under the layout of \<^verbatim>\<open>vmlinux.h\<close>, the exec hook records for the process exactly what
  the pointer walks over memory deliver: parent, user, group, cgroup and executable name.
\<close>

theorem exec_reads_kernel_memory:
  assumes "kmem E = heap_of mem str"
    and "map_lookup (process_map s) (pid_of (pid_tgid E)) \<noteq> None \<or> map_room (process_map s)"
    and "at = walk kernel_types mem ''task_struct'' (cur_task E)"
  shows "\<exists>s' proc. trace_process_exec E ctx s = Inr s' \<and>
    map_lookup (process_map s') (pid_of (pid_tgid E)) = Some proc \<and>
    pi_ppid proc = ucast (at ppid_path) \<and> pi_uid proc = ucast (at uid_path) \<and>
    pi_gid proc = ucast (at gid_path) \<and> pi_cgroup_id proc = at cgroup_id_path \<and>
    pi_filename proc = exe_name_at mem str (cur_task E)"
  using assms(2) walk_cgroup_id [OF assms(1)] walk_exe_name [OF assms(1)]
  by (simp add: trace_process_exec_def Let_def tools_found length_exe_name_at map_simps assms(1,3) walk_task)

text \<open>Memory that holds the address of every byte, modulo 256.\<close>

definition small_memory :: memory where
  "small_memory p = Some (ucast p)"

theorem exec_reads_kernel_memory_witness:
  "\<exists>s' proc. trace_process_exec (env0\<lparr>kmem := heap_of small_memory (\<lambda>_. None), cur_task := 4096\<rparr>) exec_ctx sec_init
      = Inr s' \<and>
    map_lookup (process_map s') 1 = Some proc \<and> pi_filename proc = replicate 256 0"
  using exec_reads_kernel_memory [of "env0\<lparr>kmem := heap_of small_memory (\<lambda>_. None), cur_task := 4096\<rparr>"
      small_memory "\<lambda>_. None" sec_init _ exec_ctx]
  by (auto simp: room_init env0_def pid_of_def drop_bit_eq_div exe_name_at_def Let_def)

end
