(* ===== verification/Schedules.thy ===== *)
theory Schedules
  imports Bpf_Prelude
begin

text \<open>
  Interleavings of invocations. Several CPUs run the same program on one shared map; each
  invocation is at some point of the program, and a scheduler picks whose step is next. The locale
  \<open>stepwise\<close> is the contract of a program without loops: every step of an unfinished invocation
  brings it nearer to its end, and a finished one does nothing. From the contract alone follow that
  every schedule spends only finitely many moves on unfinished invocations, and that a schedule
  which picks an invocation often enough finishes it, whatever the others do in between.
\<close>

section \<open>Moves\<close>

text \<open>The shared map and the invocations; the \<open>i\<close>-th one moves.\<close>

definition move_at :: "('m \<Rightarrow> 'p \<Rightarrow> 'm \<times> 'p) \<Rightarrow> nat \<Rightarrow> 'm \<times> 'p list \<Rightarrow> 'm \<times> 'p list" where
  "move_at exec i st =
     (if i < length (snd st)
      then (fst (exec (fst st) (snd st ! i)), (snd st)[i := snd (exec (fst st) (snd st ! i))])
      else st)"

lemma length_move_at [simp]: "length (snd (move_at exec i st)) = length (snd st)"
  by (simp add: move_at_def)

lemma length_moves [simp]: "length (snd (fold (move_at exec) is st)) = length (snd st)"
  by (induction "is" arbitrary: st) auto

text \<open>The moves of a schedule that are spent on an invocation with work left.\<close>

fun busy_moves :: "('m \<Rightarrow> 'p \<Rightarrow> 'm \<times> 'p) \<Rightarrow> ('p \<Rightarrow> nat) \<Rightarrow> nat list \<Rightarrow> 'm \<times> 'p list \<Rightarrow> nat" where
  "busy_moves exec left [] st = 0"
| "busy_moves exec left (i # is) st =
     (if i < length (snd st) \<and> 0 < left (snd st ! i) then 1 else 0) +
     busy_moves exec left is (move_at exec i st)"

lemma sum_list_replace:
  "i < length xs \<Longrightarrow> sum_list (map f (xs[i := x])) + f (xs ! i) = sum_list (map f xs) + (f x :: nat)"
  by (induction xs arbitrary: i) (auto split: nat.splits)

lemma count_list_replace:
  "i < length xs \<Longrightarrow> xs ! i \<noteq> y \<Longrightarrow>
     count_list (xs[i := x]) y = count_list xs y + (if x = y then 1 else 0)"
  by (induction xs arbitrary: i) (auto split: nat.splits simp: nth_Cons)

section \<open>Programs without loops\<close>

locale stepwise =
  fixes exec :: "'m \<Rightarrow> 'p \<Rightarrow> 'm \<times> 'p"
    and left :: "'p \<Rightarrow> nat"
  assumes exec_less: "0 < left p \<Longrightarrow> left (snd (exec m p)) < left p"
    and exec_done: "left p = 0 \<Longrightarrow> exec m p = (m, p)"
begin

lemma exec_le: "left (snd (exec m p)) \<le> left p - 1"
  using exec_less [of p m] exec_done [of p m] by (cases "left p = 0") auto

lemma move_left:
  "j < length (snd st) \<Longrightarrow>
     left (snd (move_at exec i st) ! j) \<le> left (snd st ! j) - (if i = j then 1 else 0)"
  using exec_le by (auto simp: move_at_def nth_list_update)

text \<open>Every own move counts; the moves of others do not matter.\<close>

lemma moves_left:
  "j < length (snd st) \<Longrightarrow> left (snd (fold (move_at exec) is st) ! j) \<le> left (snd st ! j) - count_list is j"
proof (induction "is" arbitrary: st)
  case (Cons i "is")
  then have "left (snd (fold (move_at exec) is (move_at exec i st)) ! j) \<le>
      left (snd (move_at exec i st) ! j) - count_list is j" by simp
  with move_left [of j st i] Cons.prems show ?case by (auto split: if_splits)
qed simp

lemma fair_finishes:
  "j < length (snd st) \<Longrightarrow> left (snd st ! j) \<le> count_list is j \<Longrightarrow>
     left (snd (fold (move_at exec) is st) ! j) = 0"
  using moves_left [of j st "is"] by simp

text \<open>The work left bounds the busy moves of every schedule.\<close>

lemma busy_step:
  assumes "i < length (snd st)"
  shows "sum_list (map left (snd (move_at exec i st))) + (if 0 < left (snd st ! i) then 1 else 0)
    \<le> sum_list (map left (snd st))"
  using sum_list_replace [OF assms, of left "snd (exec (fst st) (snd st ! i))"]
    exec_less [of "snd st ! i" "fst st"] exec_le [of "fst st" "snd st ! i"] assms
  by (auto simp: move_at_def)

lemma busy_bounded:
  "busy_moves exec left is st + sum_list (map left (snd (fold (move_at exec) is st)))
     \<le> sum_list (map left (snd st))"
proof (induction "is" arbitrary: st)
  case (Cons i "is")
  from Cons [of "move_at exec i st"] busy_step [of i st] show ?case
    by (cases "i < length (snd st)") (auto simp: move_at_def [of exec i st])
qed simp

lemma sum_left_bound: "(\<And>p. left p \<le> b) \<Longrightarrow> sum_list (map left ps) \<le> b * length ps"
  by (induction ps) (auto simp: add_mono)

end

end
