(* ===== verification/Uprobe.thy ===== *)
theory Uprobe
  imports Bpf_Env Schedules
begin

text \<open>
  \<^verbatim>\<open>src/watcher/internal/ebpf/bpf/uprobe/uprobe.c\<close>: the request counter that a uprobe
  on an HTTP handler bumps, per process id. First the program as one atomic function, then at the
  granularity at which invocations on several CPUs interleave: every map helper call and the
  atomic add is one step of \<open>hr_step\<close>. The main result is that no interleaving loses or invents a
  request, which rests on \<open>BPF_NOEXIST\<close> in the insertion.
\<close>

section \<open>The program\<close>

definition rps_count_init :: "(u32, u64) bpf_map" where
  "rps_count_init = new_map 1024"

definition handle_request :: "'ev kenv \<Rightarrow> (u32, u64) bpf_map \<Rightarrow> (u32, u64) bpf_map" where
  "handle_request E m =
     (let pid = pid_of (pid_tgid E); zero = 0 in
      case map_lookup m pid of
        Some _ \<Rightarrow> map_modify m pid (\<lambda>v. v + 1)
      | None \<Rightarrow>
          let m' = map_put_new m pid zero in
          case map_lookup m' pid of
            Some _ \<Rightarrow> map_modify m' pid (\<lambda>v. v + 1)
          | None \<Rightarrow> m')"

section \<open>Interleaved invocations\<close>

text \<open>Where an invocation for a process id is, and how it ended.\<close>

datatype hr_pc =
  Lookup u32 | Insert u32 | Relookup u32 | Add u32 | Counted u32 | Dropped u32

record uprobe_sys =
  rps_count :: "(u32, u64) bpf_map"
  calls :: "hr_pc list"

definition uprobe_init :: uprobe_sys where
  "uprobe_init = \<lparr>rps_count = rps_count_init, calls = []\<rparr>"

text \<open>The next step of an invocation: the map after it, and where it goes on.\<close>

fun hr_exec :: "(u32, u64) bpf_map \<Rightarrow> hr_pc \<Rightarrow> (u32, u64) bpf_map \<times> hr_pc" where
  "hr_exec m (Lookup pid) = (m, if map_lookup m pid \<noteq> None then Add pid else Insert pid)"
| "hr_exec m (Insert pid) = (map_put_new m pid 0, Relookup pid)"
| "hr_exec m (Relookup pid) = (m, if map_lookup m pid \<noteq> None then Add pid else Dropped pid)"
| "hr_exec m (Add pid) = (map_modify m pid (\<lambda>v. v + 1), Counted pid)"
| "hr_exec m (Counted pid) = (m, Counted pid)"
| "hr_exec m (Dropped pid) = (m, Dropped pid)"

inductive hr_step :: "uprobe_sys \<Rightarrow> uprobe_sys \<Rightarrow> bool" where
  enter: "hr_step s (s\<lparr>calls := calls s @ [Lookup pid]\<rparr>)"
| move: "i < length (calls s) \<Longrightarrow> hr_exec (rps_count s) (calls s ! i) = (m, pc) \<Longrightarrow>
     hr_step s (s\<lparr>rps_count := m, calls := (calls s)[i := pc]\<rparr>)"

inductive uprobe_reachable :: "uprobe_sys \<Rightarrow> bool" where
  init: "uprobe_reachable uprobe_init"
| step: "uprobe_reachable s \<Longrightarrow> hr_step s t \<Longrightarrow> uprobe_reachable t"

inductive_cases hr_stepE: "hr_step s t"

definition requests :: "uprobe_sys \<Rightarrow> u32 \<Rightarrow> nat" where
  "requests s pid = count_list (calls s) (Counted pid)"

definition pid_of_pc :: "hr_pc \<Rightarrow> u32" where
  "pid_of_pc pc = (case pc of Lookup p \<Rightarrow> p | Insert p \<Rightarrow> p | Relookup p \<Rightarrow> p | Add p \<Rightarrow> p
     | Counted p \<Rightarrow> p | Dropped p \<Rightarrow> p)"

section \<open>No lost and no invented requests\<close>

definition uprobe_inv :: "uprobe_sys \<Rightarrow> bool" where
  "uprobe_inv s \<longleftrightarrow>
     (\<forall>pid v. map_lookup (rps_count s) pid = Some v \<longrightarrow> v = of_nat (requests s pid)) \<and>
     (\<forall>pid. Add pid \<in> set (calls s) \<or> Counted pid \<in> set (calls s) \<longrightarrow>
        map_lookup (rps_count s) pid \<noteq> None)"

lemma uprobe_inv_init: "uprobe_inv uprobe_init"
  by (simp add: uprobe_inv_def uprobe_init_def rps_count_init_def)

lemma requests_none: "Counted pid \<notin> set (calls s) \<Longrightarrow> requests s pid = 0"
  by (simp add: requests_def)

lemma uprobe_inv_quiet:
  assumes "uprobe_inv s" and "i < length (calls s)" and "\<forall>p. calls s ! i \<noteq> Counted p"
    and "\<forall>p. pc \<noteq> Counted p" and "\<forall>p. pc = Add p \<longrightarrow> map_lookup (rps_count s) p \<noteq> None"
  shows "uprobe_inv (s\<lparr>calls := (calls s)[i := pc]\<rparr>)"
  using assms set_update_subset_insert [of "calls s" i pc]
  by (auto simp: uprobe_inv_def requests_def count_list_replace)

lemma uprobe_inv_insert:
  assumes inv: "uprobe_inv s" and i: "i < length (calls s)" and pc: "calls s ! i = Insert pid"
  shows "uprobe_inv (s\<lparr>rps_count := map_put_new (rps_count s) pid 0,
                       calls := (calls s)[i := Relookup pid]\<rparr>)"
proof -
  have "map_lookup (rps_count s) pid = None \<Longrightarrow> requests s pid = 0"
    using inv by (auto simp: uprobe_inv_def intro: requests_none)
  then show ?thesis
    using assms set_update_subset_insert [of "calls s" i "Relookup pid"]
    by (auto simp: uprobe_inv_def requests_def count_list_replace lookup_map_put_new
        split: if_splits)
qed

lemma uprobe_inv_add:
  assumes inv: "uprobe_inv s" and i: "i < length (calls s)" and pc: "calls s ! i = Add pid"
  shows "uprobe_inv (s\<lparr>rps_count := map_modify (rps_count s) pid (\<lambda>v. v + 1),
                       calls := (calls s)[i := Counted pid]\<rparr>)"
proof -
  have "Add pid \<in> set (calls s)" using i pc by (metis nth_mem)
  then have "map_lookup (rps_count s) pid \<noteq> None"
    using inv by (auto simp: uprobe_inv_def)
  then show ?thesis
    using assms set_update_subset_insert [of "calls s" i "Counted pid"]
    by (auto simp: uprobe_inv_def requests_def count_list_replace lookup_map_modify add.commute
        split: if_splits)
qed

lemma uprobe_inv_step: "hr_step s t \<Longrightarrow> uprobe_inv s \<Longrightarrow> uprobe_inv t"
proof (induction rule: hr_step.induct)
  case (enter s)
  then show ?case by (auto simp: uprobe_inv_def requests_def)
next
  case (move i s m pc)
  show ?case
  proof (cases "calls s ! i")
    case (Lookup pid)
    with move have "m = rps_count s"
      and "pc = (if map_lookup (rps_count s) pid \<noteq> None then Add pid else Insert pid)" by auto
    with move Lookup show ?thesis by (auto intro!: uprobe_inv_quiet)
  next
    case (Insert pid)
    with move show ?thesis by (auto dest: uprobe_inv_insert)
  next
    case (Relookup pid)
    with move have "m = rps_count s"
      and "pc = (if map_lookup (rps_count s) pid \<noteq> None then Add pid else Dropped pid)" by auto
    with move Relookup show ?thesis by (auto intro!: uprobe_inv_quiet)
  next
    case (Add pid)
    with move show ?thesis by (auto dest: uprobe_inv_add)
  next
    case (Counted pid)
    with move have "m = rps_count s" and "(calls s)[i := pc] = calls s"
      by (auto simp: list_update_same_conv)
    with move.prems show ?thesis by simp
  next
    case (Dropped pid)
    with move have "m = rps_count s" and "(calls s)[i := pc] = calls s"
      by (auto simp: list_update_same_conv)
    with move.prems show ?thesis by simp
  qed
qed

lemma reachable_uprobe_inv: "uprobe_reachable s \<Longrightarrow> uprobe_inv s"
  by (induction rule: uprobe_reachable.induct) (auto intro: uprobe_inv_init uprobe_inv_step)

section \<open>No dropped request while the map has room\<close>

text \<open>Only the process ids \<open>K\<close> are used.\<close>

definition uses_pids :: "u32 set \<Rightarrow> uprobe_sys \<Rightarrow> bool" where
  "uses_pids K s \<longleftrightarrow> (\<forall>pc \<in> set (calls s). pid_of_pc pc \<in> K)"

definition uprobe_fit :: "u32 set \<Rightarrow> uprobe_sys \<Rightarrow> bool" where
  "uprobe_fit K s \<longleftrightarrow> fits K (rps_count s) \<and>
     (\<forall>pid. Relookup pid \<in> set (calls s) \<longrightarrow> map_lookup (rps_count s) pid \<noteq> None) \<and>
     (\<forall>pid. Dropped pid \<notin> set (calls s))"

lemma hr_exec_pid: "hr_exec m pc = (m', pc') \<Longrightarrow> pid_of_pc pc' = pid_of_pc pc"
  by (cases pc) (auto simp: pid_of_pc_def split: if_splits)

lemma uses_pids_back: "hr_step s t \<Longrightarrow> uses_pids K t \<Longrightarrow> uses_pids K s"
proof (induction rule: hr_step.induct)
  case (enter s)
  then show ?case by (simp add: uses_pids_def)
next
  case (move i s m pc)
  have "pid_of_pc (calls s ! i) = pid_of_pc pc"
    using move hr_exec_pid by metis
  moreover have "pc \<in> set ((calls s)[i := pc])"
    using move by (simp add: set_update_memI)
  moreover have "x \<in> set ((calls s)[i := pc]) \<or> x = calls s ! i" if "x \<in> set (calls s)" for x
    using that by (metis in_set_conv_nth length_list_update nth_list_update_neq)
  ultimately show ?case
    using move.prems by (fastforce simp: uses_pids_def)
qed

lemma uprobe_fit_step:
  "hr_step s t \<Longrightarrow> uses_pids K t \<Longrightarrow> uprobe_fit K s \<Longrightarrow> uprobe_fit K t"
proof (induction rule: hr_step.induct)
  case (enter s)
  then show ?case by (auto simp: uprobe_fit_def)
next
  case (move i s m pc)
  have in_calls: "calls s ! i \<in> set (calls s)" using move by simp
  have K: "pid_of_pc pc \<in> K"
    using move by (auto simp: uses_pids_def set_update_memI)
  have sub: "set ((calls s)[i := pc]) \<subseteq> insert pc (set (calls s))"
    by (rule set_update_subset_insert)
  show ?case
  proof (cases "calls s ! i")
    case (Insert pid)
    with move K have "fits K m" and "map_lookup m pid \<noteq> None" and pc: "pc = Relookup pid"
      using fits_room [of K "rps_count s" pid]
      by (auto simp: uprobe_fit_def pid_of_pc_def fits_put_new lookup_map_put_new)
    moreover have "map_lookup (rps_count s) p \<noteq> None \<Longrightarrow> map_lookup m p \<noteq> None" for p
      using move Insert by (auto simp: lookup_map_put_new)
    ultimately show ?thesis
      using move sub by (fastforce simp: uprobe_fit_def)
  next
    case (Relookup pid)
    with move in_calls have "map_lookup (rps_count s) pid \<noteq> None"
      by (metis uprobe_fit_def)
    with move sub Relookup show ?thesis by (fastforce simp: uprobe_fit_def)
  next
    case (Add pid)
    with move sub show ?thesis
      by (fastforce simp: uprobe_fit_def fits_modify lookup_map_modify)
  qed (use move sub in_calls in \<open>fastforce simp: uprobe_fit_def split: if_splits\<close>)+
qed

lemma reachable_uprobe_fit:
  "uprobe_reachable s \<Longrightarrow> uses_pids K s \<Longrightarrow> finite K \<Longrightarrow> card K \<le> 1024 \<Longrightarrow> uprobe_fit K s"
proof (induction rule: uprobe_reachable.induct)
  case init
  then show ?case
    by (simp add: uprobe_fit_def uprobe_init_def rps_count_init_def fits_new)
next
  case (step s t)
  then show ?case by (blast intro: uprobe_fit_step dest: uses_pids_back)
qed

section \<open>Schedules\<close>

text \<open>A schedule: new invocations (left) and moves of the i-th invocation (right).\<close>

fun hr_run :: "(u32 + nat) list \<Rightarrow> uprobe_sys \<Rightarrow> uprobe_sys" where
  "hr_run [] s = s"
| "hr_run (Inl pid # acts) s = hr_run acts (s\<lparr>calls := calls s @ [Lookup pid]\<rparr>)"
| "hr_run (Inr i # acts) s =
     (if i < length (calls s)
      then case hr_exec (rps_count s) (calls s ! i) of
             (m, pc) \<Rightarrow> hr_run acts (s\<lparr>rps_count := m, calls := (calls s)[i := pc]\<rparr>)
      else hr_run acts s)"

lemma reachable_move:
  "uprobe_reachable s \<Longrightarrow> i < length (calls s) \<Longrightarrow> hr_exec (rps_count s) (calls s ! i) = (m, pc) \<Longrightarrow>
     uprobe_reachable (s\<lparr>rps_count := m, calls := (calls s)[i := pc]\<rparr>)"
  by (blast intro: uprobe_reachable.step hr_step.move)

lemma hr_run_reachable: "uprobe_reachable s \<Longrightarrow> uprobe_reachable (hr_run acts s)"
proof (induction acts s rule: hr_run.induct)
  case (2 pid acts s)
  then show ?case by (auto intro: uprobe_reachable.step hr_step.enter)
next
  case (3 i acts s)
  obtain m pc where "hr_exec (rps_count s) (calls s ! i) = (m, pc)" by fastforce
  with 3 show ?case by (simp add: reachable_move)
qed simp

lemmas hr_run_init = hr_run_reachable [OF uprobe_reachable.init]

text \<open>Two invocations for process 7 that both miss the first lookup, then both insert.\<close>

definition race_schedule :: "(u32 + nat) list" where
  "race_schedule = [Inl 7, Inl 7, Inr 0, Inr 1, Inr 0, Inr 0, Inr 0, Inr 1, Inr 1, Inr 1]"

lemma race_schedule_run:
  "hr_run race_schedule uprobe_init =
     \<lparr>rps_count = \<lparr>max_entries = 1024, elems = [(7, 2)]\<rparr>, calls = [Counted 7, Counted 7]\<rparr>"
  by (simp add: race_schedule_def uprobe_init_def rps_count_init_def new_map_def map_lookup_def
      map_put_new_def map_update_elem_def map_room_def map_modify_def)

section \<open>Every invocation ends\<close>

text \<open>Steps an invocation may still need.\<close>

fun hr_left :: "hr_pc \<Rightarrow> nat" where
  "hr_left (Lookup pid) = 4"
| "hr_left (Insert pid) = 3"
| "hr_left (Relookup pid) = 2"
| "hr_left (Add pid) = 1"
| "hr_left (Counted pid) = 0"
| "hr_left (Dropped pid) = 0"

interpretation hr_steps: stepwise hr_exec hr_left
proof
  show "0 < hr_left p \<Longrightarrow> hr_left (snd (hr_exec m p)) < hr_left p" for p m by (cases p) auto
  show "hr_left p = 0 \<Longrightarrow> hr_exec m p = (m, p)" for p m by (cases p) auto
qed

lemma hr_run_move:
  "hr_run (Inr i # acts) s = hr_run acts
     (s\<lparr>rps_count := fst (move_at hr_exec i (rps_count s, calls s)),
       calls := snd (move_at hr_exec i (rps_count s, calls s))\<rparr>)"
  by (simp add: move_at_def split: prod.split)

text \<open>An invocation moves on with each own step, also while new ones arrive.\<close>

lemma hr_run_left:
  "j < length (calls s) \<Longrightarrow>
     hr_left (calls (hr_run acts s) ! j) \<le> hr_left (calls s ! j) - count_list acts (Inr j)"
proof (induction acts arbitrary: s)
  case (Cons a acts)
  show ?case
  proof (cases a)
    case (Inl pid)
    with Cons.prems Cons.IH [of "s\<lparr>calls := calls s @ [Lookup pid]\<rparr>"] show ?thesis
      by (simp add: nth_append)
  next
    case (Inr i)
    let ?t = "s\<lparr>rps_count := fst (move_at hr_exec i (rps_count s, calls s)),
       calls := snd (move_at hr_exec i (rps_count s, calls s))\<rparr>"
    have "hr_left (calls (hr_run acts ?t) ! j) \<le> hr_left (calls ?t ! j) - count_list acts (Inr j)"
      using Cons.prems by (intro Cons.IH) simp
    with Inr Cons.prems hr_steps.move_left [of j "(rps_count s, calls s)" i] show ?thesis
      by (simp only: hr_run_move) (auto split: if_splits)
  qed
qed simp

lemma hr_run_pid:
  "j < length (calls s) \<Longrightarrow> pid_of_pc (calls (hr_run acts s) ! j) = pid_of_pc (calls s ! j)"
proof (induction acts s rule: hr_run.induct)
  case (2 pid acts s)
  then show ?case by (simp add: nth_append)
next
  case (3 i acts s)
  obtain m pc where e: "hr_exec (rps_count s) (calls s ! i) = (m, pc)" by fastforce
  have "pid_of_pc ((calls s)[i := pc] ! j) = pid_of_pc (calls s ! j)"
    using 3 hr_exec_pid [OF e] by (cases "i = j") auto
  with 3 e show ?case by auto
qed simp

lemma hr_run_length: "length (calls s) \<le> length (calls (hr_run acts s))"
  by (induction acts s rule: hr_run.induct) (auto split: prod.split intro: Suc_leD)

lemma hr_left_0: "hr_left pc = 0 \<longleftrightarrow> pc = Counted (pid_of_pc pc) \<or> pc = Dropped (pid_of_pc pc)"
  by (cases pc) (simp_all add: pid_of_pc_def)

lemma hr_left_le: "hr_left pc \<le> 4"
  by (cases pc) simp_all

section \<open>Properties\<close>

text \<open>
  Property C1. Whatever the interleaving of invocations on different CPUs, the counter of a
  process id holds exactly the number of invocations that completed their increment, modulo
  \<open>2 ^ 64\<close>: concurrent first requests do not overwrite each other.
\<close>

theorem uprobe_counts_exactly:
  assumes "uprobe_reachable s"
  shows "(case map_lookup (rps_count s) pid of
            None \<Rightarrow> requests s pid = 0
          | Some v \<Rightarrow> v = of_nat (requests s pid))"
proof (cases "map_lookup (rps_count s) pid")
  case None
  with reachable_uprobe_inv [OF assms] have "Counted pid \<notin> set (calls s)"
    by (auto simp: uprobe_inv_def)
  with None show ?thesis by (simp add: requests_none)
next
  case (Some v)
  with reachable_uprobe_inv [OF assms] show ?thesis by (simp add: uprobe_inv_def)
qed

theorem uprobe_counts_exactly_witness:
  "map_lookup (rps_count (hr_run race_schedule uprobe_init)) 7 = Some 2 \<and>
   requests (hr_run race_schedule uprobe_init) 7 = 2"
proof -
  have "of_nat (requests (hr_run race_schedule uprobe_init) 7) = (2 :: u64)"
    using uprobe_counts_exactly [OF hr_run_init, of race_schedule 7]
    by (simp add: race_schedule_run map_lookup_def)
  then show ?thesis
    by (simp add: race_schedule_run map_lookup_def requests_def)
qed

text \<open>
  As long as at most 1024 process ids use the probe, no request is dropped: once
  every invocation has finished, the counter of a process id is the number of its invocations.
\<close>

theorem uprobe_drops_nothing:
  assumes "uprobe_reachable s" and "uses_pids K s" and "finite K" and "card K \<le> 1024"
    and "\<forall>pc \<in> set (calls s). pc = Counted (pid_of_pc pc) \<or> pc = Dropped (pid_of_pc pc)"
    and "pid \<in> pid_of_pc ` set (calls s)"
  shows "map_lookup (rps_count s) pid =
           Some (of_nat (length (filter (\<lambda>pc. pid_of_pc pc = pid) (calls s))))"
proof -
  have fit: "uprobe_fit K s" by (rule reachable_uprobe_fit [OF assms(1-4)])
  have fin: "pc = Counted (pid_of_pc pc)" if "pc \<in> set (calls s)" for pc
    using that assms(5) fit by (metis uprobe_fit_def)
  have "filter (\<lambda>pc. pid_of_pc pc = pid) (calls s) = filter (\<lambda>pc. Counted pid = pc) (calls s)"
    using fin by (intro filter_cong) (auto simp: pid_of_pc_def)
  then have n: "length (filter (\<lambda>pc. pid_of_pc pc = pid) (calls s)) = requests s pid"
    by (simp add: requests_def count_list_eq_length_filter)
  obtain pc where pc: "pc \<in> set (calls s)" "pid = pid_of_pc pc" using assms(6) by blast
  then have "Counted pid \<in> set (calls s)" using fin by metis
  with reachable_uprobe_inv [OF assms(1)] show ?thesis
    unfolding n by (auto simp: uprobe_inv_def)
qed

theorem uprobe_drops_nothing_witness:
  "map_lookup (rps_count (hr_run race_schedule uprobe_init)) 7 = Some 2"
  using uprobe_drops_nothing [OF hr_run_init, of "{7}" race_schedule 7]
  by (simp add: race_schedule_run uses_pids_def pid_of_pc_def)

text \<open>
  One invocation that runs without interference, step by step, ends with exactly
  the map of \<open>handle_request\<close>; it is counted unless the map had no room for a new process.
\<close>

theorem handle_request_steps:
  "(case_prod hr_exec ^^ 4) (m, Lookup (pid_of (pid_tgid E))) =
     (handle_request E m,
      if map_lookup m (pid_of (pid_tgid E)) = None \<and> \<not> map_room m
      then Dropped (pid_of (pid_tgid E)) else Counted (pid_of (pid_tgid E)))"
  by (auto simp: handle_request_def numeral_eq_Suc Let_def lookup_map_put_new split: option.splits)

text \<open>
  Property C33. Every request is counted in the end: whatever else is scheduled, other requests
  arriving included, an invocation that gets four steps of its own has finished, and with at most
  1024 process ids in use it has counted its request.
\<close>

theorem every_request_counted:
  assumes "uprobe_reachable s" and "j < length (calls s)" and "4 \<le> count_list acts (Inr j)"
    and "t = hr_run acts s" and "uses_pids K t" and "finite K" and "card K \<le> 1024"
  shows "calls t ! j = Counted (pid_of_pc (calls s ! j))"
proof -
  have "hr_left (calls t ! j) = 0"
    using hr_run_left [OF assms(2), of acts] hr_left_le [of "calls s ! j"] assms(3,4) by simp
  moreover have "uprobe_fit K t"
    using assms(1,4-7) by (intro reachable_uprobe_fit) (simp_all add: hr_run_reachable)
  moreover have "calls t ! j \<in> set (calls t)"
    using assms(2,4) hr_run_length [of s acts] by simp
  ultimately show ?thesis
    using assms(2,4) hr_run_pid [of j s acts] by (metis hr_left_0 uprobe_fit_def)
qed

theorem every_request_counted_witness:
  "calls (hr_run [Inr 1, Inl 9, Inr 1, Inr 0, Inr 1, Inr 1] (hr_run [Inl 7, Inl 8] uprobe_init)) ! 1 = Counted 8"
proof -
  let ?s = "hr_run [Inl 7, Inl 8] uprobe_init"
  let ?acts = "[Inr 1, Inl 9, Inr 1, Inr 0, Inr 1, Inr 1]"
  have "uses_pids {7, 8, 9} (hr_run ?acts ?s)"
    by (simp add: uses_pids_def pid_of_pc_def uprobe_init_def rps_count_init_def new_map_def
        map_lookup_def map_put_new_def map_update_elem_def map_room_def map_modify_def)
  with every_request_counted [OF hr_run_init, of 1 "[Inl 7, Inl 8]" ?acts _ "{7, 8, 9}"] show ?thesis
    by (simp add: uprobe_init_def pid_of_pc_def)
qed

end
