(* ===== verification/Cpu_Tracker.thy ===== *)
theory Cpu_Tracker
  imports Bpf_Env
begin

text \<open>
  \<^verbatim>\<open>src/watcher/internal/ebpf/bpf/cpu_tracker/cpu_tracker.bpf.c\<close>: scheduler metrics per
  cgroup. The state is the two hash maps the programs write; the stack-trace map is filled by the
  kernel inside \<open>bpf_get_stackid\<close> and only its result is seen here. A run of the tracker is a list
  of hook invocations (\<open>cpu_event\<close>).
\<close>

section \<open>Data\<close>

record cpu_metrics =
  user_time_ns :: u64
  system_time_ns :: u64
  context_switches :: u64
  voluntary_switches :: u64
  involuntary_switches :: u64
  runqueue_latency_sum :: u64
  runqueue_samples :: u64
  active_threads :: u32
  blocked_threads :: u32
  last_update :: u64

definition cpu_metrics_zero :: cpu_metrics where
  "cpu_metrics_zero = \<lparr>user_time_ns = 0, system_time_ns = 0, context_switches = 0,
     voluntary_switches = 0, involuntary_switches = 0, runqueue_latency_sum = 0,
     runqueue_samples = 0, active_threads = 0, blocked_threads = 0, last_update = 0\<rparr>"

record cpu_state =
  cpu_metrics_map :: "(u64, cpu_metrics) bpf_map"
  process_switch_times :: "(u32, u64) bpf_map"

definition cpu_init :: cpu_state where
  "cpu_init = \<lparr>cpu_metrics_map = new_map 16384, process_switch_times = new_map 16384\<rparr>"

section \<open>Programs\<close>

text \<open>The updates of \<open>trace_sched_switch\<close> on an existing entry.\<close>

definition charge_switch :: "s64 \<Rightarrow> u64 \<Rightarrow> u64 \<Rightarrow> cpu_metrics \<Rightarrow> cpu_metrics" where
  "charge_switch prev_state runtime now c =
     (let c1 = c\<lparr>context_switches := context_switches c + 1\<rparr>;
          c2 = (if prev_state = 0
                then c1\<lparr>involuntary_switches := involuntary_switches c1 + 1\<rparr>
                else c1\<lparr>voluntary_switches := voluntary_switches c1 + 1\<rparr>);
          c3 = (if runtime > 0 then c2\<lparr>user_time_ns := user_time_ns c2 + runtime\<rparr> else c2)
      in c3\<lparr>last_update := now\<rparr>)"

definition trace_sched_switch ::
  "unit kenv \<Rightarrow> trace_event_raw_sched_switch \<Rightarrow> cpu_state \<Rightarrow> cpu_state" where
  "trace_sched_switch E ctx s =
     (let prev_pid = ss_prev_pid ctx;
          next_pid = ss_next_pid ctx;
          current_time = ktime E 0;
          prev_cgroup = cgroup E;
          s1 = (case map_lookup (process_switch_times s) prev_pid of
                  None \<Rightarrow> s
                | Some last_time \<Rightarrow>
                    let runtime = current_time - last_time;
                        mm = lookup_or_init (cpu_metrics_map s) prev_cgroup cpu_metrics_zero
                    in s\<lparr>cpu_metrics_map := map_modify mm prev_cgroup
                           (charge_switch (ss_prev_state ctx) runtime current_time)\<rparr>)
      in s1\<lparr>process_switch_times := map_put (process_switch_times s1) next_pid current_time\<rparr>)"

definition wake_thread :: "u64 \<Rightarrow> cpu_metrics \<Rightarrow> cpu_metrics" where
  "wake_thread now c =
     (if active_threads c < 0xFFFFFFFF
      then c\<lparr>active_threads := active_threads c + 1, last_update := now\<rparr>
      else c\<lparr>last_update := now\<rparr>)"

definition trace_sched_wakeup ::
  "unit kenv \<Rightarrow> trace_event_raw_sched_wakeup_template \<Rightarrow> cpu_state \<Rightarrow> cpu_state" where
  "trace_sched_wakeup E ctx s =
     (let pid = sw_pid ctx;
          current_time = ktime E 0;
          cgroup_id = cgroup E;
          mm = lookup_or_init (cpu_metrics_map s) cgroup_id cpu_metrics_zero
      in s\<lparr>process_switch_times := map_put (process_switch_times s) pid current_time,
           cpu_metrics_map := map_modify mm cgroup_id (wake_thread current_time)\<rparr>)"

text \<open>The clock is read only if the entry exists and counts a thread.\<close>

definition trace_process_exit ::
  "unit kenv \<Rightarrow> trace_event_raw_sched_process_template \<Rightarrow> cpu_state \<Rightarrow> cpu_state" where
  "trace_process_exit E ctx s =
     (let pid = sp_pid ctx;
          cgroup_id = cgroup E;
          s1 = s\<lparr>process_switch_times := map_delete (process_switch_times s) pid\<rparr>
      in case map_lookup (cpu_metrics_map s1) cgroup_id of
           None \<Rightarrow> s1
         | Some c \<Rightarrow>
             if active_threads c > 0
             then s1\<lparr>cpu_metrics_map := map_modify (cpu_metrics_map s1) cgroup_id
                    (\<lambda>c. c\<lparr>active_threads := active_threads c - 1, last_update := ktime E 0\<rparr>)\<rparr>
             else s1)"

definition cpu_profile :: "unit kenv \<Rightarrow> cpu_state \<Rightarrow> cpu_state" where
  "cpu_profile E s =
     s\<lparr>cpu_metrics_map := lookup_or_init (cpu_metrics_map s) (cgroup E) cpu_metrics_zero\<rparr>"

datatype cpu_event =
  Sched_Switch "unit kenv" trace_event_raw_sched_switch
| Sched_Wakeup "unit kenv" trace_event_raw_sched_wakeup_template
| Process_Exit "unit kenv" trace_event_raw_sched_process_template
| Cpu_Profile "unit kenv"

fun cpu_step :: "cpu_event \<Rightarrow> cpu_state \<Rightarrow> cpu_state" where
  "cpu_step (Sched_Switch E ctx) s = trace_sched_switch E ctx s"
| "cpu_step (Sched_Wakeup E ctx) s = trace_sched_wakeup E ctx s"
| "cpu_step (Process_Exit E ctx) s = trace_process_exit E ctx s"
| "cpu_step (Cpu_Profile E) s = cpu_profile E s"

fun cpu_cgroup :: "cpu_event \<Rightarrow> u64" where
  "cpu_cgroup (Sched_Switch E ctx) = cgroup E"
| "cpu_cgroup (Sched_Wakeup E ctx) = cgroup E"
| "cpu_cgroup (Process_Exit E ctx) = cgroup E"
| "cpu_cgroup (Cpu_Profile E) = cgroup E"

section \<open>Invariant of the metrics\<close>

definition cpu_entry_ok :: "cpu_metrics \<Rightarrow> bool" where
  "cpu_entry_ok c \<longleftrightarrow>
     context_switches c = voluntary_switches c + involuntary_switches c \<and>
     system_time_ns c = 0 \<and> runqueue_latency_sum c = 0 \<and> runqueue_samples c = 0 \<and>
     blocked_threads c = 0"

lemma cpu_entry_ok_zero: "cpu_entry_ok cpu_metrics_zero"
  by (simp add: cpu_entry_ok_def cpu_metrics_zero_def)

lemma cpu_entry_ok_switch: "cpu_entry_ok c \<Longrightarrow> cpu_entry_ok (charge_switch st r now c)"
  by (simp add: cpu_entry_ok_def charge_switch_def Let_def)

lemma cpu_entry_ok_wake: "cpu_entry_ok c \<Longrightarrow> cpu_entry_ok (wake_thread now c)"
  by (simp add: cpu_entry_ok_def wake_thread_def)

lemma cpu_entry_ok_exit:
  "cpu_entry_ok c \<Longrightarrow> cpu_entry_ok (c\<lparr>active_threads := n, last_update := now\<rparr>)"
  by (simp add: cpu_entry_ok_def)

definition cpu_inv :: "cpu_state \<Rightarrow> bool" where
  "cpu_inv s \<longleftrightarrow> all_entries cpu_entry_ok (cpu_metrics_map s)"

lemma cpu_inv_step: "cpu_inv s \<Longrightarrow> cpu_inv (cpu_step e s)"
  by (cases e)
    (auto simp: cpu_inv_def trace_sched_switch_def trace_sched_wakeup_def trace_process_exit_def
      cpu_profile_def Let_def cpu_entry_ok_zero cpu_entry_ok_switch cpu_entry_ok_wake
      cpu_entry_ok_exit split: option.split intro!: all_entries_modify all_entries_init)

interpretation cpu_machine: event_machine cpu_step "\<lambda>_. True" cpu_inv
  by unfold_locales (rule cpu_inv_step)

lemma cpu_inv_init: "cpu_inv cpu_init"
  by (simp add: cpu_inv_def cpu_init_def)

section \<open>Active threads as a saturating counter\<close>

definition threads :: "cpu_state \<Rightarrow> u64 \<Rightarrow> nat" where
  "threads s cg = (case map_lookup (cpu_metrics_map s) cg of
     None \<Rightarrow> 0 | Some c \<Rightarrow> unat (active_threads c))"

text \<open>The abstract counter: it stops at \<open>2 ^ 32 - 1\<close> and at 0 instead of wrapping.\<close>

fun threads_spec :: "cpu_event \<Rightarrow> nat \<Rightarrow> nat" where
  "threads_spec (Sched_Wakeup E ctx) n = min (n + 1) (2 ^ 32 - 1)"
| "threads_spec (Process_Exit E ctx) n = n - 1"
| "threads_spec (Sched_Switch E ctx) n = n"
| "threads_spec (Cpu_Profile E) n = n"

definition cpu_fit :: "u64 set \<Rightarrow> cpu_state \<Rightarrow> bool" where
  "cpu_fit K s \<longleftrightarrow> fits K (cpu_metrics_map s)"

lemma cpu_fit_step: "cpu_cgroup e \<in> K \<Longrightarrow> cpu_fit K s \<Longrightarrow> cpu_fit K (cpu_step e s)"
  by (cases e)
    (auto simp: cpu_fit_def trace_sched_switch_def trace_sched_wakeup_def trace_process_exit_def
      cpu_profile_def Let_def fits_ops split: option.split)

lemma unat_inc_sat: "w < 0xFFFFFFFF \<Longrightarrow> unat (w + 1) = unat w + 1" for w :: u32
  by (simp add: unat_word_ariths word_less_nat_alt)

lemma unat_wake: "unat (active_threads (wake_thread now c)) = min (unat (active_threads c) + 1) (2 ^ 32 - 1)"
proof -
  have "unat (active_threads c) < 2 ^ LENGTH(32)" by (rule unsigned_less)
  then show ?thesis by (auto simp: wake_thread_def unat_inc_sat word_less_nat_alt min_def)
qed

lemma active_charge [simp]: "active_threads (charge_switch st r now c) = active_threads c"
  by (simp add: charge_switch_def Let_def)

lemma unat_dec_sat: "w > 0 \<Longrightarrow> unat (w - 1) = unat w - 1" for w :: u32
  by (metis unat_minus_one word_gt_0)

lemma threads_step:
  assumes "cpu_cgroup e \<in> K" and "cpu_fit K s"
  shows "threads (cpu_step e s) cg =
    (if cpu_cgroup e = cg then threads_spec e (threads s cg) else threads s cg)"
  using assms fits_room [of K "cpu_metrics_map s" "cpu_cgroup e"]
  by (cases e)
    (auto simp: threads_def cpu_fit_def trace_sched_switch_def trace_sched_wakeup_def
      trace_process_exit_def cpu_profile_def Let_def map_simps unat_wake unat_dec_sat
      cpu_metrics_zero_def word_gt_0 split: option.splits)

lemma threads_run:
  "list_all (\<lambda>e. cpu_cgroup e \<in> K) es \<Longrightarrow> cpu_fit K s \<Longrightarrow>
     threads (fold cpu_step es s) cg =
       fold threads_spec (filter (\<lambda>e. cpu_cgroup e = cg) es) (threads s cg)"
  by (induction es arbitrary: s) (auto simp: threads_step cpu_fit_step)

section \<open>Attribution of run time\<close>

text \<open>The process ids whose time stamp an event writes, reads or removes.\<close>

fun touches :: "u32 \<Rightarrow> cpu_event \<Rightarrow> bool" where
  "touches p (Sched_Switch E ctx) \<longleftrightarrow> ss_next_pid ctx = p"
| "touches p (Sched_Wakeup E ctx) \<longleftrightarrow> sw_pid ctx = p"
| "touches p (Process_Exit E ctx) \<longleftrightarrow> sp_pid ctx = p"
| "touches p (Cpu_Profile E) \<longleftrightarrow> False"

lemma stamp_untouched:
  "\<not> touches p e \<Longrightarrow>
     map_lookup (process_switch_times (cpu_step e s)) p = map_lookup (process_switch_times s) p"
  by (cases e)
    (auto simp: trace_sched_switch_def trace_sched_wakeup_def trace_process_exit_def
      cpu_profile_def Let_def map_simps split: option.split)

lemma stamp_run:
  "list_all (\<lambda>e. \<not> touches p e) es \<Longrightarrow>
     map_lookup (process_switch_times (fold cpu_step es s)) p =
       map_lookup (process_switch_times s) p"
  by (induction es arbitrary: s) (auto simp: stamp_untouched)

definition user_time :: "cpu_state \<Rightarrow> u64 \<Rightarrow> u64" where
  "user_time s cg = (case map_lookup (cpu_metrics_map s) cg of
     None \<Rightarrow> 0 | Some c \<Rightarrow> user_time_ns c)"

lemma user_time_charge [simp]:
  "user_time_ns (charge_switch st r now c) = user_time_ns c + r"
  by (auto simp: charge_switch_def Let_def word_gt_0)

lemma user_time_switch:
  assumes "map_lookup (process_switch_times s) (ss_prev_pid ctx) = Some t"
    and "map_lookup (cpu_metrics_map s) (cgroup E) \<noteq> None \<or> map_room (cpu_metrics_map s)"
  shows "user_time (trace_sched_switch E ctx s) (cgroup E) =
    user_time s (cgroup E) + (ktime E 0 - t)"
  using assms
  by (auto simp: user_time_def trace_sched_switch_def Let_def map_simps cpu_metrics_zero_def
      split: option.splits)

section \<open>Time stamps are only removed by the exit hook\<close>

lemma stamp_keys_step:
  "(\<forall>E ctx. e \<noteq> Process_Exit E ctx) \<Longrightarrow>
     map_keys (process_switch_times s) \<subseteq> map_keys (process_switch_times (cpu_step e s))"
  by (cases e)
    (auto simp: keys_map_lookup trace_sched_switch_def trace_sched_wakeup_def cpu_profile_def
      Let_def map_simps split: option.split)

lemma max_stamps_step:
  "max_entries (process_switch_times (cpu_step e s)) = max_entries (process_switch_times s)"
  by (cases e)
    (auto simp: trace_sched_switch_def trace_sched_wakeup_def trace_process_exit_def cpu_profile_def
      Let_def split: option.split)

lemma room_step:
  "(\<forall>E ctx. e \<noteq> Process_Exit E ctx) \<Longrightarrow> \<not> map_room (process_switch_times s) \<Longrightarrow>
     \<not> map_room (process_switch_times (cpu_step e s))"
  by (cases e)
    (auto simp: trace_sched_switch_def trace_sched_wakeup_def cpu_profile_def
      Let_def full_put split: option.split)

lemma full_stamps_run:
  "list_all (\<lambda>e. \<forall>E ctx. e \<noteq> Process_Exit E ctx) es \<Longrightarrow> \<not> map_room (process_switch_times s) \<Longrightarrow>
     map_lookup (process_switch_times s) p = None \<Longrightarrow>
     map_lookup (process_switch_times (fold cpu_step es s)) p = None"
proof (induction es arbitrary: s)
  case (Cons e es)
  have "map_lookup (process_switch_times (cpu_step e s)) p = None"
    using Cons.prems
    by (cases e) (auto simp: trace_sched_switch_def trace_sched_wakeup_def cpu_profile_def Let_def
        map_simps split: option.split)
  with Cons show ?case by (simp add: room_step)
qed simp

section \<open>Examples\<close>

definition switch_ctx :: "u32 \<Rightarrow> s64 \<Rightarrow> u32 \<Rightarrow> trace_event_raw_sched_switch" where
  "switch_ctx prev st nxt = \<lparr>ss_ent = entry0, ss_prev_comm = [], ss_prev_pid = prev,
     ss_prev_prio = 120, ss_prev_state = st, ss_next_comm = [], ss_next_pid = nxt, ss_next_prio = 120\<rparr>"

definition wakeup_ctx :: "u32 \<Rightarrow> trace_event_raw_sched_wakeup_template" where
  "wakeup_ctx pid = \<lparr>sw_ent = entry0, sw_comm = [], sw_pid = pid, sw_prio = 120, sw_target_cpu = 0\<rparr>"

definition exit_ctx :: "u32 \<Rightarrow> trace_event_raw_sched_process_template" where
  "exit_ctx pid = \<lparr>sp_ent = entry0, sp_comm = [], sp_pid = pid, sp_prio = 120\<rparr>"

definition at_time :: "u64 \<Rightarrow> unit kenv" where
  "at_time t = env0\<lparr>ktime := (\<lambda>_. t)\<rparr>"

lemma at_time_simps [simp]: "cgroup (at_time t) = 1" "ktime (at_time t) n = t"
  by (simp_all add: at_time_def env0_def)

text \<open>A tracker that has seen the 16384 process ids below 16384.\<close>

definition cpu_full :: cpu_state where
  "cpu_full = cpu_init\<lparr>process_switch_times :=
     \<lparr>max_entries = 16384, elems = map (\<lambda>i. (word_of_nat i, 0)) [0..<16384]\<rparr>\<rparr>"

lemma cpu_full_stamps: "map_lookup (process_switch_times cpu_full) 20000 = None"
proof -
  have "(20000 :: u32) \<noteq> word_of_nat i" if "i < 16384" for i
  proof
    assume "(20000 :: u32) = word_of_nat i"
    then have "unat (20000 :: u32) = unat (word_of_nat i :: u32)" by simp
    with that show False by (simp add: unat_of_nat)
  qed
  then show ?thesis
    by (auto simp: cpu_full_def map_lookup_def map_of_eq_None_iff simp del: upt_conv_Cons upt_rec_numeral)
qed

section \<open>Properties\<close>

text \<open>
  In every state the tracker can reach, each cgroup's context switches are the sum of
  its voluntary and involuntary switches; and the fields for system time, run-queue latency and
  blocked threads are zero, because no program ever writes them.
\<close>

theorem cpu_switches_partition:
  assumes "map_lookup (cpu_metrics_map (fold cpu_step es cpu_init)) cg = Some c"
  shows "context_switches c = voluntary_switches c + involuntary_switches c \<and>
    system_time_ns c = 0 \<and> runqueue_latency_sum c = 0 \<and> runqueue_samples c = 0 \<and>
    blocked_threads c = 0"
proof -
  have "cpu_inv (fold cpu_step es cpu_init)"
    by (rule cpu_machine.run_inv) (simp_all add: list_all_iff cpu_inv_init)
  then show ?thesis
    using assms by (auto simp: cpu_inv_def cpu_entry_ok_def dest: all_entries_lookup)
qed

theorem cpu_switches_partition_witness:
  "\<exists>c. map_lookup (cpu_metrics_map (fold cpu_step
       [Sched_Switch (at_time 10) (switch_ctx 1 0 2), Sched_Switch (at_time 30) (switch_ctx 2 1 1)]
       cpu_init)) 1 = Some c \<and> context_switches c = 1 \<and>
     voluntary_switches c + involuntary_switches c = 1"
proof -
  let ?es = "[Sched_Switch (at_time 10) (switch_ctx 1 0 2), Sched_Switch (at_time 30) (switch_ctx 2 1 1)]"
  obtain c where c: "map_lookup (cpu_metrics_map (fold cpu_step ?es cpu_init)) 1 = Some c"
    and n: "context_switches c = 1"
    by (simp add: trace_sched_switch_def switch_ctx_def cpu_init_def map_simps map_room_def
        new_map_def map_lookup_def map_put_def map_update_elem_def lookup_or_init_def map_modify_def
        charge_switch_def cpu_metrics_zero_def Let_def)
  with cpu_switches_partition [OF c] show ?thesis by (intro exI [of _ c]) simp
qed

text \<open>
  Property C25. The thread count of a cgroup refines a saturating natural-number counter: over any
  run that uses at most 16384 cgroups it is the result of counting each wakeup up (stopping at
  \<open>2 ^ 32 - 1\<close>) and each exit down (stopping at 0) in order; it never wraps around.
\<close>

theorem active_threads_saturate:
  assumes "finite K" and "card K \<le> 16384" and "list_all (\<lambda>e. cpu_cgroup e \<in> K) es"
  shows "threads (fold cpu_step es cpu_init) cg =
    fold threads_spec (filter (\<lambda>e. cpu_cgroup e = cg) es) 0"
proof -
  have "cpu_fit K cpu_init" using assms(1,2) by (simp add: cpu_fit_def cpu_init_def fits_new)
  from threads_run [OF assms(3) this, of cg] show ?thesis
    by (simp add: threads_def cpu_init_def)
qed

theorem active_threads_saturate_witness:
  "threads (fold cpu_step [Process_Exit (at_time 1) (exit_ctx 4), Sched_Wakeup (at_time 2) (wakeup_ctx 5),
     Sched_Wakeup (at_time 3) (wakeup_ctx 6), Process_Exit (at_time 4) (exit_ctx 5)] cpu_init) 1 = 1"
  by (subst active_threads_saturate [of "{1}"]) (simp_all add: at_time_def env0_def)

text \<open>
  Run time is charged interval by interval: if a process was switched in at one time
  and no event wrote its time stamp until it is switched out, the cgroup current at the
  switch-out is charged exactly the difference of the two clock readings (modulo \<open>2 ^ 64\<close>).
\<close>

theorem run_time_charged_exactly:
  assumes "map_lookup (process_switch_times s) p \<noteq> None \<or> map_room (process_switch_times s)"
    and "ss_next_pid c1 = p" and "ss_prev_pid c2 = p"
    and "list_all (\<lambda>e. \<not> touches p e) es"
    and "s' = fold cpu_step es (trace_sched_switch E1 c1 s)"
    and "map_lookup (cpu_metrics_map s') (cgroup E2) \<noteq> None \<or> map_room (cpu_metrics_map s')"
  shows "user_time (trace_sched_switch E2 c2 s') (cgroup E2) =
    user_time s' (cgroup E2) + (ktime E2 0 - ktime E1 0)"
proof -
  have "map_lookup (process_switch_times (trace_sched_switch E1 c1 s)) p = Some (ktime E1 0)"
    using assms(1,2) by (auto simp: trace_sched_switch_def Let_def map_simps split: option.split)
  then have "map_lookup (process_switch_times s') (ss_prev_pid c2) = Some (ktime E1 0)"
    using assms(3-5) by (simp add: stamp_run)
  then show ?thesis using assms(6) by (rule user_time_switch)
qed

theorem run_time_charged_exactly_witness:
  "user_time (trace_sched_switch (at_time 50) (switch_ctx 2 1 1)
     (fold cpu_step [Sched_Wakeup (at_time 20) (wakeup_ctx 9)]
       (trace_sched_switch (at_time 10) (switch_ctx 1 0 2) cpu_init))) 1 = 40"
  by (subst run_time_charged_exactly [of cpu_init 2 "switch_ctx 1 0 2" "switch_ctx 2 1 1"
        "[Sched_Wakeup (at_time 20) (wakeup_ctx 9)]" _ "at_time 10" "at_time 50",
        unfolded at_time_simps])
    (simp_all add: switch_ctx_def wakeup_ctx_def user_time_def trace_sched_switch_def
      trace_sched_wakeup_def cpu_init_def Let_def map_simps map_room_def new_map_def map_lookup_def
      wake_thread_def cpu_metrics_zero_def lookup_or_init_def map_put_def map_update_elem_def
      map_modify_def)

text \<open>
  Without the exit hook (\<^verbatim>\<open>cpu_tracker.go\<close> attaches only the switch and wakeup
  hooks) time stamps are never removed: once 16384 process ids have one, a new process never
  gets one, so none of its run time is ever charged.
\<close>

theorem full_stamp_map_ignores_new_processes:
  assumes "list_all (\<lambda>e. \<forall>E ctx. e \<noteq> Process_Exit E ctx) es"
    and "\<not> map_room (process_switch_times s)"
    and "map_lookup (process_switch_times s) (ss_prev_pid ctx) = None"
  shows "cpu_metrics_map (trace_sched_switch E ctx (fold cpu_step es s)) =
    cpu_metrics_map (fold cpu_step es s)"
  using full_stamps_run [OF assms] by (simp add: trace_sched_switch_def Let_def)

theorem full_stamp_map_ignores_new_processes_witness:
  "cpu_metrics_map (trace_sched_switch (at_time 9) (switch_ctx 20000 0 8)
     (fold cpu_step [Sched_Switch (at_time 5) (switch_ctx 1 0 20000)] cpu_full)) =
   cpu_metrics_map (fold cpu_step [Sched_Switch (at_time 5) (switch_ctx 1 0 20000)] cpu_full)"
proof (rule full_stamp_map_ignores_new_processes)
  show "map_lookup (process_switch_times cpu_full) (ss_prev_pid (switch_ctx 20000 0 8)) = None"
    by (simp add: switch_ctx_def cpu_full_stamps)
qed (simp_all add: cpu_full_def map_room_def)

end
