(* ===== verification/Cpu_Races.thy ===== *)
theory Cpu_Races
  imports Cpu_Tracker Schedules
begin

text \<open>
  The thread count of \<open>Cpu_Tracker\<close> under concurrency. The wakeup and exit hooks of
  \<^verbatim>\<open>cpu_tracker.bpf.c\<close> change \<open>active_threads\<close> through a pointer, without an atomic operation, while other
  CPUs run the same programs. The shared state is the hash table, which maps a cgroup to the address of
  its entry, and the entries' thread counts; the other fields and the time stamps play no part.
  \<open>BPF_ANY\<close> replaces an existing entry by a new one; programs that hold the old pointer then
  write to the old entry.
\<close>

section \<open>The steps of an invocation\<close>

text \<open>
  Between the guard and the increment or decrement the count may be read once or twice: the source
  reads it twice, a compiler may keep the first result. \<open>reload\<close> tells which.
\<close>

type_synonym thread_heap = "(u64, nat) bpf_map \<times> u32 list"

datatype thread_pc =
  Wake u64 | Wake_Insert u64 | Wake_Relookup u64 | Wake_Test nat | Wake_Load nat | Wake_Store nat u32
| Woken nat
| Exit u64 | Exit_Test nat | Exit_Load nat | Exit_Store nat u32
| Exited nat
| Unchanged

definition cell_at :: "u32 list \<Rightarrow> nat \<Rightarrow> u32" where
  "cell_at cells a = (if a < length cells then cells ! a else 0)"

fun thread_exec :: "bool \<Rightarrow> thread_heap \<Rightarrow> thread_pc \<Rightarrow> thread_heap \<times> thread_pc" where
  "thread_exec reload (m, cells) (Wake cg) =
     ((m, cells), case map_lookup m cg of None \<Rightarrow> Wake_Insert cg | Some a \<Rightarrow> Wake_Test a)"
| "thread_exec reload (m, cells) (Wake_Insert cg) =
     ((map_put m cg (length cells), cells @ [0]), Wake_Relookup cg)"
| "thread_exec reload (m, cells) (Wake_Relookup cg) =
     ((m, cells), case map_lookup m cg of None \<Rightarrow> Unchanged | Some a \<Rightarrow> Wake_Test a)"
| "thread_exec reload (m, cells) (Wake_Test a) =
     ((m, cells),
      if cell_at cells a < 0xFFFFFFFF
      then if reload then Wake_Load a else Wake_Store a (cell_at cells a)
      else Unchanged)"
| "thread_exec reload (m, cells) (Wake_Load a) = ((m, cells), Wake_Store a (cell_at cells a))"
| "thread_exec reload (m, cells) (Wake_Store a r) = ((m, cells[a := r + 1]), Woken a)"
| "thread_exec reload (m, cells) (Exit cg) =
     ((m, cells), case map_lookup m cg of None \<Rightarrow> Unchanged | Some a \<Rightarrow> Exit_Test a)"
| "thread_exec reload (m, cells) (Exit_Test a) =
     ((m, cells),
      if cell_at cells a > 0
      then if reload then Exit_Load a else Exit_Store a (cell_at cells a)
      else Unchanged)"
| "thread_exec reload (m, cells) (Exit_Load a) = ((m, cells), Exit_Store a (cell_at cells a))"
| "thread_exec reload (m, cells) (Exit_Store a r) = ((m, cells[a := r - 1]), Exited a)"
| "thread_exec reload (m, cells) (Woken a) = ((m, cells), Woken a)"
| "thread_exec reload (m, cells) (Exited a) = ((m, cells), Exited a)"
| "thread_exec reload (m, cells) Unchanged = ((m, cells), Unchanged)"

definition thread_start :: "thread_pc \<Rightarrow> bool" where
  "thread_start pc \<longleftrightarrow> (\<exists>cg. pc = Wake cg \<or> pc = Exit cg)"

definition run_threads :: "bool \<Rightarrow> nat list \<Rightarrow> thread_pc list \<Rightarrow> thread_heap \<times> thread_pc list" where
  "run_threads reload sched pcs = fold (move_at (thread_exec reload)) sched ((new_map 16384, []), pcs)"

text \<open>The thread count of a cgroup, as the collector would read it.\<close>

definition thread_count :: "thread_heap \<Rightarrow> u64 \<Rightarrow> u32" where
  "thread_count h cg = (case map_lookup (fst h) cg of None \<Rightarrow> 0 | Some a \<Rightarrow> cell_at (snd h) a)"

section \<open>Every invocation ends\<close>

fun thread_left :: "thread_pc \<Rightarrow> nat" where
  "thread_left (Wake cg) = 6"
| "thread_left (Wake_Insert cg) = 5"
| "thread_left (Wake_Relookup cg) = 4"
| "thread_left (Wake_Test a) = 3"
| "thread_left (Wake_Load a) = 2"
| "thread_left (Wake_Store a r) = 1"
| "thread_left (Exit cg) = 4"
| "thread_left (Exit_Test a) = 3"
| "thread_left (Exit_Load a) = 2"
| "thread_left (Exit_Store a r) = 1"
| "thread_left (Woken a) = 0"
| "thread_left (Exited a) = 0"
| "thread_left Unchanged = 0"

interpretation thread_steps: stepwise "thread_exec reload" thread_left for reload
proof
  fix h :: thread_heap and pc
  obtain m cells where h: "h = (m, cells)" by fastforce
  show "thread_left (snd (thread_exec reload h pc)) < thread_left pc" if "0 < thread_left pc"
    using that by (cases pc) (auto simp: h split: option.split)
  show "thread_exec reload h pc = (h, pc)" if "thread_left pc = 0"
    using that by (cases pc) (auto simp: h)
qed

section \<open>With one read the count is bounded by the wakeups\<close>

definition woken :: "thread_pc list \<Rightarrow> nat \<Rightarrow> nat" where
  "woken pcs a = count_list pcs (Woken a)"

text \<open>What an invocation that is about to store knows: the value it has read is not too large.\<close>

definition pc_ok :: "(nat \<Rightarrow> nat) \<Rightarrow> thread_pc \<Rightarrow> bool" where
  "pc_ok n pc = (case pc of
     Wake_Store a r \<Rightarrow> unat r \<le> n a \<and> r < 0xFFFFFFFF
   | Exit_Store a r \<Rightarrow> unat r \<le> n a \<and> 0 < r
   | Wake_Load a \<Rightarrow> False
   | Exit_Load a \<Rightarrow> False
   | _ \<Rightarrow> True)"

definition threads_inv :: "thread_heap \<times> thread_pc list \<Rightarrow> bool" where
  "threads_inv st \<longleftrightarrow> (\<forall>a. unat (cell_at (snd (fst st)) a) \<le> woken (snd st) a) \<and>
     list_all (pc_ok (woken (snd st))) (snd st)"

lemma pc_ok_mono: "pc_ok n pc \<Longrightarrow> (\<And>a. n a \<le> n' a) \<Longrightarrow> pc_ok n' pc"
  by (auto simp: pc_ok_def split: thread_pc.splits intro: order_trans)

lemma cell_at_append [simp]: "cell_at (cells @ [0]) a = cell_at cells a"
  by (auto simp: cell_at_def nth_append)

lemma cell_at_update: "cell_at (cells[a := v]) b = (if a = b \<and> a < length cells then v else cell_at cells b)"
  by (auto simp: cell_at_def nth_list_update)

text \<open>One step: what it makes of the counts and of the invocation.\<close>

lemma exec_bounded:
  assumes exec: "thread_exec False (m, cells) pc = ((m', cells'), pc')" and ok: "pc_ok n pc"
    and cells: "\<And>a. unat (cell_at cells a) \<le> n a" and idle: "0 < thread_left pc"
    and n': "\<And>a. n' a = n a + (if pc' = Woken a then 1 else 0)"
  shows "pc_ok n' pc' \<and> (\<forall>a. unat (cell_at cells' a) \<le> n' a)"
proof (cases pc)
  case (Wake_Store a r)
  then have "unat (r + 1) = unat r + 1" using ok by (simp add: pc_ok_def unat_inc_sat)
  with Wake_Store exec ok cells show ?thesis by (auto simp: pc_ok_def cell_at_update n' le_SucI split: if_splits)
next
  case (Exit_Store a r)
  then have "unat (r - 1) \<le> unat r" using ok by (simp add: pc_ok_def unat_dec_sat)
  with Exit_Store exec ok cells show ?thesis by (auto simp: pc_ok_def cell_at_update n' intro: order_trans)
qed (use exec ok cells idle in \<open>auto simp: pc_ok_def n' split: option.splits if_splits\<close>)

lemma threads_inv_move: "threads_inv st \<Longrightarrow> threads_inv (move_at (thread_exec False) i st)"
proof (cases "i < length (snd st) \<and> 0 < thread_left (snd st ! i)")
  case False
  moreover have "thread_exec False (fst st) (snd st ! i) = (fst st, snd st ! i)" if "thread_left (snd st ! i) = 0"
    using that by (rule thread_steps.exec_done)
  moreover assume "threads_inv st"
  ultimately show ?thesis by (cases st) (auto simp: move_at_def)
next
  case True
  assume inv: "threads_inv st"
  obtain m cells pcs where st: "st = ((m, cells), pcs)" by (metis prod.collapse)
  obtain m' cells' pc' where exec: "thread_exec False (m, cells) (pcs ! i) = ((m', cells'), pc')"
    by (metis prod.collapse)
  have i: "i < length pcs" "0 < thread_left (pcs ! i)" using True st by simp_all
  have "\<forall>a. pcs ! i \<noteq> Woken a" using i(2) by auto
  then have count: "woken (pcs[i := pc']) a = woken pcs a + (if pc' = Woken a then 1 else 0)" for a
    using i(1) by (simp add: woken_def count_list_replace)
  have "pc_ok (woken pcs) (pcs ! i)" and cells: "\<And>a. unat (cell_at cells a) \<le> woken pcs a"
    using inv i(1) by (simp_all add: threads_inv_def st list_all_length)
  then have "pc_ok (woken (pcs[i := pc'])) pc' \<and> (\<forall>a. unat (cell_at cells' a) \<le> woken (pcs[i := pc']) a)"
    using exec_bounded [OF exec _ cells i(2) count] by blast
  moreover have "list_all (pc_ok (woken (pcs[i := pc']))) pcs"
    using inv by (auto simp: threads_inv_def st list_all_iff count elim!: pc_ok_mono)
  ultimately have "threads_inv ((m', cells'), pcs[i := pc'])"
    using set_update_subset_insert [of pcs i pc'] by (auto simp: threads_inv_def list_all_iff)
  then show ?thesis using i(1) by (simp add: move_at_def st exec)
qed

interpretation thread_races: event_machine "move_at (thread_exec False)" "\<lambda>_. True" threads_inv
  by unfold_locales (rule threads_inv_move)

lemma threads_inv_run: "list_all thread_start pcs \<Longrightarrow> threads_inv (run_threads False sched pcs)"
  unfolding run_threads_def
  by (rule thread_races.run_inv)
    (auto simp: threads_inv_def cell_at_def list_all_iff thread_start_def pc_ok_def)

text \<open>
  Two wakeups that overlap, and a wakeup followed by two exits that overlap: both exits pass the guard
  before one of them stores.
\<close>

definition overlapping_wakeups :: "nat list" where
  "overlapping_wakeups = [0, 1, 0, 1, 0, 1, 0, 1, 0, 1, 0, 1]"

definition overlapping_exits :: "nat list" where
  "overlapping_exits = [0, 0, 0, 0, 0, 0, 1, 1, 2, 2, 1, 1, 2, 2]"

lemma third_update: "(x # y # z # xs)[2 := v] = x # y # v # xs"
  by (simp add: numeral_2_eq_2)

section \<open>Properties\<close>

text \<open>
  Property C26. If the count is read once between guard and store, it stays sound under races: in every
  interleaving of any wakeups and exits on any number of CPUs, the count in an entry is at most the
  number of wakeups that have stored into it; in particular it never wraps around below zero.
\<close>

theorem racing_threads_bounded:
  assumes "list_all thread_start pcs" and "run_threads False sched pcs = ((m, cells), pcs')"
  shows "unat (cell_at cells a) \<le> woken pcs' a"
  using threads_inv_run [OF assms(1), of sched] assms(2) by (simp add: threads_inv_def)

theorem racing_threads_bounded_witness:
  "\<exists>m cells pcs'. run_threads False overlapping_exits [Wake 5, Exit 5, Exit 5] = ((m, cells), pcs') \<and>
     unat (cell_at cells 0) \<le> woken pcs' 0"
proof -
  obtain m cells pcs' where run: "run_threads False overlapping_exits [Wake 5, Exit 5, Exit 5] = ((m, cells), pcs')"
    by (metis prod.collapse)
  have "list_all thread_start [Wake 5, Exit 5, Exit 5]" by (simp add: thread_start_def)
  from racing_threads_bounded [OF this run, of 0] run show ?thesis by blast
qed

text \<open>
  If it is read twice, as the source has it, the guard does not help: there is a schedule of one
  wakeup and two exits of one cgroup that leaves the count at \<open>2 ^ 32 - 1\<close>, while with one read the same
  schedule ends at zero. And in either case wakeups get lost: two that overlap leave the count at one.
\<close>

theorem racing_exits_wrap:
  "thread_count (fst (run_threads True overlapping_exits [Wake 5, Exit 5, Exit 5])) 5 = 0xFFFFFFFF \<and>
   thread_count (fst (run_threads False overlapping_exits [Wake 5, Exit 5, Exit 5])) 5 = 0 \<and>
   thread_count (fst (run_threads reload overlapping_wakeups [Wake 5, Wake 5])) 5 = 1"
  by (cases reload)
    (simp_all add: overlapping_exits_def overlapping_wakeups_def run_threads_def move_at_def third_update
      new_map_def map_lookup_def map_put_def map_update_elem_def map_room_def thread_count_def cell_at_def)

text \<open>
  The hooks end under every scheduler: any number of invocations take together at most six steps
  each, and one that is scheduled six times has ended, whatever the others do meanwhile.
\<close>

theorem thread_updates_end:
  "busy_moves (thread_exec reload) thread_left sched ((new_map 16384, []), pcs) \<le> 6 * length pcs \<and>
   (\<forall>j < length pcs. 6 \<le> count_list sched j \<longrightarrow> thread_left (snd (run_threads reload sched pcs) ! j) = 0)"
proof -
  have bound: "thread_left pc \<le> 6" for pc by (cases pc) simp_all
  have "sum_list (map thread_left pcs) \<le> 6 * length pcs" by (rule thread_steps.sum_left_bound [OF bound])
  moreover have "thread_left (snd (run_threads reload sched pcs) ! j) = 0"
    if "j < length pcs" and "6 \<le> count_list sched j" for j
    unfolding run_threads_def
    using that bound [of "pcs ! j"] by (intro thread_steps.fair_finishes) auto
  ultimately show ?thesis
    using thread_steps.busy_bounded [of reload sched "((new_map 16384, []), pcs)"] by auto
qed

theorem thread_updates_end_witness:
  "thread_left (snd (run_threads True overlapping_exits [Wake 5, Exit 5, Exit 5]) ! 0) = 0"
  using thread_updates_end [of True overlapping_exits "[Wake 5, Exit 5, Exit 5]"]
  by (simp add: overlapping_exits_def)

end
