(* ===== verification/Http_Metrics.thy ===== *)
theory Http_Metrics
  imports C_String
begin

text \<open>
  \<^verbatim>\<open>src/watcher/internal/ebpf/bpf/http_metrics/http_metrics.bpf.c\<close>: request tracking by
  system calls and by uprobes on Go handlers, metrics and a latency histogram per cgroup. The
  parsers read the user's buffer by plain loads: \<open>rd i\<close> is the byte at offset \<open>i\<close>, and \<open>None\<close>
  an access outside readable memory, which makes the parser return \<open>None\<close>.
\<close>

section \<open>Data\<close>

record http_request =
  hr_start_time :: u64
  hr_cgroup_id :: u64
  hr_pid :: u32
  hr_status_code :: u32
  hr_method :: "u8 list"
  hr_url :: "u8 list"

record http_metrics =
  request_count :: u64
  error_count :: u64
  latency_sum :: u64
  latency_max :: u64
  latency_min :: u64
  status_2xx :: u64
  status_3xx :: u64
  status_4xx :: u64
  status_5xx :: u64
  last_update :: u64

record endpoint_key =
  ek_cgroup_id :: u64
  ek_endpoint :: "u8 list"

record endpoint_metrics =
  em_request_count :: u64
  em_error_count :: u64
  em_latency_sum :: u64
  em_p95_latency :: u64
  em_last_update :: u64

record http_latency_bucket =
  count :: u64
  upper_bound_us :: u64

record http_event =
  ev_timestamp :: u64
  ev_cgroup_id :: u64
  ev_pid :: u32
  ev_status_code :: u32
  ev_latency_us :: u64
  ev_method :: "u8 list"
  ev_url :: "u8 list"

record http_state =
  active_requests :: "(u64, http_request) bpf_map"
  http_metrics_map :: "(u64, http_metrics) bpf_map"
  endpoint_metrics_map :: "(endpoint_key, endpoint_metrics) bpf_map"
  latency_histogram :: "(u64, http_latency_bucket list) bpf_map"
  read_fd_tracker :: "(u32, u32) bpf_map"
  http_events :: "http_event list"

definition http_init :: http_state where
  "http_init = \<lparr>active_requests = new_map 16384, http_metrics_map = new_map 16384,
     endpoint_metrics_map = new_map 1024, latency_histogram = new_map 16384,
     read_fd_tracker = new_map 16384, http_events = []\<rparr>"

text \<open>A fresh entry: all zero but \<open>latency_min\<close>.\<close>

definition http_metrics_start :: http_metrics where
  "http_metrics_start = \<lparr>request_count = 0, error_count = 0, latency_sum = 0, latency_max = 0,
     latency_min = 0xFFFFFFFFFFFFFFFF, status_2xx = 0, status_3xx = 0, status_4xx = 0,
     status_5xx = 0, last_update = 0\<rparr>"

definition http_request_zero :: http_request where
  "http_request_zero = \<lparr>hr_start_time = 0, hr_cgroup_id = 0, hr_pid = 0, hr_status_code = 0,
     hr_method = replicate 16 0, hr_url = replicate 256 0\<rparr>"

section \<open>Helper functions\<close>

definition get_request_id :: "u32 \<Rightarrow> u32 \<Rightarrow> u64" where
  "get_request_id pid fd = push_bit 32 (ucast pid) OR ucast fd"

definition init_buckets :: "http_latency_bucket list" where
  "init_buckets = map (\<lambda>u. \<lparr>count = 0, upper_bound_us = u\<rparr>)
     [100, 500, 1000, 5000, 10000, 50000, 100000, 500000, 1000000, 0xFFFFFFFF]"

text \<open>The loop over the ten buckets: the first that takes the latency is bumped.\<close>

function bump_bucket ::
  "u64 \<Rightarrow> nat \<Rightarrow> http_latency_bucket list \<Rightarrow> http_latency_bucket list" where
  "bump_bucket latency_us i buckets =
     (if i < 10 then
        if latency_us \<le> upper_bound_us (buckets ! i) \<or> i = 9
        then buckets[i := (buckets ! i)\<lparr>count := count (buckets ! i) + 1\<rparr>]
        else bump_bucket latency_us (i + 1) buckets
      else buckets)"
  by pat_completeness auto
termination
  by (relation "measure (\<lambda>(l, i, b). 10 - i)") auto

declare bump_bucket.simps [simp del]

definition update_latency_histogram :: "u64 \<Rightarrow> u64 \<Rightarrow> http_state \<Rightarrow> http_state" where
  "update_latency_histogram cgroup_id latency_us s =
     (let hm = lookup_or_init (latency_histogram s) cgroup_id init_buckets
      in s\<lparr>latency_histogram := map_modify hm cgroup_id (bump_bucket latency_us 0)\<rparr>)"

text \<open>
  \<open>data[i] == b0 && data[i+1] == b1 && ...\<close>: reads stop at the first byte that differs.
\<close>

fun looking_at :: "(nat \<Rightarrow> u8 option) \<Rightarrow> nat \<Rightarrow> u8 list \<Rightarrow> bool option" where
  "looking_at rd i [] = Some True"
| "looking_at rd i (b # bs) =
     (case rd i of
        None \<Rightarrow> None
      | Some c \<Rightarrow> if c = b then looking_at rd (i + 1) bs else Some False)"

declare looking_at.simps(2) [simp del]

definition url_end :: "u8 \<Rightarrow> bool" where
  "url_end c \<longleftrightarrow> c = 32 \<or> c = 13 \<or> c = 10"

text \<open>The loop that copies the URL behind \<open>GET\<close> and a space; 256 is the size of the buffer.\<close>

function copy_url ::
  "(nat \<Rightarrow> u8 option) \<Rightarrow> u64 \<Rightarrow> nat \<Rightarrow> u8 list \<Rightarrow> u8 list option" where
  "copy_url rd sz i url =
     (if i < unat sz \<and> i < 4 + 256 - 1 then
        case rd i of
          None \<Rightarrow> None
        | Some c \<Rightarrow> if url_end c then Some url else copy_url rd sz (i + 1) (url[i - 4 := c])
      else Some url)"
  by pat_completeness auto
termination
  by (relation "measure (\<lambda>(rd, sz, i, url). 259 - i)") auto

declare copy_url.simps [simp del]

text \<open>\<open>__builtin_memcpy(dst, lit, n)\<close> with \<open>n\<close> the literal's size, NUL included.\<close>

definition memcpy_lit :: "u8 list \<Rightarrow> string \<Rightarrow> u8 list" where
  "memcpy_lit dst lit = cstr lit @ drop (length (cstr lit)) dst"

definition extract_http_info ::
  "(nat \<Rightarrow> u8 option) \<Rightarrow> u64 \<Rightarrow> http_request \<Rightarrow> http_request option" where
  "extract_http_info rd sz req =
     (if sz \<ge> 4 then
        case looking_at rd 0 (bytes_of ''GET '') of
          None \<Rightarrow> None
        | Some True \<Rightarrow>
            map_option (\<lambda>url. req\<lparr>hr_method := memcpy_lit (hr_method req) ''GET'', hr_url := url\<rparr>)
              (copy_url rd sz 4 (hr_url req))
        | Some False \<Rightarrow>
          (case looking_at rd 0 (bytes_of ''POST'') of
             None \<Rightarrow> None
           | Some True \<Rightarrow> Some (req\<lparr>hr_method := memcpy_lit (hr_method req) ''POST''\<rparr>)
           | Some False \<Rightarrow>
             (case looking_at rd 0 (bytes_of ''PUT '') of
                None \<Rightarrow> None
              | Some True \<Rightarrow> Some (req\<lparr>hr_method := memcpy_lit (hr_method req) ''PUT''\<rparr>)
              | Some False \<Rightarrow>
                (case looking_at rd 0 (bytes_of ''DEL'') of
                   None \<Rightarrow> None
                 | Some True \<Rightarrow> Some (req\<lparr>hr_method := memcpy_lit (hr_method req) ''DELETE''\<rparr>)
                 | Some False \<Rightarrow> Some req)))
      else Some req)"

definition is_digit :: "u8 \<Rightarrow> bool" where
  "is_digit c \<longleftrightarrow> 48 \<le> c \<and> c \<le> 57"

text \<open>
  The inner loop of \<open>extract_status_code\<close>: from offset \<open>j\<close>, a space followed by three digits.
  The result is \<open>None\<close> for a bad read, \<open>Some None\<close> when the loop ends, \<open>Some (Some c)\<close> for a
  returned code. Loop bounds are \<open>size_t\<close> expressions and wrap around.
\<close>

function scan_code :: "(nat \<Rightarrow> u8 option) \<Rightarrow> u64 \<Rightarrow> nat \<Rightarrow> u32 option option" where
  "scan_code rd sz j =
     (if j < unat (sz - 3) then
        case rd j of
          None \<Rightarrow> None
        | Some c \<Rightarrow>
            if c = 32 \<and> j + 3 < unat sz then
              case rd (j + 1) of
                None \<Rightarrow> None
              | Some d1 \<Rightarrow>
                if \<not> is_digit d1 then scan_code rd sz (j + 1) else
                case rd (j + 2) of
                  None \<Rightarrow> None
                | Some d2 \<Rightarrow>
                  if \<not> is_digit d2 then scan_code rd sz (j + 1) else
                  case rd (j + 3) of
                    None \<Rightarrow> None
                  | Some d3 \<Rightarrow>
                    if \<not> is_digit d3 then scan_code rd sz (j + 1)
                    else Some (Some ((ucast d1 - 48) * 100 + (ucast d2 - 48) * 10 + (ucast d3 - 48)))
            else scan_code rd sz (j + 1)
      else Some None)"
  by pat_completeness auto
termination
  by (relation "measure (\<lambda>(rd, sz, j). unat (sz - 3) - j)") auto

declare scan_code.simps [simp del]

function scan_http :: "(nat \<Rightarrow> u8 option) \<Rightarrow> u64 \<Rightarrow> nat \<Rightarrow> u32 option" where
  "scan_http rd sz i =
     (if i < unat (sz - 12) then
        case looking_at rd i (bytes_of ''HTTP'') of
          None \<Rightarrow> None
        | Some False \<Rightarrow> scan_http rd sz (i + 1)
        | Some True \<Rightarrow>
          (case scan_code rd sz (i + 4) of
             None \<Rightarrow> None
           | Some (Some code) \<Rightarrow> Some code
           | Some None \<Rightarrow> scan_http rd sz (i + 1))
      else Some 0)"
  by pat_completeness auto
termination
  by (relation "measure (\<lambda>(rd, sz, i). unat (sz - 12) - i)") auto

declare scan_http.simps [simp del]

definition extract_status_code :: "(nat \<Rightarrow> u8 option) \<Rightarrow> u64 \<Rightarrow> u32 option" where
  "extract_status_code rd sz = scan_http rd sz 0"

section \<open>Programs\<close>

text \<open>A plain load of one byte of user memory.\<close>

definition user_byte :: "'ev kenv \<Rightarrow> u64 \<Rightarrow> nat \<Rightarrow> u8 option" where
  "user_byte E buf i =
     (case user_mem E (buf + of_nat i) 1 of Some [b] \<Rightarrow> Some b | _ \<Rightarrow> None)"

definition trace_http_request_start ::
  "http_event kenv \<Rightarrow> trace_event_raw_sys_enter \<Rightarrow> http_state \<Rightarrow> bpf_fault + http_state" where
  "trace_http_request_start E ctx s =
     (let pid = pid_of (pid_tgid E);
          cgroup_id = cgroup E;
          fd = (ucast (se_args ctx 0) :: s32);
          buf = se_args ctx 1;
          cnt = se_args ctx 2
      in if fd <s 3 \<or> cnt < 10 \<or> cnt > 8192 then Inr s
         else
           let request_id = get_request_id pid fd;
               req = http_request_zero\<lparr>hr_start_time := ktime E 0, hr_cgroup_id := cgroup_id,
                                       hr_pid := pid\<rparr>
           in case extract_http_info (user_byte E buf) (if cnt < 512 then cnt else 512) req of
                None \<Rightarrow> Inl OutOfBounds
              | Some req' \<Rightarrow> Inr (s\<lparr>active_requests := map_put (active_requests s) request_id req'\<rparr>))"

definition trace_http_read_start ::
  "http_event kenv \<Rightarrow> trace_event_raw_sys_enter \<Rightarrow> http_state \<Rightarrow> http_state" where
  "trace_http_read_start E ctx s =
     (let pid = pid_of (pid_tgid E);
          fd = (ucast (se_args ctx 0) :: u32)
      in s\<lparr>read_fd_tracker := map_put (read_fd_tracker s) pid fd\<rparr>)"

definition raise_max :: "u64 \<Rightarrow> http_metrics \<Rightarrow> http_metrics" where
  "raise_max l c = (if l > latency_max c then c\<lparr>latency_max := l\<rparr> else c)"

definition lower_min :: "u64 \<Rightarrow> http_metrics \<Rightarrow> http_metrics" where
  "lower_min l c = (if l < latency_min c then c\<lparr>latency_min := l\<rparr> else c)"

definition count_status :: "u32 \<Rightarrow> http_metrics \<Rightarrow> http_metrics" where
  "count_status code c =
     (if code \<ge> 200 \<and> code < 300 then c\<lparr>status_2xx := status_2xx c + 1\<rparr>
      else if code \<ge> 300 \<and> code < 400 then c\<lparr>status_3xx := status_3xx c + 1\<rparr>
      else if code \<ge> 400 \<and> code < 500 then
        c\<lparr>status_4xx := status_4xx c + 1, error_count := error_count c + 1\<rparr>
      else if code \<ge> 500 then
        c\<lparr>status_5xx := status_5xx c + 1, error_count := error_count c + 1\<rparr>
      else c)"

text \<open>The metrics block of \<open>trace_http_request_end\<close>.\<close>

definition charge_request :: "u32 \<Rightarrow> u64 \<Rightarrow> u64 \<Rightarrow> http_metrics \<Rightarrow> http_metrics" where
  "charge_request code l now c =
     count_status code (lower_min l (raise_max l
       (c\<lparr>request_count := request_count c + 1, latency_sum := latency_sum c + l,
          last_update := now\<rparr>)))"

definition trace_http_request_end ::
  "http_event kenv \<Rightarrow> trace_event_raw_sys_exit \<Rightarrow> http_state \<Rightarrow> http_state" where
  "trace_http_request_end E ctx s =
     (let pid = pid_of (pid_tgid E)
      in if sx_ret ctx \<le>s 0 then s
         else case map_lookup (read_fd_tracker s) pid of
           None \<Rightarrow> s
         | Some fd \<Rightarrow>
           let s1 = s\<lparr>read_fd_tracker := map_delete (read_fd_tracker s) pid\<rparr>;
               request_id = get_request_id pid fd
           in case map_lookup (active_requests s1) request_id of
                None \<Rightarrow> s1
              | Some req \<Rightarrow>
                let end_time = ktime E 0;
                    latency_us = (end_time - hr_start_time req) div 1000;
                    status_code = 200;
                    cg = hr_cgroup_id req;
                    mm = lookup_or_init (http_metrics_map s1) cg http_metrics_start;
                    s2 = s1\<lparr>http_metrics_map :=
                           map_modify mm cg (charge_request status_code latency_us end_time)\<rparr>;
                    s3 = update_latency_histogram cg latency_us s2
                in s3\<lparr>http_events := ringbuf_emit (reserve E 0)
                        (\<lambda>ev. ev\<lparr>ev_timestamp := end_time, ev_cgroup_id := cg, ev_pid := hr_pid req,
                                ev_status_code := status_code, ev_latency_us := latency_us,
                                ev_method := hr_method req, ev_url := take 64 (hr_url req)\<rparr>)
                        (http_events s3),
                      active_requests := map_delete (active_requests s3) request_id\<rparr>)"

definition trace_go_http_start :: "http_event kenv \<Rightarrow> pt_regs \<Rightarrow> http_state \<Rightarrow> http_state" where
  "trace_go_http_start E ctx s =
     (let pid = pid_of (pid_tgid E);
          request_id = get_request_id pid 0;
          req = http_request_zero\<lparr>hr_start_time := ktime E 0, hr_cgroup_id := cgroup E,
                  hr_pid := pid, hr_method := memcpy_lit (hr_method http_request_zero) ''HTTP''\<rparr>
      in s\<lparr>active_requests := map_put (active_requests s) request_id req\<rparr>)"

definition charge_go_request :: "u64 \<Rightarrow> u64 \<Rightarrow> http_metrics \<Rightarrow> http_metrics" where
  "charge_go_request l now c =
     lower_min l (raise_max l
       (c\<lparr>request_count := request_count c + 1, latency_sum := latency_sum c + l,
          status_2xx := status_2xx c + 1, last_update := now\<rparr>))"

definition trace_go_http_end :: "http_event kenv \<Rightarrow> pt_regs \<Rightarrow> http_state \<Rightarrow> http_state" where
  "trace_go_http_end E ctx s =
     (let pid = pid_of (pid_tgid E);
          request_id = get_request_id pid 0
      in case map_lookup (active_requests s) request_id of
           None \<Rightarrow> s
         | Some req \<Rightarrow>
           let end_time = ktime E 0;
               latency_us = (end_time - hr_start_time req) div 1000;
               cg = hr_cgroup_id req;
               mm = lookup_or_init (http_metrics_map s) cg http_metrics_start;
               s2 = s\<lparr>http_metrics_map := map_modify mm cg (charge_go_request latency_us end_time)\<rparr>;
               s3 = update_latency_histogram cg latency_us s2
           in s3\<lparr>active_requests := map_delete (active_requests s3) request_id\<rparr>)"

datatype http_hook =
  Write_Enter "http_event kenv" trace_event_raw_sys_enter
| Read_Enter "http_event kenv" trace_event_raw_sys_enter
| Read_Exit "http_event kenv" trace_event_raw_sys_exit
| Go_Start "http_event kenv" pt_regs
| Go_End "http_event kenv" pt_regs

text \<open>A faulting parser has not written any map yet.\<close>

fun http_step :: "http_hook \<Rightarrow> http_state \<Rightarrow> http_state" where
  "http_step (Write_Enter E ctx) s =
     (case trace_http_request_start E ctx s of Inl _ \<Rightarrow> s | Inr s' \<Rightarrow> s')"
| "http_step (Read_Enter E ctx) s = trace_http_read_start E ctx s"
| "http_step (Read_Exit E ctx) s = trace_http_request_end E ctx s"
| "http_step (Go_Start E ctx) s = trace_go_http_start E ctx s"
| "http_step (Go_End E ctx) s = trace_go_http_end E ctx s"

fun http_cgroup :: "http_hook \<Rightarrow> u64" where
  "http_cgroup (Write_Enter E ctx) = cgroup E"
| "http_cgroup (Read_Enter E ctx) = cgroup E"
| "http_cgroup (Read_Exit E ctx) = cgroup E"
| "http_cgroup (Go_Start E ctx) = cgroup E"
| "http_cgroup (Go_End E ctx) = cgroup E"

section \<open>The latency histogram\<close>

definition bounds :: "u64 list" where
  "bounds = [100, 500, 1000, 5000, 10000, 50000, 100000, 500000, 1000000, 0xFFFFFFFF]"

definition buckets_ok :: "http_latency_bucket list \<Rightarrow> bool" where
  "buckets_ok bs \<longleftrightarrow> map upper_bound_us bs = bounds"

text \<open>The bucket of a latency: as many of the first nine bounds lie below it.\<close>

definition bucket_of :: "u64 \<Rightarrow> nat" where
  "bucket_of l = length (takeWhile (\<lambda>u. u < l) (take 9 bounds))"

definition inc_bucket :: "http_latency_bucket \<Rightarrow> http_latency_bucket" where
  "inc_bucket b = b\<lparr>count := count b + 1\<rparr>"

lemma bump_bucket_takeWhile:
  "length bs = 10 \<Longrightarrow> i \<le> 9 \<Longrightarrow>
     bump_bucket l i bs =
       (let j = i + length (takeWhile (\<lambda>b. upper_bound_us b < l) (drop i (take 9 bs)))
        in bs[j := inc_bucket (bs ! j)])"
proof (induction l i bs rule: bump_bucket.induct)
  case (1 l i bs)
  show ?case
  proof (cases "l \<le> upper_bound_us (bs ! i) \<or> i = 9")
    case True
    then have "takeWhile (\<lambda>b. upper_bound_us b < l) (drop i (take 9 bs)) = []"
      using "1.prems" by (cases "i = 9") (auto simp: takeWhile_eq_Nil_iff hd_drop_conv_nth)
    with True "1.prems" show ?thesis
      by (subst bump_bucket.simps) (simp add: inc_bucket_def)
  next
    case False
    then have "drop i (take 9 bs) = bs ! i # drop (i + 1) (take 9 bs)"
      using "1.prems" by (simp add: Cons_nth_drop_Suc [symmetric])
    with False "1.prems" "1.IH" show ?thesis
      by (subst bump_bucket.simps) (auto simp: Let_def not_le)
  qed
qed

lemma buckets_ok_length: "buckets_ok bs \<Longrightarrow> length bs = 10"
  by (auto simp: buckets_ok_def bounds_def dest: arg_cong [of _ _ length])

lemma bucket_of_le: "bucket_of l \<le> 9"
  using length_takeWhile_le [of "\<lambda>u. u < l" "take 9 bounds"] by (simp add: bucket_of_def bounds_def)

lemma bump_bucket_ok:
  assumes "buckets_ok bs"
  shows "bump_bucket l 0 bs = bs[bucket_of l := inc_bucket (bs ! bucket_of l)]"
proof -
  have b: "bounds = map upper_bound_us bs" using assms by (simp add: buckets_ok_def)
  have "takeWhile (\<lambda>u. u < l) (take 9 bounds) =
      map upper_bound_us (takeWhile (\<lambda>b. upper_bound_us b < l) (take 9 bs))"
    unfolding b by (simp only: take_map takeWhile_map comp_def)
  then have "bucket_of l = length (takeWhile (\<lambda>b. upper_bound_us b < l) (take 9 bs))"
    by (simp add: bucket_of_def)
  then show ?thesis
    using bump_bucket_takeWhile [of bs 0 l] buckets_ok_length [OF assms] by (simp add: Let_def)
qed

lemma upper_inc_bucket [simp]: "upper_bound_us (inc_bucket b) = upper_bound_us b"
  by (simp add: inc_bucket_def)

lemma buckets_ok_inc: "buckets_ok bs \<Longrightarrow> i < length bs \<Longrightarrow> buckets_ok (bs[i := inc_bucket (bs ! i)])"
  by (metis buckets_ok_def list_update_id map_update nth_map upper_inc_bucket)

lemma buckets_ok_bump: "buckets_ok bs \<Longrightarrow> buckets_ok (bump_bucket l 0 bs)"
  using bucket_of_le [of l] by (simp add: bump_bucket_ok buckets_ok_inc buckets_ok_length)

lemma buckets_ok_init: "buckets_ok init_buckets"
  by (simp add: buckets_ok_def init_buckets_def bounds_def comp_def)

definition observations :: "http_latency_bucket list \<Rightarrow> u64" where
  "observations bs = sum_list (map count bs)"

lemma observations_inc:
  "i < length bs \<Longrightarrow> observations (bs[i := inc_bucket (bs ! i)]) = observations bs + 1"
  by (induction bs arbitrary: i) (auto simp: observations_def inc_bucket_def split: nat.splits)

lemma observations_bump: "buckets_ok bs \<Longrightarrow> observations (bump_bucket l 0 bs) = observations bs + 1"
  using bucket_of_le [of l] by (simp add: bump_bucket_ok observations_inc buckets_ok_length)

lemma observations_init [simp]: "observations init_buckets = 0"
  by (simp add: observations_def init_buckets_def)

section \<open>Invariant of the metrics\<close>

definition http_entry_ok :: "http_metrics \<Rightarrow> bool" where
  "http_entry_ok c \<longleftrightarrow>
     request_count c = status_2xx c \<and> status_3xx c = 0 \<and> status_4xx c = 0 \<and> status_5xx c = 0 \<and>
     error_count c = 0"

definition latency_ordered :: "http_metrics \<Rightarrow> bool" where
  "latency_ordered c \<longleftrightarrow> latency_min c \<le> latency_max c"

lemma http_entry_ok_start: "http_entry_ok http_metrics_start"
  by (simp add: http_entry_ok_def http_metrics_start_def)

lemma min_max_simps [simp]:
  "latency_min (raise_max l c) = latency_min c"
  "latency_max (raise_max l c) = max l (latency_max c)"
  "latency_max (lower_min l c) = latency_max c"
  "latency_min (lower_min l c) = min l (latency_min c)"
  "request_count (raise_max l c) = request_count c" "request_count (lower_min l c) = request_count c"
  "latency_sum (raise_max l c) = latency_sum c" "latency_sum (lower_min l c) = latency_sum c"
  "status_2xx (raise_max l c) = status_2xx c" "status_2xx (lower_min l c) = status_2xx c"
  "status_3xx (raise_max l c) = status_3xx c" "status_3xx (lower_min l c) = status_3xx c"
  "status_4xx (raise_max l c) = status_4xx c" "status_4xx (lower_min l c) = status_4xx c"
  "status_5xx (raise_max l c) = status_5xx c" "status_5xx (lower_min l c) = status_5xx c"
  "error_count (raise_max l c) = error_count c" "error_count (lower_min l c) = error_count c"
  by (auto simp: raise_max_def lower_min_def max_def min_def)

lemma http_entry_ok_charge:
  "http_entry_ok c \<Longrightarrow> http_entry_ok (charge_request 200 l now c)"
  "http_entry_ok c \<Longrightarrow> http_entry_ok (charge_go_request l now c)"
  by (simp_all add: http_entry_ok_def charge_request_def charge_go_request_def count_status_def)

lemma latency_ordered_charge:
  "latency_ordered (charge_request 200 l now c)" "latency_ordered (charge_go_request l now c)"
  by (auto simp: latency_ordered_def charge_request_def charge_go_request_def count_status_def
      min_def max_def)

lemma request_count_charge [simp]:
  "request_count (charge_request code l now c) = request_count c + 1"
  "request_count (charge_go_request l now c) = request_count c + 1"
  by (simp_all add: charge_request_def charge_go_request_def count_status_def)

lemma request_count_start [simp]: "request_count http_metrics_start = 0"
  by (simp add: http_metrics_start_def)

lemma hist_frame [simp]:
  "active_requests (update_latency_histogram cg l s) = active_requests s"
  "http_metrics_map (update_latency_histogram cg l s) = http_metrics_map s"
  "read_fd_tracker (update_latency_histogram cg l s) = read_fd_tracker s"
  "http_events (update_latency_histogram cg l s) = http_events s"
  "endpoint_metrics_map (update_latency_histogram cg l s) = endpoint_metrics_map s"
  by (simp_all add: update_latency_histogram_def Let_def)

lemma hist_update [simp]:
  "latency_histogram (update_latency_histogram cg l s) =
     map_modify (lookup_or_init (latency_histogram s) cg init_buckets) cg (bump_bucket l 0)"
  by (simp add: update_latency_histogram_def Let_def)

text \<open>
  A completed request, from either end hook: its cgroup, latency, and what the metrics
  and histogram become.
\<close>

lemma all_entries_charge:
  assumes "all_entries P m" and "\<And>c. P c \<or> c = v \<Longrightarrow> P (f c)"
  shows "all_entries P (map_modify (lookup_or_init m k v) k f)"
  using assms by (auto simp: all_entries_def map_simps split: if_splits)

definition http_inv :: "http_state \<Rightarrow> bool" where
  "http_inv s \<longleftrightarrow> all_entries http_entry_ok (http_metrics_map s) \<and>
     all_entries latency_ordered (http_metrics_map s) \<and>
     all_entries buckets_ok (latency_histogram s) \<and> map_keys (endpoint_metrics_map s) = {}"

lemma http_inv_step: "http_inv s \<Longrightarrow> http_inv (http_step e s)"
  by (cases e)
    (auto simp: http_inv_def trace_http_request_start_def trace_http_read_start_def
      trace_http_request_end_def trace_go_http_start_def trace_go_http_end_def Let_def
      latency_ordered_charge buckets_ok_bump buckets_ok_init http_entry_ok_charge http_entry_ok_start
      split: option.split sum.split intro!: all_entries_charge)

interpretation http_machine: event_machine http_step "\<lambda>_. True" http_inv
  by unfold_locales (rule http_inv_step)

lemma http_inv_init: "http_inv http_init"
  by (simp add: http_inv_def http_init_def)

section \<open>Histogram and request counter agree\<close>

definition requests_of :: "http_state \<Rightarrow> u64 \<Rightarrow> u64" where
  "requests_of s cg = (case map_lookup (http_metrics_map s) cg of
     None \<Rightarrow> 0 | Some c \<Rightarrow> request_count c)"

definition observed :: "http_state \<Rightarrow> u64 \<Rightarrow> u64" where
  "observed s cg = (case map_lookup (latency_histogram s) cg of
     None \<Rightarrow> 0 | Some bs \<Rightarrow> observations bs)"

definition http_fit :: "u64 set \<Rightarrow> http_state \<Rightarrow> bool" where
  "http_fit K s \<longleftrightarrow> fits K (http_metrics_map s) \<and> fits K (latency_histogram s) \<and>
     all_entries (\<lambda>req. hr_cgroup_id req \<in> K) (active_requests s) \<and>
     all_entries buckets_ok (latency_histogram s) \<and> (\<forall>cg. observed s cg = requests_of s cg)"

lemma requests_charge:
  assumes "fits K m" and "cg \<in> K" and "\<And>c. request_count (f c) = request_count c + 1"
  shows "(case map_lookup (map_modify (lookup_or_init m cg http_metrics_start) cg f) k of
            None \<Rightarrow> 0 | Some c \<Rightarrow> request_count c) =
    (case map_lookup m k of None \<Rightarrow> 0 | Some c \<Rightarrow> request_count c) + (if k = cg then 1 else 0)"
  using assms(3) fits_room [OF assms(1,2)] by (auto simp: map_simps split: option.splits)

lemma observed_charge:
  assumes "fits K m" and "cg \<in> K" and "all_entries buckets_ok m"
  shows "(case map_lookup (map_modify (lookup_or_init m cg init_buckets) cg (bump_bucket l 0)) k of
            None \<Rightarrow> 0 | Some bs \<Rightarrow> observations bs) =
    (case map_lookup m k of None \<Rightarrow> 0 | Some bs \<Rightarrow> observations bs) + (if k = cg then 1 else 0)"
  using fits_room [OF assms(1,2)] assms(3)
  by (auto simp: map_simps observations_bump buckets_ok_init all_entries_def split: option.splits)

lemma http_fit_finish:
  assumes fit: "http_fit K s" and cg: "cg \<in> K"
    and f: "\<And>c. request_count (f c) = request_count c + 1"
    and t: "http_metrics_map t = map_modify (lookup_or_init (http_metrics_map s) cg http_metrics_start) cg f"
      "latency_histogram t = map_modify (lookup_or_init (latency_histogram s) cg init_buckets) cg (bump_bucket l 0)"
      "active_requests t = map_delete (active_requests s) r"
  shows "http_fit K t"
proof -
  have "observed t k = requests_of t k" for k
    using fit cg f requests_charge [of K "http_metrics_map s" cg f k]
      observed_charge [of K "latency_histogram s" cg l k]
    by (simp add: http_fit_def observed_def requests_of_def t)
  then show ?thesis
    using fit cg
    by (auto simp: http_fit_def t fits_ops all_entries_delete buckets_ok_bump buckets_ok_init
        intro!: all_entries_charge)
qed

lemma http_fit_request_end:
  assumes "http_fit K s"
  shows "http_fit K (trace_http_request_end E ctx s)"
proof -
  { fix fd req
    assume req: "map_lookup (active_requests s) (get_request_id (pid_of (pid_tgid E)) fd) = Some req"
    then have "hr_cgroup_id req \<in> K"
      using assms by (auto simp: http_fit_def dest: all_entries_lookup)
  } note K = this
  show ?thesis
  proof (cases "map_lookup (read_fd_tracker s) (pid_of (pid_tgid E))")
    case None
    with assms show ?thesis by (simp add: trace_http_request_end_def Let_def)
  next
    case (Some fd)
    show ?thesis
    proof (cases "map_lookup (active_requests s) (get_request_id (pid_of (pid_tgid E)) fd)")
      case None
      with assms Some show ?thesis
        by (simp add: trace_http_request_end_def Let_def http_fit_def observed_def requests_of_def)
    next
      case (Some req)
      have cg: "hr_cgroup_id req \<in> K" by (rule K [OF Some])
      show ?thesis
      proof (cases "sx_ret ctx \<le>s 0")
        case False
        with Some \<open>map_lookup (read_fd_tracker s) _ = Some fd\<close> show ?thesis
          by (intro http_fit_finish [OF assms cg, of
                "charge_request 200 ((ktime E 0 - hr_start_time req) div 1000) (ktime E 0)"])
            (simp_all add: trace_http_request_end_def Let_def)
      qed (use assms in \<open>simp add: trace_http_request_end_def\<close>)
    qed
  qed
qed

lemma http_fit_go_end:
  assumes "http_fit K s"
  shows "http_fit K (trace_go_http_end E ctx s)"
proof (cases "map_lookup (active_requests s) (get_request_id (pid_of (pid_tgid E)) 0)")
  case None
  with assms show ?thesis by (simp add: trace_go_http_end_def Let_def)
next
  case (Some req)
  then have cg: "hr_cgroup_id req \<in> K"
    using assms by (auto simp: http_fit_def dest: all_entries_lookup)
  from Some show ?thesis
    by (intro http_fit_finish [OF assms cg, of
          "charge_go_request ((ktime E 0 - hr_start_time req) div 1000) (ktime E 0)"])
      (simp_all add: trace_go_http_end_def Let_def)
qed

lemma extract_keeps_cgroup:
  "extract_http_info rd sz req = Some req' \<Longrightarrow> hr_cgroup_id req' = hr_cgroup_id req"
  by (auto simp: extract_http_info_def split: if_splits option.splits bool.splits)

lemma extract_keeps_header:
  "extract_http_info rd sz req = Some req' \<Longrightarrow>
     hr_start_time req' = hr_start_time req \<and> hr_cgroup_id req' = hr_cgroup_id req \<and>
     hr_pid req' = hr_pid req"
  by (auto simp: extract_http_info_def split: if_splits option.splits bool.splits)

lemma http_fit_put:
  "http_fit K s \<Longrightarrow> hr_cgroup_id req \<in> K \<Longrightarrow>
     http_fit K (s\<lparr>active_requests := map_put (active_requests s) k req\<rparr>)"
  by (simp add: http_fit_def all_entries_put observed_def requests_of_def)

lemma http_fit_step:
  assumes "http_cgroup e \<in> K" and "http_fit K s"
  shows "http_fit K (http_step e s)"
proof (cases e)
  case (Write_Enter E ctx)
  with assms show ?thesis
    by (auto simp: trace_http_request_start_def Let_def split: option.split
        intro!: http_fit_put dest: extract_keeps_cgroup)
next
  case (Read_Enter E ctx)
  with assms show ?thesis
    by (simp add: trace_http_read_start_def Let_def http_fit_def observed_def requests_of_def)
next
  case (Go_Start E ctx)
  with assms show ?thesis
    by (auto simp: trace_go_http_start_def Let_def intro!: http_fit_put)
qed (use assms in \<open>simp_all add: http_fit_request_end http_fit_go_end\<close>)

interpretation http_counts: event_machine http_step "\<lambda>e. http_cgroup e \<in> K" "http_fit K" for K
  by unfold_locales (rule http_fit_step)

section \<open>Without the read hook nothing is measured\<close>

fun attached :: "http_hook \<Rightarrow> bool" where
  "attached (Write_Enter E ctx) = True"
| "attached (Read_Exit E ctx) = True"
| "attached _ = False"

definition unmeasured :: "http_state \<Rightarrow> bool" where
  "unmeasured s \<longleftrightarrow> map_keys (read_fd_tracker s) = {} \<and> map_keys (http_metrics_map s) = {} \<and>
     map_keys (latency_histogram s) = {} \<and> http_events s = []"

lemma no_keys: "map_keys m = {} \<Longrightarrow> map_lookup m k = None"
  using keys_map_lookup [of k m] by simp

interpretation http_attached: event_machine http_step attached unmeasured
proof
  fix e s
  assume "attached e" and "unmeasured s"
  then show "unmeasured (http_step e s)"
    by (cases e) (auto simp: unmeasured_def trace_http_request_start_def trace_http_request_end_def
        Let_def no_keys split: option.split)
qed

lemma unmeasured_init: "unmeasured http_init"
  by (simp add: unmeasured_def http_init_def)

section \<open>The parsers on a readable buffer\<close>

lemma looking_at_holds:
  "holds data rd \<Longrightarrow> i + length bs \<le> length data \<Longrightarrow>
     looking_at rd i bs = Some (take (length bs) (drop i data) = bs)"
proof (induction bs arbitrary: i)
  case (Cons b bs)
  then have "rd i = Some (data ! i)" and "drop i data = data ! i # drop (Suc i) data"
    by (simp_all add: holds_def Cons_nth_drop_Suc)
  with Cons show ?case by (auto simp: looking_at.simps(2))
qed simp

lemma looking_at_True:
  assumes "\<And>k. k \<ge> n \<Longrightarrow> rd k = None"
  shows "looking_at rd i bs = Some True \<Longrightarrow> bs \<noteq> [] \<Longrightarrow> i + length bs \<le> n"
proof (induction bs arbitrary: i)
  case (Cons b bs)
  from Cons.prems(1) have rd: "rd i \<noteq> None" and step: "looking_at rd (i + 1) bs = Some True"
    by (simp_all add: looking_at.simps(2) split: option.splits if_splits)
  have "i < n"
  proof (rule ccontr)
    assume "\<not> i < n"
    then have "rd i = None" by (intro assms) simp
    with rd show False ..
  qed
  with Cons.IH [OF step] show ?case by (cases "bs = []") simp_all
qed simp

definition url_path :: "u8 list \<Rightarrow> nat \<Rightarrow> nat \<Rightarrow> u8 list" where
  "url_path data n i = takeWhile (\<lambda>c. \<not> url_end c) (drop i (take (min n 259) data))"

lemma url_path_Cons:
  "i < n \<Longrightarrow> i < 259 \<Longrightarrow> n \<le> length data \<Longrightarrow>
     url_path data n i = (if url_end (data ! i) then [] else data ! i # url_path data n (i + 1))"
  by (simp add: url_path_def Cons_nth_drop_Suc [symmetric])

lemma url_path_end: "n \<le> i \<or> 259 \<le> i \<Longrightarrow> url_path data n i = []"
  by (auto simp: url_path_def)

lemma length_url_path: "length (url_path data n i) \<le> 259 - i"
  using length_takeWhile_le [of "\<lambda>c. \<not> url_end c" "drop i (take (min n 259) data)"]
  by (simp add: url_path_def)

lemma copy_url_holds:
  "holds data rd \<Longrightarrow> unat sz \<le> length data \<Longrightarrow> 4 \<le> i \<Longrightarrow> length url = 256 \<Longrightarrow>
     copy_url rd sz i url =
       Some (take (i - 4) url @ url_path data (unat sz) i @
             drop (i - 4 + length (url_path data (unat sz) i)) url)"
proof (induction rd sz i url rule: copy_url.induct)
  case (1 rd sz i url)
  show ?case
  proof (cases "i < unat sz \<and> i < 259")
    case False
    then show ?thesis
      by (subst copy_url.simps) (auto simp: url_path_end)
  next
    case True
    then have rd: "rd i = Some (data ! i)" using "1.prems" by (simp add: holds_def)
    show ?thesis
    proof (cases "url_end (data ! i)")
      case True
      with \<open>i < unat sz \<and> i < 259\<close> rd "1.prems" show ?thesis
        by (subst copy_url.simps) (simp add: url_path_Cons)
    next
      case False
      obtain k where k: "i = k + 4" using "1.prems"(3) le_Suc_ex by (metis add.commute)
      have "take (Suc k) (url[k := data ! i]) = take k url @ [data ! i]"
        using "1.prems" True k by (simp add: take_Suc_conv_app_nth)
      with False True rd "1.prems" "1.IH" [OF _ rd] k show ?thesis
        by (subst copy_url.simps) (simp add: url_path_Cons)
    qed
  qed
qed

lemma str_of_padded: "0 \<notin> set xs \<Longrightarrow> str_of (xs @ replicate n 0) = xs"
  by (cases n) (auto simp: str_of_def takeWhile_nonzero takeWhile_eq_all_conv)

lemma bytes_of_simps [simp]:
  "bytes_of ''GET '' = [71, 69, 84, 32]" "bytes_of ''GET'' = [71, 69, 84]"
  "bytes_of ''POST'' = [80, 79, 83, 84]" "bytes_of ''PUT '' = [80, 85, 84, 32]"
  "bytes_of ''DEL'' = [68, 69, 76]" "bytes_of ''HTTP'' = [72, 84, 84, 80]"
  by (simp_all add: bytes_of_def of_char_def)

lemma extract_total:
  "holds data rd \<Longrightarrow> unat sz \<le> length data \<Longrightarrow> length (hr_url req) = 256 \<Longrightarrow>
     extract_http_info rd sz req \<noteq> None"
  by (simp add: extract_http_info_def looking_at_holds copy_url_holds word_le_nat_alt
      split: bool.split)

lemma take_4: "take (Suc (Suc (Suc (Suc 0)))) xs = take 4 xs"
  by (simp add: numeral_eq_Suc)

lemma drop_2: "drop (Suc (Suc 0)) xs = drop 2 xs"
  by (simp add: numeral_2_eq_2)

lemma extract_get:
  "holds data rd \<Longrightarrow> unat sz \<le> length data \<Longrightarrow> 4 \<le> unat sz \<Longrightarrow> length (hr_url req) = 256 \<Longrightarrow>
   take 4 data = bytes_of ''GET '' \<Longrightarrow>
     extract_http_info rd sz req =
       Some (req\<lparr>hr_method := memcpy_lit (hr_method req) ''GET'',
                 hr_url := url_path data (unat sz) 4 @
                           drop (length (url_path data (unat sz) 4)) (hr_url req)\<rparr>)"
  by (simp add: extract_http_info_def looking_at_holds copy_url_holds word_le_nat_alt take_4)

lemma str_of_memcpy_lit:
  "(0 :: u8) \<notin> set (bytes_of lit) \<Longrightarrow> str_of (memcpy_lit dst lit) = bytes_of lit"
  by (simp add: str_of_def memcpy_lit_def cstr_def takeWhile_nonzero)

lemma url_path_no_end: "c \<in> set (url_path data n i) \<Longrightarrow> \<not> url_end c"
  by (auto simp: url_path_def dest: set_takeWhileD)

text \<open>The scan for a status code, on the shape of a status line.\<close>

lemma scan_code_skips:
  assumes "holds data rd" and "unat sz = length data" and "3 \<le> length data"
  shows "i + k + 3 < length data \<Longrightarrow> (\<forall>j < k. data ! (i + j) \<noteq> 32) \<Longrightarrow>
    scan_code rd sz i = scan_code rd sz (i + k)"
proof (induction k arbitrary: i)
  case (Suc k)
  have sz: "unat (sz - 3) = length data - 3"
    using assms by (simp add: unat_sub word_le_nat_alt)
  have "rd i = Some (data ! i)" and "data ! i \<noteq> 32"
    using assms(1) Suc.prems by (auto simp: holds_def)
  moreover have "i < unat (sz - 3)" using Suc.prems by (simp add: sz)
  ultimately have "scan_code rd sz i = scan_code rd sz (i + 1)"
    by (subst scan_code.simps) simp
  also have "\<dots> = scan_code rd sz (i + 1 + k)"
    using Suc.prems by (intro Suc.IH) (auto simp: less_Suc_eq_0_disj)
  finally show ?case by simp
qed simp

lemma scan_code_hit:
  assumes "holds data rd" and "unat sz = length data" and "j + 3 < length data"
    and "data ! j = 32" and "is_digit (data ! (j + 1))" and "is_digit (data ! (j + 2))"
    and "is_digit (data ! (j + 3))"
  shows "scan_code rd sz j = Some (Some ((ucast (data ! (j + 1)) - 48) * 100 +
     (ucast (data ! (j + 2)) - 48) * 10 + (ucast (data ! (j + 3)) - 48)))"
proof -
  have "unat (sz - 3) = length data - 3"
    using assms(2,3) by (simp add: unat_sub word_le_nat_alt)
  moreover have "rd j = Some 32" and "rd (j + 1) = Some (data ! (j + 1))"
    and "rd (j + 2) = Some (data ! (j + 2))" and "rd (j + 3) = Some (data ! (j + 3))"
    using assms(1,3,4) by (auto simp: holds_def)
  ultimately show ?thesis
    using assms by (subst scan_code.simps) simp
qed

lemma scan_http_status:
  assumes h: "holds data rd" and sz: "unat sz = length data" and len: "12 < length data"
    and start: "take 4 data = bytes_of ''HTTP''"
    and j: "4 \<le> j" "j + 3 < length data" "\<forall>k. 4 \<le> k \<and> k < j \<longrightarrow> data ! k \<noteq> 32" "data ! j = 32"
    and d: "is_digit (data ! (j + 1))" "is_digit (data ! (j + 2))" "is_digit (data ! (j + 3))"
  shows "extract_status_code rd sz = Some ((ucast (data ! (j + 1)) - 48) * 100 +
     (ucast (data ! (j + 2)) - 48) * 10 + (ucast (data ! (j + 3)) - 48))"
proof -
  have "scan_code rd sz 4 = scan_code rd sz (4 + (j - 4))"
    using j len by (intro scan_code_skips [OF h sz]) auto
  then have "scan_code rd sz 4 = scan_code rd sz j" using j(1) by simp
  also note scan_code_hit [OF h sz j(2,4) d]
  finally have "scan_code rd sz 4 = Some (Some ((ucast (data ! (j + 1)) - 48) * 100 +
     (ucast (data ! (j + 2)) - 48) * 10 + (ucast (data ! (j + 3)) - 48)))" .
  moreover have "unat (sz - 12) = length data - 12"
    using sz len by (simp add: unat_sub word_le_nat_alt)
  moreover have "looking_at rd 0 (bytes_of ''HTTP'') = Some True"
    using h len start by (simp add: looking_at_holds take_4)
  ultimately show ?thesis
    using len unfolding extract_status_code_def by (subst scan_http.simps) simp
qed

lemma scan_http_off_end:
  assumes "unat sz < 12" and "length data = unat sz" and "holds data rd"
    and out: "\<And>k. k \<ge> length data \<Longrightarrow> rd k = None"
    and no: "\<And>i. i + 4 \<le> length data \<Longrightarrow> take 4 (drop i data) \<noteq> bytes_of ''HTTP''"
  shows "i \<le> length data \<Longrightarrow> scan_http rd sz i = None"
proof (induction "length data - i" arbitrary: i)
  case 0
  then have "rd i = None" and "i = length data" using out by auto
  moreover have "i < unat (sz - 12)"
    using 0 assms(1,2) by (simp add: unat_sub_if_size word_size)
  ultimately show ?case by (subst scan_http.simps) (simp add: looking_at.simps(2))
next
  case (Suc n)
  then have "i < length data" by simp
  then have lt: "i < unat (sz - 12)"
    using assms(1,2) by (simp add: unat_sub_if_size word_size)
  have "looking_at rd i (bytes_of ''HTTP'') \<noteq> Some True"
  proof
    assume t: "looking_at rd i (bytes_of ''HTTP'') = Some True"
    have "i + length (bytes_of ''HTTP'') \<le> length data"
      by (rule looking_at_True [OF _ t]) (simp_all add: out)
    with t no [of i] looking_at_holds [OF assms(3), of i "bytes_of ''HTTP''"] show False
      by (simp add: numeral_eq_Suc)
  qed
  then consider "looking_at rd i (bytes_of ''HTTP'') = None"
    | "looking_at rd i (bytes_of ''HTTP'') = Some False" by (metis option.exhaust)
  then show ?case
  proof cases
    case 1
    with lt show ?thesis by (subst scan_http.simps) simp
  next
    case 2
    have "scan_http rd sz (i + 1) = None"
      using Suc by (intro Suc.hyps(1)) auto
    with lt 2 show ?thesis by (subst scan_http.simps) simp
  qed
qed

section \<open>Examples\<close>

definition enter_ctx :: "u64 \<Rightarrow> u64 \<Rightarrow> u64 \<Rightarrow> trace_event_raw_sys_enter" where
  "enter_ctx fd buf n = \<lparr>se_ent = entry0, se_id = 1,
     se_args = (\<lambda>i. if i = 0 then fd else if i = 1 then buf else if i = 2 then n else 0)\<rparr>"

definition exit_ctx :: "s64 \<Rightarrow> trace_event_raw_sys_exit" where
  "exit_ctx r = \<lparr>sx_ent = entry0, sx_id = 0, sx_ret = r\<rparr>"

definition event0 :: http_event where
  "event0 = \<lparr>ev_timestamp = 0, ev_cgroup_id = 0, ev_pid = 0, ev_status_code = 0, ev_latency_us = 0,
     ev_method = [], ev_url = []\<rparr>"

definition bytes0 :: "u8 list" where
  "bytes0 = [71, 69, 84, 32, 47, 105, 32, 72, 84, 84, 80]"

text \<open>User memory at address 4096 holds \<open>GET /i HTTP\<close>.\<close>

definition at_time :: "u64 \<Rightarrow> http_event kenv" where
  "at_time t = env0\<lparr>ktime := (\<lambda>_. t), reserve := (\<lambda>_. Some event0),
     user_mem := (\<lambda>a n. if 4096 \<le> a \<and> a < 4107 \<and> n = 1 then Some [bytes0 ! unat (a - 4096)] else None)\<rparr>"

lemma http_example_simps [simp]:
  "cgroup (at_time t) = 1" "ktime (at_time t) n = t" "pid_tgid (at_time t) = 4294967297"
  "reserve (at_time t) n = Some event0"
  "se_args (enter_ctx fd buf len) 0 = fd" "se_args (enter_ctx fd buf len) 1 = buf"
  "se_args (enter_ctx fd buf len) 2 = len" "sx_ret (exit_ctx r) = r"
  by (simp_all add: at_time_def env0_def enter_ctx_def exit_ctx_def)

lemma pid_example [simp]: "pid_of 4294967297 = 1"
  by (simp add: pid_of_def drop_bit_eq_div)

lemma holds_example: "holds bytes0 (user_byte (at_time t) 4096)"
  unfolding holds_def
proof (intro allI impI)
  fix i
  assume "i < length bytes0"
  then have "i = 0 \<or> i = 1 \<or> i = 2 \<or> i = 3 \<or> i = 4 \<or> i = 5 \<or> i = 6 \<or> i = 7 \<or> i = 8 \<or> i = 9 \<or> i = 10"
    by (simp add: bytes0_def numeral_eq_Suc less_Suc_eq)
  then show "user_byte (at_time t) 4096 i = Some (bytes0 ! i)"
    by (elim disjE) (simp_all add: user_byte_def at_time_def)
qed

lemma extract_example:
  "length (hr_url req) = 256 \<Longrightarrow>
     extract_http_info (user_byte (at_time t) 4096) 11 req =
       Some (req\<lparr>hr_method := memcpy_lit (hr_method req) ''GET'', hr_url := [47, 105] @ drop 2 (hr_url req)\<rparr>)"
  by (subst extract_get [OF holds_example]) (simp_all add: bytes0_def url_path_def url_end_def drop_2)

section \<open>Properties\<close>

text \<open>
  Property C21. The histogram and the request counter of a cgroup always agree: over any run of
  all hooks that uses at most 16384 cgroups, the ten bucket counts of a cgroup add up to its
  request count (modulo \<open>2 ^ 64\<close>).
\<close>

theorem histogram_total_is_request_count:
  assumes "finite K" and "card K \<le> 16384" and "list_all (\<lambda>e. http_cgroup e \<in> K) es"
  shows "observed (fold http_step es http_init) cg = requests_of (fold http_step es http_init) cg"
proof -
  have "http_fit K http_init"
    using assms(1,2) by (simp add: http_fit_def http_init_def fits_new observed_def requests_of_def)
  from http_counts.run_inv [OF assms(3) this] show ?thesis by (simp add: http_fit_def)
qed

theorem histogram_total_is_request_count_witness:
  "observed (fold http_step [Go_Start (at_time 0) regs0, Go_End (at_time 7000) regs0] http_init) 1
   = requests_of (fold http_step [Go_Start (at_time 0) regs0, Go_End (at_time 7000) regs0] http_init) 1"
  by (rule histogram_total_is_request_count [of "{1}"]) simp_all

text \<open>
  Every latency lands in exactly one bucket, the right one: on a histogram with the
  standard bounds, recording a latency increments precisely the bucket indexed by the number of
  the first nine bounds that lie below it (so a latency equal to a bound belongs to that bound's
  bucket, and anything above 1000000 to the last), and changes nothing else.
\<close>

theorem latency_lands_in_its_bucket:
  assumes "all_entries buckets_ok (latency_histogram s)"
    and "map_lookup (latency_histogram s) cg \<noteq> None \<or> map_room (latency_histogram s)"
    and "old = (case map_lookup (latency_histogram s) cg of None \<Rightarrow> init_buckets | Some bs \<Rightarrow> bs)"
  shows "map_lookup (latency_histogram (update_latency_histogram cg l s)) cg =
    Some (old[bucket_of l := inc_bucket (old ! bucket_of l)]) \<and>
    (\<forall>k. k \<noteq> cg \<longrightarrow> map_lookup (latency_histogram (update_latency_histogram cg l s)) k =
                    map_lookup (latency_histogram s) k)"
  using assms
  by (auto simp: map_simps bump_bucket_ok buckets_ok_init dest: all_entries_lookup split: option.splits)

theorem latency_lands_in_its_bucket_witness:
  "bucket_of 100 = 0 \<and> bucket_of 101 = 1 \<and> bucket_of 99999999 = 9 \<and>
   map_lookup (latency_histogram (update_latency_histogram 5 101 http_init)) 5 =
     Some (init_buckets[1 := inc_bucket (init_buckets ! 1)])"
proof -
  have b: "bucket_of 100 = 0" "bucket_of 101 = 1" "bucket_of 99999999 = 9"
    by (simp_all add: bucket_of_def bounds_def)
  have "map_lookup (latency_histogram (update_latency_histogram 5 101 http_init)) 5 =
     Some (init_buckets[bucket_of 101 := inc_bucket (init_buckets ! bucket_of 101)])"
    using latency_lands_in_its_bucket [of http_init 5 init_buckets 101]
    by (simp add: http_init_def map_room_def new_map_def map_lookup_def all_entries_def)
  with b show ?thesis by simp
qed

text \<open>
  In every reachable state the metrics of a cgroup are consistent: the smallest
  latency is at most the largest; and, since the status code is a constant 200, every
  request is counted as successful and the error counters stay zero.
\<close>

theorem http_metrics_consistent:
  assumes "map_lookup (http_metrics_map (fold http_step es http_init)) cg = Some c"
  shows "latency_min c \<le> latency_max c \<and> request_count c = status_2xx c \<and>
    status_3xx c = 0 \<and> status_4xx c = 0 \<and> status_5xx c = 0 \<and> error_count c = 0"
proof -
  have "http_inv (fold http_step es http_init)"
    by (rule http_machine.run_inv) (simp_all add: list_all_iff http_inv_init)
  then show ?thesis
    using assms
    by (auto simp: http_inv_def http_entry_ok_def latency_ordered_def dest!: all_entries_lookup)
qed

theorem http_metrics_consistent_witness:
  "\<exists>c. map_lookup (http_metrics_map (fold http_step
       [Go_Start (at_time 0) regs0, Go_End (at_time 7000) regs0] http_init)) 1 = Some c \<and>
     latency_min c \<le> latency_max c \<and> latency_sum c = 7"
proof -
  let ?es = "[Go_Start (at_time 0) regs0, Go_End (at_time 7000) regs0]"
  obtain c where c: "map_lookup (http_metrics_map (fold http_step ?es http_init)) 1 = Some c"
    and l: "latency_sum c = 7"
    by (simp add: trace_go_http_start_def trace_go_http_end_def http_init_def Let_def map_simps
        map_room_def new_map_def map_lookup_def map_put_def map_update_elem_def lookup_or_init_def
        map_modify_def charge_go_request_def http_metrics_start_def)
  with http_metrics_consistent [OF c] show ?thesis by blast
qed

text \<open>
  With only the two system-call hooks that \<^verbatim>\<open>http_metrics.go\<close> attaches (entry of
  write, exit of read), nothing is ever measured: without the entry hook of read the descriptor
  table stays empty, so no request ends, no metrics entry is created and no event is emitted.
\<close>

theorem attached_hooks_measure_nothing:
  assumes "list_all attached es"
  shows "map_lookup (http_metrics_map (fold http_step es http_init)) cg = None \<and>
    map_lookup (latency_histogram (fold http_step es http_init)) cg = None \<and>
    http_events (fold http_step es http_init) = []"
  using http_attached.run_inv [OF assms unmeasured_init] by (simp add: unmeasured_def no_keys)

theorem attached_hooks_measure_nothing_witness:
  "http_events (fold http_step [Write_Enter (at_time 0) (enter_ctx 5 4096 11),
     Read_Exit (at_time 9000) (exit_ctx 100)] http_init) = []"
  using attached_hooks_measure_nothing [of "[Write_Enter (at_time 0) (enter_ctx 5 4096 11),
     Read_Exit (at_time 9000) (exit_ctx 100)]"]
  by simp

text \<open>
  Property C22. A request written, then answered, through one descriptor of one process, with the
  read hook attached, is measured end to end: the request counter of its cgroup goes up by
  one, both tracking tables forget it, and the event carries the method and URL parsed at the
  write and the time between the two clock readings in microseconds.
\<close>

theorem request_measured_end_to_end:
  assumes "trace_http_request_start E1 c1 s = Inr s1" and "s1 \<noteq> s"
    and "s2 = trace_http_read_start E2 c2 s1" and "s3 = trace_http_request_end E3 c3 s2"
    and "pid_of (pid_tgid E2) = pid_of (pid_tgid E1)" and "pid_of (pid_tgid E3) = pid_of (pid_tgid E1)"
    and "(ucast (se_args c2 0) :: u32) = ucast (se_args c1 0)" and "0 <s sx_ret c3"
    and "map_lookup (active_requests s) (get_request_id (pid_of (pid_tgid E1)) (ucast (se_args c1 0))) \<noteq> None
         \<or> map_room (active_requests s)"
    and "map_lookup (read_fd_tracker s) (pid_of (pid_tgid E1)) \<noteq> None \<or> map_room (read_fd_tracker s)"
    and "map_lookup (http_metrics_map s) (cgroup E1) \<noteq> None \<or> map_room (http_metrics_map s)"
    and "reserve E3 0 = Some old"
  shows "\<exists>req. extract_http_info (user_byte E1 (se_args c1 1))
        (if se_args c1 2 < 512 then se_args c1 2 else 512)
        (http_request_zero\<lparr>hr_start_time := ktime E1 0, hr_cgroup_id := cgroup E1,
           hr_pid := pid_of (pid_tgid E1)\<rparr>) = Some req \<and>
     requests_of s3 (cgroup E1) = requests_of s (cgroup E1) + 1 \<and>
     map_lookup (active_requests s3) (get_request_id (pid_of (pid_tgid E1)) (ucast (se_args c1 0))) = None \<and>
     map_lookup (read_fd_tracker s3) (pid_of (pid_tgid E1)) = None \<and>
     http_events s3 = http_events s @
       [old\<lparr>ev_timestamp := ktime E3 0, ev_cgroup_id := cgroup E1, ev_pid := pid_of (pid_tgid E1),
            ev_status_code := 200, ev_latency_us := (ktime E3 0 - ktime E1 0) div 1000,
            ev_method := hr_method req, ev_url := take 64 (hr_url req)\<rparr>]"
proof -
  let ?req0 = "http_request_zero\<lparr>hr_start_time := ktime E1 0, hr_cgroup_id := cgroup E1,
           hr_pid := pid_of (pid_tgid E1)\<rparr>"
  let ?id = "get_request_id (pid_of (pid_tgid E1)) (ucast (se_args c1 0))"
  obtain req where req: "extract_http_info (user_byte E1 (se_args c1 1))
        (if se_args c1 2 < 512 then se_args c1 2 else 512) ?req0 = Some req"
    and s1: "s1 = s\<lparr>active_requests := map_put (active_requests s) ?id req\<rparr>"
    using assms(1,2) by (auto simp: trace_http_request_start_def Let_def split: if_splits option.splits)
  have keep: "hr_start_time req = ktime E1 0" "hr_cgroup_id req = cgroup E1"
      "hr_pid req = pid_of (pid_tgid E1)"
    using extract_keeps_header [OF req] by simp_all
  have "\<not> sx_ret c3 \<le>s 0" using assms(8) by (simp add: word_sless_alt word_sle_eq)
  moreover have "map_lookup (active_requests s1) ?id = Some req"
    using assms(9) s1 by (simp add: lookup_map_put)
  moreover have "map_lookup (read_fd_tracker s2) (pid_of (pid_tgid E1)) = Some (ucast (se_args c1 0))"
    using assms(3,5,7,10) s1 by (simp add: trace_http_read_start_def Let_def lookup_map_put)
  moreover have "active_requests s2 = active_requests s1" "http_metrics_map s2 = http_metrics_map s"
      "http_events s2 = http_events s"
    using assms(3) s1 by (simp_all add: trace_http_read_start_def Let_def)
  ultimately show ?thesis
    using assms(4,6,11,12) req keep
    by (auto simp: trace_http_request_end_def Let_def requests_of_def map_simps ringbuf_emit_def
        split: option.split)
qed

theorem request_measured_end_to_end_witness:
  "\<exists>m u. http_events (trace_http_request_end (at_time 9000) (exit_ctx 100)
     (trace_http_read_start (at_time 500) (enter_ctx 5 0 0)
       (http_init\<lparr>active_requests := map_put (active_requests http_init) (get_request_id 1 5) (http_request_zero
         \<lparr>hr_start_time := 2000, hr_cgroup_id := 1, hr_pid := 1,
          hr_method := memcpy_lit (hr_method http_request_zero) ''GET'',
          hr_url := [47, 105] @ drop 2 (hr_url http_request_zero)\<rparr>)\<rparr>))) =
     [event0\<lparr>ev_timestamp := 9000, ev_cgroup_id := 1, ev_pid := 1, ev_status_code := 200,
             ev_latency_us := 7, ev_method := m, ev_url := u\<rparr>]"
proof -
  let ?req = "http_request_zero
         \<lparr>hr_start_time := 2000, hr_cgroup_id := 1, hr_pid := 1,
          hr_method := memcpy_lit (hr_method http_request_zero) ''GET'',
          hr_url := [47, 105] @ drop 2 (hr_url http_request_zero)\<rparr>"
  let ?s1 = "http_init\<lparr>active_requests := map_put (active_requests http_init) (get_request_id 1 5) ?req\<rparr>"
  have init: "map_room (active_requests http_init)" "map_room (read_fd_tracker http_init)"
      "map_room (http_metrics_map http_init)" "http_events http_init = []"
      "map_lookup (active_requests http_init) k = None" for k
    by (simp_all add: http_init_def map_room_def new_map_def map_lookup_def)
  have s1: "trace_http_request_start (at_time 2000) (enter_ctx 5 4096 11) http_init = Inr ?s1"
    by (simp add: trace_http_request_start_def extract_example http_request_zero_def word_sless_alt)
  have "map_lookup (active_requests ?s1) (get_request_id 1 5) \<noteq> None"
    using init by (simp add: lookup_map_put)
  then have "?s1 \<noteq> http_init" using init(5) by metis
  from request_measured_end_to_end [OF s1 this refl refl, where ?E2.0 = "at_time 500"
      and ?c2.0 = "enter_ctx 5 0 0" and ?E3.0 = "at_time 9000" and ?c3.0 = "exit_ctx 100" and old = event0] init
  show ?thesis by (simp add: word_sless_alt) blast
qed

text \<open>
  Property C39. Parsing a GET request: on a readable buffer that starts with \<open>GET\<close> and a space, the
  parser never reads outside the buffer, stores the method, and stores as URL exactly the bytes up
  to the first space, CR or LF, cut at 255 bytes, NUL-terminated; nothing else of the request
  record changes.
\<close>

theorem get_request_parsed:
  assumes "holds data rd" and "unat sz \<le> length data" and "4 \<le> unat sz"
    and "take 4 data = bytes_of ''GET ''"
    and "hr_method req = replicate 16 0" and "hr_url req = replicate 256 0"
    and "0 \<notin> set data"
  shows "\<exists>req'. extract_http_info rd sz req = Some req' \<and>
    str_of (hr_method req') = bytes_of ''GET'' \<and>
    str_of (hr_url req') = takeWhile (\<lambda>c. c \<notin> {32, 13, 10}) (take 255 (drop 4 (take (unat sz) data))) \<and>
    length (hr_url req') = 256 \<and>
    req' = req\<lparr>hr_method := hr_method req', hr_url := hr_url req'\<rparr>"
proof -
  let ?p = "url_path data (unat sz) 4"
  have p: "?p = takeWhile (\<lambda>c. c \<notin> {32, 13, 10}) (take 255 (drop 4 (take (unat sz) data)))"
  proof -
    have "drop 4 (take (min n 259) data) = take 255 (drop 4 (take n data))" for n
    proof -
      have "min n 259 - 4 = min 255 (n - 4)" by simp
      then show ?thesis by (simp add: drop_take)
    qed
    then show ?thesis by (simp add: url_path_def url_end_def)
  qed
  have len: "length ?p \<le> 255" using length_url_path [of data "unat sz" 4] by simp
  have "set ?p \<subseteq> set data"
    by (auto simp: url_path_def dest!: set_takeWhileD in_set_dropD in_set_takeD)
  then have nz: "0 \<notin> set ?p" using assms(7) by blast
  have "extract_http_info rd sz req = Some (req\<lparr>hr_method := memcpy_lit (hr_method req) ''GET'',
      hr_url := ?p @ replicate (256 - length ?p) 0\<rparr>)"
    using extract_get [OF assms(1-3) _ assms(4), of req] assms(6) by simp
  then show ?thesis
    using len nz p by (simp add: str_of_memcpy_lit str_of_padded)
qed

theorem get_request_parsed_witness:
  "\<exists>req'. extract_http_info (list_rd bytes0) 11 http_request_zero = Some req' \<and>
     str_of (hr_url req') = [47, 105]"
  using get_request_parsed [OF holds_list_rd, of 11 bytes0 http_request_zero]
  by (auto simp: bytes0_def http_request_zero_def)

text \<open>
  Parsing a response: if a buffer of more than 12 bytes starts with \<open>HTTP\<close> and its first
  space behind that is followed by three digits, the status code is their decimal value.
\<close>

theorem status_code_parsed:
  assumes "holds data rd" and "unat sz = length data" and "12 < length data"
    and "take 4 data = bytes_of ''HTTP''"
    and "4 \<le> j" and "j + 3 < length data"
    and "\<forall>k. 4 \<le> k \<and> k < j \<longrightarrow> data ! k \<noteq> 32" and "data ! j = 32"
    and "a \<le> 9" and "b \<le> 9" and "c \<le> 9"
    and "data ! (j + 1) = 48 + of_nat a" and "data ! (j + 2) = 48 + of_nat b"
    and "data ! (j + 3) = 48 + of_nat c"
  shows "extract_status_code rd sz = Some (of_nat (100 * a + 10 * b + c))"
proof -
  have digit: "is_digit (48 + of_nat n) \<and> ucast (48 + of_nat n :: u8) - (48 :: u32) = of_nat n"
    if "n \<le> 9" for n
  proof -
    have "n \<in> {0, 1, 2, 3, 4, 5, 6, 7, 8, 9}" using that by auto
    then show ?thesis by (auto simp: is_digit_def)
  qed
  have "extract_status_code rd sz = Some ((ucast (data ! (j + 1)) - 48) * 100 +
     (ucast (data ! (j + 2)) - 48) * 10 + (ucast (data ! (j + 3)) - 48))"
    by (rule scan_http_status [OF assms(1-8)]) (use assms(9-14) digit in simp_all)
  with assms(9-14) digit show ?thesis by simp
qed

theorem status_code_parsed_witness:
  "extract_status_code (list_rd [72, 84, 84, 80, 47, 49, 46, 49, 32, 52, 48, 52, 32, 78]) 14 = Some 404"
proof -
  let ?d = "[72, 84, 84, 80, 47, 49, 46, 49, 32, 52, 48, 52, 32, 78] :: u8 list"
  have "\<forall>k. 4 \<le> k \<and> k < 8 \<longrightarrow> ?d ! k \<noteq> 32"
  proof (intro allI impI)
    fix k :: nat
    assume "4 \<le> k \<and> k < 8"
    then have "k = 4 \<or> k = 5 \<or> k = 6 \<or> k = 7" by linarith
    then show "?d ! k \<noteq> 32" by auto
  qed
  then show ?thesis
    using status_code_parsed [OF holds_list_rd, of 14 ?d 8 4 0 4] by simp
qed

text \<open>
  The bound \<open>size - 12\<close> of the scan is a \<open>size_t\<close> and wraps around: on every buffer
  shorter than 12 bytes that does not contain \<open>HTTP\<close>, the scan does not return 0 but runs past
  the end of the buffer into unreadable memory.
\<close>

theorem short_response_overruns:
  assumes "holds data rd" and "\<And>k. k \<ge> length data \<Longrightarrow> rd k = None"
    and "length data = unat sz" and "unat sz < 12"
    and "\<And>i. i + 4 \<le> length data \<Longrightarrow> take 4 (drop i data) \<noteq> bytes_of ''HTTP''"
  shows "extract_status_code rd sz = None"
  unfolding extract_status_code_def
  by (rule scan_http_off_end [OF assms(4,3,1,2,5)]) simp_all

theorem short_response_overruns_witness:
  "extract_status_code (list_rd [65, 66, 67, 68]) 4 = None"
  by (rule short_response_overruns [OF holds_list_rd]) (auto simp: list_rd_def)

end
