(* ===== verification/Fs_Tracker.thy ===== *)
theory Fs_Tracker
  imports C_String
begin

text \<open>
  \<^verbatim>\<open>src/watcher/internal/ebpf/bpf/fs_tracker/fs_tracker.bpf.c\<close>: file system metrics per
  cgroup, from the entry and exit tracepoints of openat, read and write. An entry hook stores the
  operation in \<open>io_operations_map\<close>, the exit hook is to find it there and to charge its latency.
  openat uses the thread (\<open>pid_tgid\<close>) as key in both hooks; read and write store under process id and
  file descriptor but look up by thread, and the theorems say what follows from that.
\<close>

section \<open>Data\<close>

record fs_metrics =
  read_ops :: u64
  write_ops :: u64
  open_ops :: u64
  close_ops :: u64
  sync_ops :: u64
  bytes_read :: u64
  bytes_written :: u64
  read_latency_total :: u64
  write_latency_total :: u64
  open_latency_total :: u64
  io_errors :: u64
  permission_errors :: u64
  last_update :: u64

record file_access =
  fa_file_path :: "u8 list"
  fa_access_count :: u64
  fa_bytes_accessed :: u64
  fa_latency_total :: u64
  fa_access_type :: u32
  fa_cgroup_id :: u64

record fs_latency_bucket =
  fb_count :: u64
  fb_upper_bound_us :: u64

record io_operation =
  op_start_time :: u64
  op_cgroup_id :: u64
  op_pid :: u32
  op_op_type :: u32
  op_fd :: s32
  op_size :: u64

record fs_event =
  ev_timestamp :: u64
  ev_cgroup_id :: u64
  ev_pid :: u32
  ev_event_type :: u32
  ev_fd :: s32
  ev_size :: u64
  ev_latency_us :: u64
  ev_filename :: "u8 list"
  ev_error_code :: s32

record fs_state =
  fs_metrics_map :: "(u64, fs_metrics) bpf_map"
  file_access_map :: "(u64, file_access) bpf_map"
  io_operations_map :: "(u64, io_operation) bpf_map"
  fs_events :: "fs_event list"

definition fs_init :: fs_state where
  "fs_init = \<lparr>fs_metrics_map = new_map 10000, file_access_map = new_map 1000,
     io_operations_map = new_map 10000, fs_events = []\<rparr>"

definition fs_metrics_zero :: fs_metrics where
  "fs_metrics_zero = \<lparr>read_ops = 0, write_ops = 0, open_ops = 0, close_ops = 0, sync_ops = 0,
     bytes_read = 0, bytes_written = 0, read_latency_total = 0, write_latency_total = 0,
     open_latency_total = 0, io_errors = 0, permission_errors = 0, last_update = 0\<rparr>"

section \<open>Programs\<close>

definition hash_file_path :: "(nat \<Rightarrow> u8 option) \<Rightarrow> u64 option" where
  "hash_file_path path = hash_loop path 256 0 5381"

definition trace_openat_enter ::
  "fs_event kenv \<Rightarrow> trace_event_raw_sys_enter \<Rightarrow> fs_state \<Rightarrow> fs_state" where
  "trace_openat_enter E ctx s =
     (let pid_fd = pid_tgid E;
          op = \<lparr>op_start_time = ktime E 0, op_cgroup_id = get_cgroup_id E, op_pid = pid_of pid_fd,
                op_op_type = 2, op_fd = - 1, op_size = 0\<rparr>
      in s\<lparr>io_operations_map := map_put (io_operations_map s) pid_fd op\<rparr>)"

definition open_metrics_new :: "u64 \<Rightarrow> u64 \<Rightarrow> fs_metrics" where
  "open_metrics_new latency_us now =
     fs_metrics_zero\<lparr>open_ops := 1, open_latency_total := latency_us, last_update := now\<rparr>"

definition charge_open :: "u64 \<Rightarrow> u64 \<Rightarrow> fs_metrics \<Rightarrow> fs_metrics" where
  "charge_open latency_us now c =
     c\<lparr>open_ops := open_ops c + 1, open_latency_total := open_latency_total c + latency_us,
       last_update := now\<rparr>"

text \<open>
  The local \<open>metrics\<close> stays a null pointer when the entry had to be created; the error branch
  stores through it. The maps as they are at that store are returned with the fault.
\<close>

definition trace_openat_exit ::
  "fs_event kenv \<Rightarrow> trace_event_raw_sys_exit \<Rightarrow> fs_state \<Rightarrow> bpf_fault \<times> fs_state + fs_state" where
  "trace_openat_exit E ctx s =
     (let pid_fd = pid_tgid E;
          fd = (ucast (sx_ret ctx) :: s32)
      in case map_lookup (io_operations_map s) pid_fd of
           None \<Rightarrow> Inr s
         | Some op \<Rightarrow>
           let now = ktime E 0;
               latency_us = (now - op_start_time op) div 1000;
               cgroup_id = op_cgroup_id op;
               metrics = map_lookup (fs_metrics_map s) cgroup_id;
               s1 = s\<lparr>fs_metrics_map :=
                      (case metrics of
                         None \<Rightarrow> map_put (fs_metrics_map s) cgroup_id (open_metrics_new latency_us now)
                       | Some _ \<Rightarrow> map_modify (fs_metrics_map s) cgroup_id (charge_open latency_us now))\<rparr>;
               finish = (\<lambda>t. t\<lparr>io_operations_map := map_delete (io_operations_map t) pid_fd\<rparr>)
           in if 0 \<le>s fd then
                Inr (finish (s1\<lparr>fs_events := ringbuf_emit (reserve E 0)
                  (\<lambda>ev. ev\<lparr>ev_timestamp := now, ev_cgroup_id := cgroup_id, ev_pid := op_pid op,
                          ev_event_type := 2, ev_fd := fd, ev_size := 0, ev_latency_us := latency_us,
                          ev_error_code := 0, ev_filename := comm E 256\<rparr>) (fs_events s1)\<rparr>))
              else if metrics = None then Inl (NullDeref, s1)
              else Inr (finish (s1\<lparr>fs_metrics_map := map_modify (fs_metrics_map s1) cgroup_id
                     (\<lambda>c. c\<lparr>io_errors := io_errors c + 1\<rparr>)\<rparr>)))"

text \<open>\<open>((__u64)pid << 32) | (__u64)fd\<close> with a signed 32-bit \<open>fd\<close>, which is sign-extended.\<close>

definition op_key :: "u32 \<Rightarrow> s32 \<Rightarrow> u64" where
  "op_key pid fd = pack64 pid (scast fd)"

definition trace_read_enter ::
  "fs_event kenv \<Rightarrow> trace_event_raw_sys_enter \<Rightarrow> fs_state \<Rightarrow> fs_state" where
  "trace_read_enter E ctx s =
     (let pid = pid_of (pid_tgid E);
          fd = ucast (se_args ctx 0);
          op = \<lparr>op_start_time = ktime E 0, op_cgroup_id = get_cgroup_id E, op_pid = pid,
                op_op_type = 0, op_fd = fd, op_size = se_args ctx 2\<rparr>
      in s\<lparr>io_operations_map := map_put (io_operations_map s) (op_key pid fd) op\<rparr>)"

definition read_metrics_new :: "s64 \<Rightarrow> u64 \<Rightarrow> u64 \<Rightarrow> fs_metrics" where
  "read_metrics_new n latency_us now =
     (let c = fs_metrics_zero\<lparr>read_ops := 1, read_latency_total := latency_us\<rparr>;
          c1 = (if 0 <s n then c\<lparr>bytes_read := n\<rparr> else c)
      in c1\<lparr>last_update := now\<rparr>)"

definition charge_read :: "s64 \<Rightarrow> u64 \<Rightarrow> u64 \<Rightarrow> fs_metrics \<Rightarrow> fs_metrics" where
  "charge_read n latency_us now c =
     (let c1 = c\<lparr>read_ops := read_ops c + 1, read_latency_total := read_latency_total c + latency_us\<rparr>;
          c2 = (if 0 <s n then c1\<lparr>bytes_read := bytes_read c1 + n\<rparr>
                else c1\<lparr>io_errors := io_errors c1 + 1\<rparr>)
      in c2\<lparr>last_update := now\<rparr>)"

text \<open>Size and error code of a read or write event; \<open>- n\<close> is narrowed to 32 bits.\<close>

definition event_size :: "s64 \<Rightarrow> u64" where
  "event_size n = (if 0 <s n then n else 0)"

definition event_error :: "s64 \<Rightarrow> s32" where
  "event_error n = (if n <s 0 then ucast (- n) else 0)"

definition trace_read_exit ::
  "fs_event kenv \<Rightarrow> trace_event_raw_sys_exit \<Rightarrow> fs_state \<Rightarrow> fs_state" where
  "trace_read_exit E ctx s =
     (let pid_fd = pid_tgid E;
          pid = pid_of pid_fd;
          n = sx_ret ctx
      in case map_lookup (io_operations_map s) pid_fd of
           None \<Rightarrow> s
         | Some op \<Rightarrow>
           let now = ktime E 0;
               latency_us = (now - op_start_time op) div 1000;
               cgroup_id = op_cgroup_id op
           in s\<lparr>fs_metrics_map :=
                  (case map_lookup (fs_metrics_map s) cgroup_id of
                     None \<Rightarrow> map_put (fs_metrics_map s) cgroup_id (read_metrics_new n latency_us now)
                   | Some _ \<Rightarrow> map_modify (fs_metrics_map s) cgroup_id (charge_read n latency_us now)),
                fs_events := ringbuf_emit (reserve E 0)
                  (\<lambda>ev. ev\<lparr>ev_timestamp := now, ev_cgroup_id := cgroup_id, ev_pid := op_pid op,
                          ev_event_type := 0, ev_fd := op_fd op, ev_size := event_size n,
                          ev_latency_us := latency_us, ev_error_code := event_error n\<rparr>) (fs_events s),
                io_operations_map := map_delete (io_operations_map s) (op_key pid (op_fd op))\<rparr>)"

definition trace_write_enter ::
  "fs_event kenv \<Rightarrow> trace_event_raw_sys_enter \<Rightarrow> fs_state \<Rightarrow> fs_state" where
  "trace_write_enter E ctx s =
     (let pid = pid_of (pid_tgid E);
          fd = ucast (se_args ctx 0);
          op = \<lparr>op_start_time = ktime E 0, op_cgroup_id = get_cgroup_id E, op_pid = pid,
                op_op_type = 1, op_fd = fd, op_size = se_args ctx 2\<rparr>
      in s\<lparr>io_operations_map := map_put (io_operations_map s) (op_key pid fd) op\<rparr>)"

definition write_metrics_new :: "s64 \<Rightarrow> u64 \<Rightarrow> u64 \<Rightarrow> fs_metrics" where
  "write_metrics_new n latency_us now =
     (let c = fs_metrics_zero\<lparr>write_ops := 1, write_latency_total := latency_us\<rparr>;
          c1 = (if 0 <s n then c\<lparr>bytes_written := n\<rparr> else c)
      in c1\<lparr>last_update := now\<rparr>)"

definition charge_write :: "s64 \<Rightarrow> u64 \<Rightarrow> u64 \<Rightarrow> fs_metrics \<Rightarrow> fs_metrics" where
  "charge_write n latency_us now c =
     (let c1 = c\<lparr>write_ops := write_ops c + 1, write_latency_total := write_latency_total c + latency_us\<rparr>;
          c2 = (if 0 <s n then c1\<lparr>bytes_written := bytes_written c1 + n\<rparr>
                else c1\<lparr>io_errors := io_errors c1 + 1\<rparr>)
      in c2\<lparr>last_update := now\<rparr>)"

definition trace_write_exit ::
  "fs_event kenv \<Rightarrow> trace_event_raw_sys_exit \<Rightarrow> fs_state \<Rightarrow> fs_state" where
  "trace_write_exit E ctx s =
     (let pid_fd = pid_tgid E;
          pid = pid_of pid_fd;
          n = sx_ret ctx
      in case map_lookup (io_operations_map s) pid_fd of
           None \<Rightarrow> s
         | Some op \<Rightarrow>
           let now = ktime E 0;
               latency_us = (now - op_start_time op) div 1000;
               cgroup_id = op_cgroup_id op
           in s\<lparr>fs_metrics_map :=
                  (case map_lookup (fs_metrics_map s) cgroup_id of
                     None \<Rightarrow> map_put (fs_metrics_map s) cgroup_id (write_metrics_new n latency_us now)
                   | Some _ \<Rightarrow> map_modify (fs_metrics_map s) cgroup_id (charge_write n latency_us now)),
                fs_events := ringbuf_emit (reserve E 0)
                  (\<lambda>ev. ev\<lparr>ev_timestamp := now, ev_cgroup_id := cgroup_id, ev_pid := op_pid op,
                          ev_event_type := 1, ev_fd := op_fd op, ev_size := event_size n,
                          ev_latency_us := latency_us, ev_error_code := event_error n\<rparr>) (fs_events s),
                io_operations_map := map_delete (io_operations_map s) (op_key pid (op_fd op))\<rparr>)"

datatype fs_hook =
  Openat_Enter "fs_event kenv" trace_event_raw_sys_enter
| Openat_Exit "fs_event kenv" trace_event_raw_sys_exit
| Read_Enter "fs_event kenv" trace_event_raw_sys_enter
| Read_Exit "fs_event kenv" trace_event_raw_sys_exit
| Write_Enter "fs_event kenv" trace_event_raw_sys_enter
| Write_Exit "fs_event kenv" trace_event_raw_sys_exit

text \<open>A faulting invocation leaves the maps as they were at the fault.\<close>

fun fs_step :: "fs_hook \<Rightarrow> fs_state \<Rightarrow> fs_state" where
  "fs_step (Openat_Enter E ctx) s = trace_openat_enter E ctx s"
| "fs_step (Openat_Exit E ctx) s =
     (case trace_openat_exit E ctx s of Inl (_, s') \<Rightarrow> s' | Inr s' \<Rightarrow> s')"
| "fs_step (Read_Enter E ctx) s = trace_read_enter E ctx s"
| "fs_step (Read_Exit E ctx) s = trace_read_exit E ctx s"
| "fs_step (Write_Enter E ctx) s = trace_write_enter E ctx s"
| "fs_step (Write_Exit E ctx) s = trace_write_exit E ctx s"

section \<open>Keys of the operations table\<close>

lemma op_key_again: "op_key (pid_of (op_key p fd)) fd = op_key p fd"
proof (rule bit_word_eqI)
  fix n
  assume "n < LENGTH(64)"
  then show "bit (op_key (pid_of (op_key p fd)) fd) n = bit (op_key p fd) n"
    by (auto simp: op_key_def bit_pack64 pid_of_def bit_simps)
qed

lemma op_key_minus1: "op_key p (- 1) = - 1"
  by (rule bit_word_eqI) (auto simp: op_key_def bit_pack64 bit_simps)

lemma uint_nonneg: "0 \<le> sint w \<Longrightarrow> uint (w :: 'a :: len word) = sint w"
proof -
  assume "0 \<le> sint w"
  moreover have "sint w < 2 ^ LENGTH('a)"
    using sint_less [of w] by (rule less_le_trans) simp
  ultimately show ?thesis
    by (simp only: uint_sint) (rule take_bit_int_eq_self)
qed

lemma scast_nonneg: "0 \<le>s fd \<Longrightarrow> (scast (fd :: s32) :: u64) = ucast fd"
  unfolding word_sle_eq scast_eq ucast_eq by (subst uint_nonneg) (simp_all only: sint_0)

lemma op_key_nonneg:
  "0 \<le>s fd \<Longrightarrow> op_key p fd = k \<longleftrightarrow> p = pid_of k \<and> fd = tid_of k"
  using pack64_inj [of p fd "pid_of k" "tid_of k"]
  by (auto simp: op_key_def scast_nonneg pack64_pid_tid)

definition op_ok :: "u64 \<Rightarrow> io_operation \<Rightarrow> bool" where
  "op_ok k op \<longleftrightarrow>
     (if op_op_type op = 2 then op_fd op = - 1 else k = op_key (op_pid op) (op_fd op))"

definition fs_inv :: "fs_state \<Rightarrow> bool" where
  "fs_inv s \<longleftrightarrow>
     (\<forall>k op. map_lookup (io_operations_map s) k = Some op \<longrightarrow> op_ok k op)"

text \<open>What an exit hook deletes: the entry it found, or the key \<open>- 1\<close> if an open was found.\<close>

lemma op_ok_deleted:
  "op_ok k op \<Longrightarrow> op_key (pid_of k) (op_fd op) = (if op_op_type op = 2 then - 1 else k)"
  by (auto simp: op_ok_def op_key_again op_key_minus1)

lemma fs_inv_put: "fs_inv s \<Longrightarrow> op_ok k op \<Longrightarrow>
     fs_inv (s\<lparr>io_operations_map := map_put (io_operations_map s) k op\<rparr>)"
  by (simp add: fs_inv_def map_simps)

lemma fs_inv_delete:
  "fs_inv s \<Longrightarrow> io_operations_map t = map_delete (io_operations_map s) k \<Longrightarrow> fs_inv t"
  by (simp add: fs_inv_def map_simps)

lemma fs_inv_same: "fs_inv s \<Longrightarrow> io_operations_map t = io_operations_map s \<Longrightarrow> fs_inv t"
  by (simp add: fs_inv_def)

text \<open>The table of operations after each hook.\<close>

lemma ops_enter [simp]:
  "io_operations_map (trace_openat_enter E ctx s) =
     map_put (io_operations_map s) (pid_tgid E) \<lparr>op_start_time = ktime E 0,
       op_cgroup_id = get_cgroup_id E, op_pid = pid_of (pid_tgid E), op_op_type = 2, op_fd = - 1, op_size = 0\<rparr>"
  "io_operations_map (trace_read_enter E ctx s) =
     map_put (io_operations_map s) (op_key (pid_of (pid_tgid E)) (ucast (se_args ctx 0)))
       \<lparr>op_start_time = ktime E 0, op_cgroup_id = get_cgroup_id E, op_pid = pid_of (pid_tgid E),
        op_op_type = 0, op_fd = ucast (se_args ctx 0), op_size = se_args ctx 2\<rparr>"
  "io_operations_map (trace_write_enter E ctx s) =
     map_put (io_operations_map s) (op_key (pid_of (pid_tgid E)) (ucast (se_args ctx 0)))
       \<lparr>op_start_time = ktime E 0, op_cgroup_id = get_cgroup_id E, op_pid = pid_of (pid_tgid E),
        op_op_type = 1, op_fd = ucast (se_args ctx 0), op_size = se_args ctx 2\<rparr>"
  by (simp_all add: trace_openat_enter_def trace_read_enter_def trace_write_enter_def Let_def)

lemma ops_exit:
  "io_operations_map (trace_read_exit E ctx s) =
     (case map_lookup (io_operations_map s) (pid_tgid E) of
        None \<Rightarrow> io_operations_map s
      | Some op \<Rightarrow> map_delete (io_operations_map s) (op_key (pid_of (pid_tgid E)) (op_fd op)))"
  "io_operations_map (trace_write_exit E ctx s) =
     (case map_lookup (io_operations_map s) (pid_tgid E) of
        None \<Rightarrow> io_operations_map s
      | Some op \<Rightarrow> map_delete (io_operations_map s) (op_key (pid_of (pid_tgid E)) (op_fd op)))"
  by (simp_all add: trace_read_exit_def trace_write_exit_def Let_def split: option.split)

lemma ops_openat_exit:
  "io_operations_map (fs_step (Openat_Exit E ctx) s) = io_operations_map s \<or>
   io_operations_map (fs_step (Openat_Exit E ctx) s) = map_delete (io_operations_map s) (pid_tgid E)"
  by (auto simp: trace_openat_exit_def Let_def split: option.split)

lemma fs_inv_step: "fs_inv s \<Longrightarrow> fs_inv (fs_step e s)"
proof (cases e)
  case (Openat_Exit E ctx)
  assume "fs_inv s"
  with Openat_Exit ops_openat_exit [of E ctx s] show ?thesis
    by (auto intro: fs_inv_same fs_inv_delete simp del: fs_step.simps)
qed (auto simp: fs_inv_def map_simps ops_exit op_ok_def split: option.splits if_splits)

interpretation fs_machine: event_machine fs_step "\<lambda>_. True" fs_inv
  by unfold_locales (rule fs_inv_step)

lemma fs_inv_init: "fs_inv fs_init"
  by (simp add: fs_inv_def fs_init_def)

text \<open>Hooks that neither store nor delete the entry of key \<open>k\<close>.\<close>

fun spares :: "u64 \<Rightarrow> fs_hook \<Rightarrow> bool" where
  "spares k (Openat_Enter E ctx) \<longleftrightarrow> pid_tgid E \<noteq> k"
| "spares k (Openat_Exit E ctx) \<longleftrightarrow> pid_tgid E \<noteq> k"
| "spares k (Read_Enter E ctx) \<longleftrightarrow> op_key (pid_of (pid_tgid E)) (ucast (se_args ctx 0)) \<noteq> k"
| "spares k (Read_Exit E ctx) \<longleftrightarrow> pid_tgid E \<noteq> k"
| "spares k (Write_Enter E ctx) \<longleftrightarrow> op_key (pid_of (pid_tgid E)) (ucast (se_args ctx 0)) \<noteq> k"
| "spares k (Write_Exit E ctx) \<longleftrightarrow> pid_tgid E \<noteq> k"

lemma exit_spares:
  assumes "fs_inv s" and "k \<noteq> - 1" and "pid_tgid E \<noteq> k"
  shows "map_lookup (io_operations_map (trace_read_exit E ctx s)) k = map_lookup (io_operations_map s) k"
    and "map_lookup (io_operations_map (trace_write_exit E ctx s)) k = map_lookup (io_operations_map s) k"
  using assms
  by (auto simp: ops_exit map_simps fs_inv_def op_ok_deleted split: option.splits if_splits)

lemma spares_step:
  assumes "spares k e" and "fs_inv s" and "k \<noteq> - 1"
  shows "map_lookup (io_operations_map (fs_step e s)) k = map_lookup (io_operations_map s) k"
proof (cases e)
  case (Openat_Exit E ctx)
  with assms(1) ops_openat_exit [of E ctx s] show ?thesis
    by (auto simp: map_simps simp del: fs_step.simps)
qed (use assms in \<open>auto simp: map_simps exit_spares\<close>)

interpretation fs_keeps: event_machine fs_step "spares k"
    "\<lambda>s. k \<noteq> - 1 \<and> fs_inv s \<and> map_lookup (io_operations_map s) k = v" for k v
  by unfold_locales (auto simp: spares_step fs_inv_step)

section \<open>Totals\<close>

definition fs_total :: "(fs_metrics \<Rightarrow> u64) \<Rightarrow> fs_state \<Rightarrow> u64 \<Rightarrow> u64" where
  "fs_total f s cg = (case map_lookup (fs_metrics_map s) cg of None \<Rightarrow> 0 | Some c \<Rightarrow> f c)"

lemma fs_total_simps:
  "fs_total f (s\<lparr>fs_metrics_map := m\<rparr>) cg =
     (case map_lookup m cg of None \<Rightarrow> 0 | Some c \<Rightarrow> f c)"
  "fs_total f (s\<lparr>io_operations_map := ops\<rparr>) cg = fs_total f s cg"
  "fs_total f (s\<lparr>fs_events := evs\<rparr>) cg = fs_total f s cg"
  by (simp_all add: fs_total_def)

text \<open>For the results of system calls, \<open>-4095\<close> to the largest byte count.\<close>

lemma event_error_errno:
  assumes "- 4096 < sint n"
  shows "sint (event_error n) = (if sint n < 0 then - sint n else 0)"
proof (cases "sint n < 0")
  case True
  have "ucast (word_of_int k :: u64) = (word_of_int k :: s32)" for k
    by (simp add: unsigned_of_int word_of_int_eq_iff take_bit_take_bit)
  from this [of "- sint n"] have "event_error n = word_of_int (- sint n)"
    using True by (simp add: event_error_def word_sless_alt)
  then have "sint (event_error n) = signed_take_bit 31 (- sint n)"
    by (simp only: sint_sbintrunc') simp
  also have "\<dots> = - sint n"
    using True assms by (intro signed_take_bit_int_eq_self) simp_all
  finally show ?thesis using True by simp
qed (simp add: event_error_def word_sless_alt)

lemma event_size_nonneg:
  "uint (event_size n) = (if 0 < sint n then sint n else 0)"
  by (simp add: event_size_def word_sless_alt uint_nonneg)

lemma event_error_zero: "0 \<le> sint n \<Longrightarrow> event_error n = 0"
  by (simp add: event_error_def word_sless_alt)

lemma event_size_zero: "sint n < 0 \<Longrightarrow> event_size n = 0"
  by (simp add: event_size_def word_sless_alt)

text \<open>Counters of a charged entry.\<close>

lemma charge_read_simps [simp]:
  "read_ops (charge_read n l now c) = read_ops c + 1"
  "read_latency_total (charge_read n l now c) = read_latency_total c + l"
  "bytes_read (charge_read n l now c) = bytes_read c + event_size n"
  "io_errors (charge_read n l now c) = io_errors c + (if 0 <s n then 0 else 1)"
  "read_ops (read_metrics_new n l now) = 1"
  "read_latency_total (read_metrics_new n l now) = l"
  "bytes_read (read_metrics_new n l now) = event_size n"
  "io_errors (read_metrics_new n l now) = 0"
  by (simp_all add: charge_read_def read_metrics_new_def fs_metrics_zero_def event_size_def Let_def)

lemma charge_write_simps [simp]:
  "write_ops (charge_write n l now c) = write_ops c + 1"
  "write_latency_total (charge_write n l now c) = write_latency_total c + l"
  "bytes_written (charge_write n l now c) = bytes_written c + event_size n"
  "io_errors (charge_write n l now c) = io_errors c + (if 0 <s n then 0 else 1)"
  "write_ops (write_metrics_new n l now) = 1"
  "write_latency_total (write_metrics_new n l now) = l"
  "bytes_written (write_metrics_new n l now) = event_size n"
  "io_errors (write_metrics_new n l now) = 0"
  by (simp_all add: charge_write_def write_metrics_new_def fs_metrics_zero_def event_size_def Let_def)

lemma charge_open_simps [simp]:
  "open_ops (charge_open l now c) = open_ops c + 1"
  "open_latency_total (charge_open l now c) = open_latency_total c + l"
  "open_ops (open_metrics_new l now) = 1"
  "open_latency_total (open_metrics_new l now) = l"
  by (simp_all add: charge_open_def open_metrics_new_def fs_metrics_zero_def)

section \<open>Which thread finds which operation\<close>

text \<open>The hook stores an operation of the process and number that \<open>k\<close> combines.\<close>

fun keyed_by :: "u64 \<Rightarrow> fs_hook \<Rightarrow> bool" where
  "keyed_by k (Openat_Enter E ctx) \<longleftrightarrow> pid_tgid E = k"
| "keyed_by k (Read_Enter E ctx) \<longleftrightarrow> pid_of (pid_tgid E) = pid_of k \<and> ucast (se_args ctx 0) = tid_of k"
| "keyed_by k (Write_Enter E ctx) \<longleftrightarrow> pid_of (pid_tgid E) = pid_of k \<and> ucast (se_args ctx 0) = tid_of k"
| "keyed_by k _ \<longleftrightarrow> False"

lemma neg_bit31: "fd <s 0 \<Longrightarrow> bit (fd :: s32) 31"
  using bit_last_iff [of fd] by (simp add: word_sless_alt)

lemma pid_of_op_key_neg: "fd <s 0 \<Longrightarrow> pid_of (op_key p fd) = - 1"
  by (rule bit_word_eqI) (auto simp: pid_of_def op_key_def bit_pack64 bit_simps dest: neg_bit31)

lemma op_key_eqD:
  assumes "op_key p fd = k" and "pid_of k \<noteq> - 1"
  shows "p = pid_of k \<and> fd = tid_of k"
proof (cases "0 \<le>s fd")
  case True
  with assms show ?thesis by (simp add: op_key_nonneg)
next
  case False
  then have "fd <s 0" by (simp add: word_sless_alt word_sle_eq)
  with assms show ?thesis by (metis pid_of_op_key_neg)
qed

interpretation fs_unkeyed: event_machine fs_step "\<lambda>e. \<not> keyed_by k e"
    "\<lambda>s :: fs_state. pid_of k \<noteq> - 1 \<and> map_lookup (io_operations_map s) k = None" for k
proof
  fix e and s :: fs_state
  assume ok: "\<not> keyed_by k e" and inv: "pid_of k \<noteq> - 1 \<and> map_lookup (io_operations_map s) k = None"
  show "pid_of k \<noteq> - 1 \<and> map_lookup (io_operations_map (fs_step e s)) k = None"
  proof (cases e)
    case (Openat_Exit E ctx)
    with inv ops_openat_exit [of E ctx s] show ?thesis
      by (auto simp: map_simps simp del: fs_step.simps)
  qed (use ok inv in \<open>auto simp: map_simps ops_exit dest: op_key_eqD [OF refl] split: option.split\<close>)
qed

text \<open>Hooks under which the entry of key \<open>k\<close> stays: no exit of the thread that \<open>k\<close> names.\<close>

fun exits_as :: "u64 \<Rightarrow> fs_hook \<Rightarrow> bool" where
  "exits_as k (Openat_Exit E ctx) \<longleftrightarrow> pid_tgid E = k"
| "exits_as k (Read_Exit E ctx) \<longleftrightarrow> pid_tgid E = k"
| "exits_as k (Write_Exit E ctx) \<longleftrightarrow> pid_tgid E = k"
| "exits_as k _ \<longleftrightarrow> False"

interpretation fs_leaks: event_machine fs_step "\<lambda>e. \<not> exits_as k e"
    "\<lambda>s. k \<noteq> - 1 \<and> fs_inv s \<and> map_lookup (io_operations_map s) k \<noteq> None" for k
proof
  fix e and s :: fs_state
  assume ok: "\<not> exits_as k e"
    and inv: "k \<noteq> - 1 \<and> fs_inv s \<and> map_lookup (io_operations_map s) k \<noteq> None"
  have "map_lookup (io_operations_map (fs_step e s)) k \<noteq> None"
  proof (cases e)
    case (Openat_Exit E ctx)
    with ok inv ops_openat_exit [of E ctx s] show ?thesis
      by (auto simp: map_simps simp del: fs_step.simps)
  qed (use ok inv in \<open>auto simp: map_simps exit_spares\<close>)
  with inv show "k \<noteq> - 1 \<and> fs_inv (fs_step e s) \<and> map_lookup (io_operations_map (fs_step e s)) k \<noteq> None"
    by (simp add: fs_inv_step)
qed

section \<open>Opens end to end\<close>

text \<open>The operation that the entry hook of openat stores.\<close>

definition open_of :: "fs_event kenv \<Rightarrow> io_operation" where
  "open_of E = \<lparr>op_start_time = ktime E 0, op_cgroup_id = get_cgroup_id E,
     op_pid = pid_of (pid_tgid E), op_op_type = 2, op_fd = - 1, op_size = 0\<rparr>"

lemma open_pending:
  assumes "fs_inv s" and "k = pid_tgid E" and "k \<noteq> - 1"
    and "map_lookup (io_operations_map s) k \<noteq> None \<or> map_room (io_operations_map s)"
    and "list_all (spares k) es"
  shows "map_lookup (io_operations_map (fold fs_step es (trace_openat_enter E ctx s))) k = Some (open_of E)"
proof -
  have "fs_inv (trace_openat_enter E ctx s)"
    using fs_inv_step [OF assms(1), of "Openat_Enter E ctx"] by simp
  moreover have "map_lookup (io_operations_map (trace_openat_enter E ctx s)) k = Some (open_of E)"
    using assms(2,4) by (simp add: map_simps open_of_def)
  ultimately show ?thesis
    using fs_keeps.run_inv [OF assms(5), of "trace_openat_enter E ctx s" "Some (open_of E)"] assms(3) by simp
qed

lemma open_charged:
  assumes "map_lookup (io_operations_map t) (pid_tgid E) = Some op"
    and "0 \<le>s (ucast (sx_ret ctx) :: s32)" and "cg = op_cgroup_id op"
    and "map_lookup (fs_metrics_map t) cg \<noteq> None \<or> map_room (fs_metrics_map t)"
    and "reserve E 0 = Some old" and "lat = (ktime E 0 - op_start_time op) div 1000"
  shows "\<exists>u. trace_openat_exit E ctx t = Inr u \<and>
    fs_total open_ops u cg = fs_total open_ops t cg + 1 \<and>
    fs_total open_latency_total u cg = fs_total open_latency_total t cg + lat \<and>
    map_lookup (io_operations_map u) (pid_tgid E) = None \<and>
    (\<exists>ev. fs_events u = fs_events t @ [ev] \<and> ev_event_type ev = 2 \<and> ev_cgroup_id ev = cg \<and>
       ev_pid ev = op_pid op \<and> ev_fd ev = ucast (sx_ret ctx) \<and> ev_error_code ev = 0 \<and>
       ev_latency_us ev = lat)"
  using assms
  by (auto simp: trace_openat_exit_def Let_def fs_total_def map_simps ringbuf_emit_def split: option.splits)

section \<open>Examples\<close>

definition fs_event0 :: fs_event where
  "fs_event0 = \<lparr>ev_timestamp = 0, ev_cgroup_id = 0, ev_pid = 0, ev_event_type = 9, ev_fd = 0, ev_size = 0,
     ev_latency_us = 0, ev_filename = [65], ev_error_code = 9\<rparr>"

text \<open>Thread \<open>t\<close> of process 1 at a given time.\<close>

definition thread_id :: "u32 \<Rightarrow> u64" where
  "thread_id t = pack64 1 (ucast t)"

definition thread_at :: "u32 \<Rightarrow> u64 \<Rightarrow> fs_event kenv" where
  "thread_at t now = env0\<lparr>pid_tgid := thread_id t, ktime := (\<lambda>_. now), reserve := (\<lambda>_. Some fs_event0)\<rparr>"

definition fs_enter :: "u64 \<Rightarrow> u64 \<Rightarrow> trace_event_raw_sys_enter" where
  "fs_enter fd n = \<lparr>se_ent = entry0, se_id = 0,
     se_args = (\<lambda>i. if i = 0 then fd else if i = 2 then n else 0)\<rparr>"

definition fs_exit :: "s64 \<Rightarrow> trace_event_raw_sys_exit" where
  "fs_exit r = \<lparr>sx_ent = entry0, sx_id = 0, sx_ret = r\<rparr>"

lemma fs_example_simps [simp]:
  "pid_tgid (thread_at t now) = thread_id t" "ktime (thread_at t now) n = now"
  "get_cgroup_id (thread_at t now) = 0" "reserve (thread_at t now) n = Some fs_event0"
  "se_args (fs_enter fd len) 0 = fd" "se_args (fs_enter fd len) 2 = len" "sx_ret (fs_exit r) = r"
  by (simp_all add: thread_at_def env0_def fs_enter_def fs_exit_def get_cgroup_id_def core_read_def kheap0_def)

lemma pid_of_pack64: "pid_of (pack64 p (ucast (t :: u32))) = p"
  and tid_of_pack64: "tid_of (pack64 p (ucast (t :: u32))) = t"
  by (metis pack64_inj pack64_pid_tid)+

lemma pack64_not_minus1: "p \<noteq> - 1 \<Longrightarrow> pack64 p (ucast (t :: u32)) \<noteq> - 1"
  by (metis op_key_minus1 pid_of_pack64 pid_of_op_key_neg sint_n1 sint_0 word_sless_alt neg_less_0_iff_less zero_less_one)

lemma thread_id_simps [simp]:
  "pid_of (thread_id t) = 1" "tid_of (thread_id t) = t" "thread_id t \<noteq> - 1"
  "thread_id t = thread_id u \<longleftrightarrow> t = u"
  by (auto simp: thread_id_def pid_of_pack64 tid_of_pack64 pack64_not_minus1 pack64_inj)

lemma op_key_thread [simp]: "0 \<le>s fd \<Longrightarrow> op_key 1 fd = thread_id fd"
  by (simp add: op_key_nonneg)

lemma fs_init_simps [simp]:
  "map_lookup (io_operations_map fs_init) k = None" "map_room (io_operations_map fs_init)"
  "map_lookup (fs_metrics_map fs_init) cg = None" "map_room (fs_metrics_map fs_init)"
  by (simp_all add: fs_init_def map_room_def new_map_def map_lookup_def)

section \<open>Properties\<close>



text \<open>
  Exactly when the exit hook of openat stores through a null pointer: the
  thread's open is pending, its cgroup has no metrics entry yet, and the call failed, as for the
  first open of a container that is refused.
\<close>

theorem openat_exit_null_deref:
  "(\<exists>s'. trace_openat_exit E ctx s = Inl (NullDeref, s')) \<longleftrightarrow>
     (\<exists>op. map_lookup (io_operations_map s) (pid_tgid E) = Some op \<and>
        map_lookup (fs_metrics_map s) (op_cgroup_id op) = None \<and>
        sint (ucast (sx_ret ctx) :: s32) < 0)"
  by (auto simp: trace_openat_exit_def Let_def word_sle_eq split: option.splits)

text \<open>
  What an exit of read or write charges when it does find an operation: one call, its
  latency and the bytes of a positive result, to the cgroup of the operation. A failed or empty
  call counts as an error only if the cgroup already had an entry: the first one of a cgroup
  is lost.
\<close>

theorem read_write_exit_charges:
  assumes "map_lookup (io_operations_map s) (pid_tgid E) = Some op" and "cg = op_cgroup_id op"
    and "map_lookup (fs_metrics_map s) cg \<noteq> None \<or> map_room (fs_metrics_map s)"
    and "lost = (map_lookup (fs_metrics_map s) cg = None)"
    and "l = (ktime E 0 - op_start_time op) div 1000"
    and "r = trace_read_exit E ctx s" and "w = trace_write_exit E ctx s"
  shows "fs_total read_ops r cg = fs_total read_ops s cg + 1 \<and>
    fs_total read_latency_total r cg = fs_total read_latency_total s cg + l \<and>
    fs_total bytes_read r cg = fs_total bytes_read s cg + event_size (sx_ret ctx) \<and>
    fs_total io_errors r cg = fs_total io_errors s cg + (if 0 <s sx_ret ctx \<or> lost then 0 else 1) \<and>
    fs_total write_ops w cg = fs_total write_ops s cg + 1 \<and>
    fs_total write_latency_total w cg = fs_total write_latency_total s cg + l \<and>
    fs_total bytes_written w cg = fs_total bytes_written s cg + event_size (sx_ret ctx) \<and>
    fs_total io_errors w cg = fs_total io_errors s cg + (if 0 <s sx_ret ctx \<or> lost then 0 else 1)"
  using assms
  by (cases "map_lookup (fs_metrics_map s) cg")
    (simp_all add: trace_read_exit_def trace_write_exit_def Let_def fs_total_def map_simps)

definition fs_pending :: fs_state where
  "fs_pending = trace_read_enter (thread_at 4 2000) (fs_enter 4 100) fs_init"

lemma fs_pending_lookup:
  "map_lookup (io_operations_map fs_pending) (thread_id 4) =
     Some \<lparr>op_start_time = 2000, op_cgroup_id = 0, op_pid = 1, op_op_type = 0, op_fd = 4, op_size = 100\<rparr>"
  by (simp add: fs_pending_def map_simps word_sle_eq)

lemmas fs_pending_at_exit = fs_pending_lookup [folded fs_example_simps(1) [of 4 5000]]

lemma fs_pending_metrics: "fs_metrics_map fs_pending = fs_metrics_map fs_init"
  by (simp add: fs_pending_def trace_read_enter_def Let_def)

theorem read_write_exit_charges_witness:
  "fs_total io_errors (trace_read_exit (thread_at 4 5000) (fs_exit (- 5)) fs_pending) 0 = 0 \<and>
   fs_total read_latency_total (trace_read_exit (thread_at 4 5000) (fs_exit (- 5)) fs_pending) 0 = 3"
  using read_write_exit_charges [OF fs_pending_at_exit refl _ refl refl refl refl, of "fs_exit (- 5)"]
  by (simp add: fs_pending_metrics fs_total_def)

text \<open>
  Reads and writes of a thread are measured only by coincidence: unless some hook
  stored an operation of the thread's process whose descriptor equals the thread's id (or the
  thread has an open pending), its exits from read and write do nothing at all.
\<close>

theorem exit_needs_descriptor_equal_to_thread:
  assumes "list_all (\<lambda>e. \<not> keyed_by (pid_tgid E) e) es" and "pid_of (pid_tgid E) \<noteq> - 1"
    and "s = fold fs_step es fs_init"
  shows "trace_read_exit E ctx s = s \<and> trace_write_exit E ctx s = s"
proof -
  have "map_lookup (io_operations_map s) (pid_tgid E) = None"
    using fs_unkeyed.run_inv [OF assms(1), of fs_init] assms(2,3) by simp
  then show ?thesis
    by (simp add: trace_read_exit_def trace_write_exit_def Let_def)
qed

theorem exit_needs_descriptor_equal_to_thread_witness:
  "fs_total read_ops (trace_read_exit (thread_at 1 9000) (fs_exit 100)
     (trace_read_enter (thread_at 1 2000) (fs_enter 4 100) fs_init)) 0 = 0"
proof -
  let ?s = "trace_read_enter (thread_at 1 2000) (fs_enter 4 100) fs_init"
  have "trace_read_exit (thread_at 1 9000) (fs_exit 100) ?s = ?s"
    using exit_needs_descriptor_equal_to_thread [of "thread_at 1 9000"
        "[Read_Enter (thread_at 1 2000) (fs_enter 4 100)]" ?s "fs_exit 100"] by simp
  then show ?thesis
    by (simp add: fs_total_def trace_read_enter_def Let_def)
qed

text \<open>
  Pending operations of read and write leak: once stored, the entry stays in the
  table through every run in which the thread whose id equals the descriptor does not itself leave
  one of the three system calls; a descriptor that is no thread's id is never cleaned up.
\<close>

theorem pending_operations_leak:
  assumes "s = fold fs_step es0 fs_init" and "k = op_key (pid_of (pid_tgid E)) (ucast (se_args ctx 0))"
    and "k \<noteq> - 1" and "map_lookup (io_operations_map s) k \<noteq> None \<or> map_room (io_operations_map s)"
    and "list_all (\<lambda>e. \<not> exits_as k e) es"
  shows "map_lookup (io_operations_map (fold fs_step es (trace_read_enter E ctx s))) k \<noteq> None"
proof -
  have "fs_inv s"
    unfolding assms(1) by (rule fs_machine.run_inv [OF _ fs_inv_init]) (simp add: list_all_iff)
  then have "fs_inv (trace_read_enter E ctx s)"
    using fs_inv_step [of s "Read_Enter E ctx"] by simp
  moreover have "map_lookup (io_operations_map (trace_read_enter E ctx s)) k \<noteq> None"
    using assms(2,4) by (simp add: map_simps)
  ultimately show ?thesis
    using fs_leaks.run_inv [OF assms(5), of "trace_read_enter E ctx s"] assms(3) by simp
qed

theorem pending_operations_leak_witness:
  "map_lookup (io_operations_map (fold fs_step [Read_Exit (thread_at 1 9000) (fs_exit 100)]
     (trace_read_enter (thread_at 1 2000) (fs_enter 4 100) fs_init))) (op_key 1 4) \<noteq> None"
  using pending_operations_leak [of fs_init "[]" "op_key 1 4" "thread_at 1 2000" "fs_enter 4 100"
      "[Read_Exit (thread_at 1 9000) (fs_exit 100)]"]
  by (simp add: word_sle_eq)

text \<open>
  The event of a read exit: for the results a system call can have, the error
  code is the errno and the size 0 on failure, and code 0 with the byte count otherwise; the
  filename is whatever the reserved memory held before, because no store covers it.
\<close>

theorem read_event_fields:
  assumes "map_lookup (io_operations_map s) (pid_tgid E) = Some op" and "reserve E 0 = Some old"
    and "- 4096 < sint (sx_ret ctx)"
  shows "\<exists>ev. fs_events (trace_read_exit E ctx s) = fs_events s @ [ev] \<and>
    ev_fd ev = op_fd op \<and> ev_pid ev = op_pid op \<and> ev_filename ev = ev_filename old \<and>
    (if sint (sx_ret ctx) < 0
     then sint (ev_error_code ev) = - sint (sx_ret ctx) \<and> ev_size ev = 0
     else ev_error_code ev = 0 \<and> uint (ev_size ev) = sint (sx_ret ctx))"
  using assms
  by (simp add: trace_read_exit_def Let_def ringbuf_emit_def event_error_errno event_size_nonneg
      event_error_zero event_size_zero not_less le_less)

theorem read_event_fields_witness:
  "\<exists>ev. fs_events (trace_read_exit (thread_at 4 5000) (fs_exit (- 5)) fs_pending) = [ev] \<and>
     ev_error_code ev = 5 \<and> ev_filename ev = [65]"
proof -
  obtain ev where ev: "fs_events (trace_read_exit (thread_at 4 5000) (fs_exit (- 5)) fs_pending) =
      fs_events fs_pending @ [ev]" "sint (ev_error_code ev) = 5" "ev_filename ev = [65]"
    using read_event_fields [OF fs_pending_at_exit, of fs_event0 "fs_exit (- 5)"]
    by (auto simp: fs_event0_def)
  have "word_of_int (sint (ev_error_code ev)) = (5 :: s32)" unfolding ev(2) by simp
  then have "ev_error_code ev = 5" by simp
  moreover have "fs_events fs_pending = []"
    by (simp add: fs_pending_def trace_read_enter_def Let_def fs_init_def)
  ultimately show ?thesis using ev by simp
qed

end
