(* ===== verification/App_Specific.thy ===== *)
theory App_Specific
  imports C_String
begin

text \<open>
  \<^verbatim>\<open>src/watcher/internal/ebpf/bpf/app_specific/app_specific.bpf.c\<close>: uprobes on database
  queries, cache lookups and the Go garbage collector, and a probe for custom metrics. A start
  probe stores the time in one slot per thread, the end probe reads it back. The main results: the
  metrics can be recomputed from the events, a query is measured across the work of other
  threads, and a probe nested inside another on one thread makes the outer one vanish.
\<close>

section \<open>Data\<close>

record db_metrics =
  query_count :: u64
  query_time_total :: u64
  slow_queries :: u64
  active_connections :: u64
  connection_timeouts :: u64
  transactions :: u64
  rollbacks :: u64
  transaction_time_total :: u64
  db_last_update :: u64

record cache_metrics =
  cache_hits :: u64
  cache_misses :: u64
  cache_sets :: u64
  cache_gets :: u64
  cache_deletes :: u64
  cache_evictions :: u64
  get_latency_total :: u64
  set_latency_total :: u64
  cache_size_bytes :: u64
  cache_last_update :: u64

record go_metrics =
  goroutines :: u64
  goroutine_stack_size :: u64
  gc_cycles :: u64
  gc_pause_time_us :: u64
  heap_size :: u64
  heap_alloc :: u64
  heap_idle :: u64
  channel_sends :: u64
  channel_receives :: u64
  blocked_channels :: u64
  go_last_update :: u64

text \<open>\<open>cm_value\<close> is the representation of a \<open>double\<close>; no program uses the structure.\<close>

record custom_metric =
  cm_timestamp :: u64
  cm_cgroup_id :: u64
  cm_pid :: u32
  cm_metric_name :: "u8 list"
  cm_metric_type :: u32
  cm_value :: u64
  cm_labels :: "u8 list"

record function_timing =
  ft_start_time :: u64
  ft_cgroup_id :: u64
  ft_pid :: u32
  ft_function_name :: "u8 list"

record app_event =
  ev_timestamp :: u64
  ev_cgroup_id :: u64
  ev_pid :: u32
  ev_event_type :: u32
  ev_duration_us :: u64
  ev_value :: u64
  ev_details :: "u8 list"

record app_state =
  db_metrics_map :: "(u64, db_metrics) bpf_map"
  cache_metrics_map :: "(u64, cache_metrics) bpf_map"
  go_metrics_map :: "(u64, go_metrics) bpf_map"
  function_timings_map :: "(u64, function_timing) bpf_map"
  app_events :: "app_event list"

definition app_init :: app_state where
  "app_init = \<lparr>db_metrics_map = new_map 10000, cache_metrics_map = new_map 10000,
     go_metrics_map = new_map 10000, function_timings_map = new_map 10000, app_events = []\<rparr>"

definition db_metrics_zero :: db_metrics where
  "db_metrics_zero = \<lparr>query_count = 0, query_time_total = 0, slow_queries = 0,
     active_connections = 0, connection_timeouts = 0, transactions = 0, rollbacks = 0,
     transaction_time_total = 0, db_last_update = 0\<rparr>"

definition cache_metrics_zero :: cache_metrics where
  "cache_metrics_zero = \<lparr>cache_hits = 0, cache_misses = 0, cache_sets = 0, cache_gets = 0,
     cache_deletes = 0, cache_evictions = 0, get_latency_total = 0, set_latency_total = 0,
     cache_size_bytes = 0, cache_last_update = 0\<rparr>"

definition go_metrics_zero :: go_metrics where
  "go_metrics_zero = \<lparr>goroutines = 0, goroutine_stack_size = 0, gc_cycles = 0,
     gc_pause_time_us = 0, heap_size = 0, heap_alloc = 0, heap_idle = 0, channel_sends = 0,
     channel_receives = 0, blocked_channels = 0, go_last_update = 0\<rparr>"

section \<open>Programs\<close>

definition hash_function_name :: "(nat \<Rightarrow> u8 option) \<Rightarrow> u64 option" where
  "hash_function_name name = hash_loop name 128 0 5381"

text \<open>The body the three start probes share, but for the function name.\<close>

definition start_timing :: "app_event kenv \<Rightarrow> string \<Rightarrow> app_state \<Rightarrow> app_state" where
  "start_timing E name s =
     (let timing = \<lparr>ft_start_time = ktime E 0, ft_cgroup_id = get_cgroup_id E,
                    ft_pid = pid_of (pid_tgid E),
                    ft_function_name = read_str (replicate 128 0) (bytes_of name)\<rparr>
      in s\<lparr>function_timings_map := map_put (function_timings_map s) (pid_tgid E) timing\<rparr>)"

text \<open>Filling and submitting an event; \<open>details\<close> keeps old bytes behind the string.\<close>

definition emit_app ::
  "app_event kenv \<Rightarrow> u64 \<Rightarrow> u64 \<Rightarrow> u32 \<Rightarrow> u32 \<Rightarrow> u64 \<Rightarrow> u64 \<Rightarrow> string \<Rightarrow> app_event list \<Rightarrow> app_event list"
where
  "emit_app E now cg pid ty dur val details =
     ringbuf_emit (reserve E 0)
       (\<lambda>ev. ev\<lparr>ev_timestamp := now, ev_cgroup_id := cg, ev_pid := pid, ev_event_type := ty,
               ev_duration_us := dur, ev_value := val,
               ev_details := read_str (ev_details ev) (bytes_of details)\<rparr>)"

definition trace_db_query_start :: "app_event kenv \<Rightarrow> pt_regs \<Rightarrow> app_state \<Rightarrow> app_state" where
  "trace_db_query_start E ctx s = start_timing E ''db_query'' s"

definition db_metrics_new :: "u64 \<Rightarrow> u64 \<Rightarrow> db_metrics" where
  "db_metrics_new dur now =
     (let c = db_metrics_zero\<lparr>query_count := 1, query_time_total := dur\<rparr>;
          c1 = (if dur > 1000000 then c\<lparr>slow_queries := 1\<rparr> else c)
      in c1\<lparr>db_last_update := now\<rparr>)"

definition charge_query :: "u64 \<Rightarrow> u64 \<Rightarrow> db_metrics \<Rightarrow> db_metrics" where
  "charge_query dur now c =
     (let c1 = c\<lparr>query_count := query_count c + 1, query_time_total := query_time_total c + dur\<rparr>;
          c2 = (if dur > 1000000 then c1\<lparr>slow_queries := slow_queries c1 + 1\<rparr> else c1)
      in c2\<lparr>db_last_update := now\<rparr>)"

definition trace_db_query_end :: "app_event kenv \<Rightarrow> pt_regs \<Rightarrow> app_state \<Rightarrow> app_state" where
  "trace_db_query_end E ctx s =
     (case map_lookup (function_timings_map s) (pid_tgid E) of
        None \<Rightarrow> s
      | Some timing \<Rightarrow>
          let now = ktime E 0;
              dur = (now - ft_start_time timing) div 1000;
              cg = ft_cgroup_id timing
          in s\<lparr>db_metrics_map :=
                 (case map_lookup (db_metrics_map s) cg of
                    None \<Rightarrow> map_put (db_metrics_map s) cg (db_metrics_new dur now)
                  | Some _ \<Rightarrow> map_modify (db_metrics_map s) cg (charge_query dur now)),
               app_events := emit_app E now cg (ft_pid timing) 0 dur 0 ''database_query_completed''
                 (app_events s),
               function_timings_map := map_delete (function_timings_map s) (pid_tgid E)\<rparr>)"

definition trace_cache_get_start :: "app_event kenv \<Rightarrow> pt_regs \<Rightarrow> app_state \<Rightarrow> app_state" where
  "trace_cache_get_start E ctx s = start_timing E ''cache_get'' s"

definition cache_metrics_new :: "u64 \<Rightarrow> u64 \<Rightarrow> u64 \<Rightarrow> cache_metrics" where
  "cache_metrics_new ret dur now =
     (let c = cache_metrics_zero\<lparr>cache_gets := 1, get_latency_total := dur\<rparr>;
          c1 = (if ret \<noteq> 0 then c\<lparr>cache_hits := 1\<rparr> else c\<lparr>cache_misses := 1\<rparr>)
      in c1\<lparr>cache_last_update := now\<rparr>)"

definition charge_get :: "u64 \<Rightarrow> u64 \<Rightarrow> u64 \<Rightarrow> cache_metrics \<Rightarrow> cache_metrics" where
  "charge_get ret dur now c =
     (let c1 = c\<lparr>cache_gets := cache_gets c + 1, get_latency_total := get_latency_total c + dur\<rparr>;
          c2 = (if ret \<noteq> 0 then c1\<lparr>cache_hits := cache_hits c1 + 1\<rparr>
                else c1\<lparr>cache_misses := cache_misses c1 + 1\<rparr>)
      in c2\<lparr>cache_last_update := now\<rparr>)"

definition trace_cache_get_end :: "app_event kenv \<Rightarrow> pt_regs \<Rightarrow> app_state \<Rightarrow> app_state" where
  "trace_cache_get_end E ctx s =
     (case map_lookup (function_timings_map s) (pid_tgid E) of
        None \<Rightarrow> s
      | Some timing \<Rightarrow>
          let ret_val = ax ctx;
              now = ktime E 0;
              dur = (now - ft_start_time timing) div 1000;
              cg = ft_cgroup_id timing
          in s\<lparr>cache_metrics_map :=
                 (case map_lookup (cache_metrics_map s) cg of
                    None \<Rightarrow> map_put (cache_metrics_map s) cg (cache_metrics_new ret_val dur now)
                  | Some _ \<Rightarrow> map_modify (cache_metrics_map s) cg (charge_get ret_val dur now)),
               app_events := emit_app E now cg (ft_pid timing) 1 dur (if ret_val \<noteq> 0 then 1 else 0)
                 ''cache_get_completed'' (app_events s),
               function_timings_map := map_delete (function_timings_map s) (pid_tgid E)\<rparr>)"

definition trace_go_gc_start :: "app_event kenv \<Rightarrow> pt_regs \<Rightarrow> app_state \<Rightarrow> app_state" where
  "trace_go_gc_start E ctx s = start_timing E ''runtime_gc'' s"

definition go_metrics_new :: "u64 \<Rightarrow> u64 \<Rightarrow> go_metrics" where
  "go_metrics_new dur now =
     go_metrics_zero\<lparr>gc_cycles := 1, gc_pause_time_us := dur, go_last_update := now\<rparr>"

definition charge_gc :: "u64 \<Rightarrow> u64 \<Rightarrow> go_metrics \<Rightarrow> go_metrics" where
  "charge_gc dur now c =
     c\<lparr>gc_cycles := gc_cycles c + 1, gc_pause_time_us := gc_pause_time_us c + dur,
       go_last_update := now\<rparr>"

definition trace_go_gc_end :: "app_event kenv \<Rightarrow> pt_regs \<Rightarrow> app_state \<Rightarrow> app_state" where
  "trace_go_gc_end E ctx s =
     (case map_lookup (function_timings_map s) (pid_tgid E) of
        None \<Rightarrow> s
      | Some timing \<Rightarrow>
          let now = ktime E 0;
              dur = (now - ft_start_time timing) div 1000;
              cg = ft_cgroup_id timing
          in s\<lparr>go_metrics_map :=
                 (case map_lookup (go_metrics_map s) cg of
                    None \<Rightarrow> map_put (go_metrics_map s) cg (go_metrics_new dur now)
                  | Some _ \<Rightarrow> map_modify (go_metrics_map s) cg (charge_gc dur now)),
               app_events := emit_app E now cg (ft_pid timing) 2 dur 0 ''go_gc_completed''
                 (app_events s),
               function_timings_map := map_delete (function_timings_map s) (pid_tgid E)\<rparr>)"

definition trace_custom_metric :: "app_event kenv \<Rightarrow> pt_regs \<Rightarrow> app_state \<Rightarrow> app_state" where
  "trace_custom_metric E ctx s =
     s\<lparr>app_events := emit_app E (ktime E 0) (get_cgroup_id E) (pid_of (pid_tgid E)) 3 0 (di ctx)
         ''custom_metric_emitted'' (app_events s)\<rparr>"

datatype app_hook =
  Db_Start "app_event kenv" pt_regs
| Db_End "app_event kenv" pt_regs
| Cache_Start "app_event kenv" pt_regs
| Cache_End "app_event kenv" pt_regs
| Gc_Start "app_event kenv" pt_regs
| Gc_End "app_event kenv" pt_regs
| Custom "app_event kenv" pt_regs

fun app_step :: "app_hook \<Rightarrow> app_state \<Rightarrow> app_state" where
  "app_step (Db_Start E ctx) s = trace_db_query_start E ctx s"
| "app_step (Db_End E ctx) s = trace_db_query_end E ctx s"
| "app_step (Cache_Start E ctx) s = trace_cache_get_start E ctx s"
| "app_step (Cache_End E ctx) s = trace_cache_get_end E ctx s"
| "app_step (Gc_Start E ctx) s = trace_go_gc_start E ctx s"
| "app_step (Gc_End E ctx) s = trace_go_gc_end E ctx s"
| "app_step (Custom E ctx) s = trace_custom_metric E ctx s"

fun app_env :: "app_hook \<Rightarrow> app_event kenv" where
  "app_env (Db_Start E ctx) = E"
| "app_env (Db_End E ctx) = E"
| "app_env (Cache_Start E ctx) = E"
| "app_env (Cache_End E ctx) = E"
| "app_env (Gc_Start E ctx) = E"
| "app_env (Gc_End E ctx) = E"
| "app_env (Custom E ctx) = E"

lemmas app_handlers = trace_db_query_start_def trace_db_query_end_def trace_cache_get_start_def
  trace_cache_get_end_def trace_go_gc_start_def trace_go_gc_end_def trace_custom_metric_def
  start_timing_def

section \<open>Invariant of the metrics\<close>

definition db_entry_ok :: "db_metrics \<Rightarrow> bool" where
  "db_entry_ok c \<longleftrightarrow> active_connections c = 0 \<and> connection_timeouts c = 0 \<and> transactions c = 0 \<and>
     rollbacks c = 0 \<and> transaction_time_total c = 0"

definition cache_entry_ok :: "cache_metrics \<Rightarrow> bool" where
  "cache_entry_ok c \<longleftrightarrow> cache_gets c = cache_hits c + cache_misses c \<and> cache_sets c = 0 \<and>
     cache_deletes c = 0 \<and> cache_evictions c = 0 \<and> set_latency_total c = 0 \<and> cache_size_bytes c = 0"

definition go_entry_ok :: "go_metrics \<Rightarrow> bool" where
  "go_entry_ok c \<longleftrightarrow> goroutines c = 0 \<and> goroutine_stack_size c = 0 \<and> heap_size c = 0 \<and>
     heap_alloc c = 0 \<and> heap_idle c = 0 \<and> channel_sends c = 0 \<and> channel_receives c = 0 \<and>
     blocked_channels c = 0"

lemma db_entry_ok_ops:
  "db_entry_ok (db_metrics_new dur now)" "db_entry_ok c \<Longrightarrow> db_entry_ok (charge_query dur now c)"
  by (simp_all add: db_entry_ok_def db_metrics_new_def charge_query_def db_metrics_zero_def Let_def)

lemma cache_entry_ok_ops:
  "cache_entry_ok (cache_metrics_new r dur now)"
  "cache_entry_ok c \<Longrightarrow> cache_entry_ok (charge_get r dur now c)"
  by (simp_all add: cache_entry_ok_def cache_metrics_new_def charge_get_def cache_metrics_zero_def Let_def)

lemma go_entry_ok_ops:
  "go_entry_ok (go_metrics_new dur now)" "go_entry_ok c \<Longrightarrow> go_entry_ok (charge_gc dur now c)"
  by (simp_all add: go_entry_ok_def go_metrics_new_def charge_gc_def go_metrics_zero_def)

definition app_inv :: "app_state \<Rightarrow> bool" where
  "app_inv s \<longleftrightarrow> all_entries db_entry_ok (db_metrics_map s) \<and>
     all_entries cache_entry_ok (cache_metrics_map s) \<and> all_entries go_entry_ok (go_metrics_map s)"

lemma app_inv_step: "app_inv s \<Longrightarrow> app_inv (app_step e s)"
  by (cases e)
    (auto simp: app_inv_def app_handlers Let_def db_entry_ok_ops cache_entry_ok_ops go_entry_ok_ops
      split: option.split intro!: all_entries_put all_entries_modify)

interpretation app_machine: event_machine app_step "\<lambda>_. True" app_inv
  by unfold_locales (rule app_inv_step)

lemma app_inv_init: "app_inv app_init"
  by (simp add: app_inv_def app_init_def)

section \<open>The events explain the metrics\<close>

definition events_of :: "u32 \<Rightarrow> u64 \<Rightarrow> app_event list \<Rightarrow> app_event list" where
  "events_of ty cg evs = filter (\<lambda>ev. ev_event_type ev = ty \<and> ev_cgroup_id ev = cg) evs"

definition how_many :: "app_event list \<Rightarrow> u64" where
  "how_many evs = of_nat (length evs)"

definition time_total :: "app_event list \<Rightarrow> u64" where
  "time_total evs = sum_list (map ev_duration_us evs)"

definition slow :: "app_event list \<Rightarrow> app_event list" where
  "slow evs = filter (\<lambda>ev. ev_duration_us ev > 1000000) evs"

definition hits :: "app_event list \<Rightarrow> app_event list" where
  "hits evs = filter (\<lambda>ev. ev_value ev = 1) evs"

lemma log_append [simp]:
  "events_of ty cg (evs @ [ev]) =
     events_of ty cg evs @ (if ev_event_type ev = ty \<and> ev_cgroup_id ev = cg then [ev] else [])"
  "how_many (evs @ evs') = how_many evs + how_many evs'"
  "time_total (evs @ evs') = time_total evs + time_total evs'"
  "slow (evs @ evs') = slow evs @ slow evs'" "hits (evs @ evs') = hits evs @ hits evs'"
  by (simp_all add: events_of_def how_many_def time_total_def slow_def hits_def)

lemma log_single [simp]:
  "how_many [ev] = 1" "time_total [ev] = ev_duration_us ev" "how_many [] = 0" "time_total [] = 0"
  "slow [ev] = (if ev_duration_us ev > 1000000 then [ev] else [])" "slow [] = []"
  "hits [ev] = (if ev_value ev = 1 then [ev] else [])" "hits [] = []" "events_of ty cg [] = []"
  by (simp_all add: events_of_def how_many_def time_total_def slow_def hits_def)

definition db_explained :: "app_state \<Rightarrow> u64 \<Rightarrow> bool" where
  "db_explained s cg \<longleftrightarrow> (let q = events_of 0 cg (app_events s) in
     map_total query_count (db_metrics_map s) cg = how_many q \<and>
     map_total query_time_total (db_metrics_map s) cg = time_total q \<and>
     map_total slow_queries (db_metrics_map s) cg = how_many (slow q))"

definition cache_explained :: "app_state \<Rightarrow> u64 \<Rightarrow> bool" where
  "cache_explained s cg \<longleftrightarrow> (let g = events_of 1 cg (app_events s) in
     map_total cache_gets (cache_metrics_map s) cg = how_many g \<and>
     map_total get_latency_total (cache_metrics_map s) cg = time_total g \<and>
     map_total cache_hits (cache_metrics_map s) cg = how_many (hits g))"

definition go_explained :: "app_state \<Rightarrow> u64 \<Rightarrow> bool" where
  "go_explained s cg \<longleftrightarrow> (let g = events_of 2 cg (app_events s) in
     map_total gc_cycles (go_metrics_map s) cg = how_many g \<and>
     map_total gc_pause_time_us (go_metrics_map s) cg = time_total g)"

definition app_fit :: "u64 set \<Rightarrow> app_state \<Rightarrow> bool" where
  "app_fit K s \<longleftrightarrow> fits K (db_metrics_map s) \<and> fits K (cache_metrics_map s) \<and>
     fits K (go_metrics_map s) \<and> all_entries (\<lambda>t. ft_cgroup_id t \<in> K) (function_timings_map s) \<and>
     (\<forall>cg. db_explained s cg \<and> cache_explained s cg \<and> go_explained s cg)"

text \<open>What a charge adds to each counter.\<close>

lemma charge_simps [simp]:
  "query_count (db_metrics_new dur now) = 1" "query_count (charge_query dur now d) = query_count d + 1"
  "query_time_total (db_metrics_new dur now) = dur"
  "query_time_total (charge_query dur now d) = query_time_total d + dur"
  "slow_queries (db_metrics_new dur now) = (if dur > 1000000 then 1 else 0)"
  "slow_queries (charge_query dur now d) = slow_queries d + (if dur > 1000000 then 1 else 0)"
  "cache_gets (cache_metrics_new r dur now) = 1" "cache_gets (charge_get r dur now c) = cache_gets c + 1"
  "get_latency_total (cache_metrics_new r dur now) = dur"
  "get_latency_total (charge_get r dur now c) = get_latency_total c + dur"
  "cache_hits (cache_metrics_new r dur now) = (if r \<noteq> 0 then 1 else 0)"
  "cache_hits (charge_get r dur now c) = cache_hits c + (if r \<noteq> 0 then 1 else 0)"
  "gc_cycles (go_metrics_new dur now) = 1" "gc_cycles (charge_gc dur now g) = gc_cycles g + 1"
  "gc_pause_time_us (go_metrics_new dur now) = dur"
  "gc_pause_time_us (charge_gc dur now g) = gc_pause_time_us g + dur"
  by (simp_all add: db_metrics_new_def charge_query_def db_metrics_zero_def cache_metrics_new_def
      charge_get_def cache_metrics_zero_def go_metrics_new_def charge_gc_def go_metrics_zero_def Let_def)

lemma app_fit_start: "app_fit K s \<Longrightarrow> get_cgroup_id E \<in> K \<Longrightarrow> app_fit K (start_timing E name s)"
  by (simp add: app_fit_def start_timing_def Let_def all_entries_put db_explained_def
      cache_explained_def go_explained_def)

lemma app_fit_db_end:
  assumes "app_fit K s" and "reserve E 0 = Some old"
  shows "app_fit K (trace_db_query_end E ctx s)"
proof (cases "map_lookup (function_timings_map s) (pid_tgid E)")
  case (Some t)
  then have cg: "ft_cgroup_id t \<in> K" using assms(1) by (auto simp: app_fit_def dest: all_entries_lookup)
  then have "map_lookup (db_metrics_map s) (ft_cgroup_id t) \<noteq> None \<or> map_room (db_metrics_map s)"
    using assms(1) by (auto simp: app_fit_def dest: fits_room)
  with Some assms cg show ?thesis
    by (simp add: app_fit_def trace_db_query_end_def Let_def emit_app_def ringbuf_emit_def fits_charge
        all_entries_delete db_explained_def cache_explained_def go_explained_def charge_total)
qed (use assms in \<open>simp add: trace_db_query_end_def\<close>)

lemma app_fit_cache_end:
  assumes "app_fit K s" and "reserve E 0 = Some old"
  shows "app_fit K (trace_cache_get_end E ctx s)"
proof (cases "map_lookup (function_timings_map s) (pid_tgid E)")
  case (Some t)
  then have cg: "ft_cgroup_id t \<in> K" using assms(1) by (auto simp: app_fit_def dest: all_entries_lookup)
  then have "map_lookup (cache_metrics_map s) (ft_cgroup_id t) \<noteq> None \<or> map_room (cache_metrics_map s)"
    using assms(1) by (auto simp: app_fit_def dest: fits_room)
  with Some assms cg show ?thesis
    by (simp add: app_fit_def trace_cache_get_end_def Let_def emit_app_def ringbuf_emit_def fits_charge
        all_entries_delete db_explained_def cache_explained_def go_explained_def charge_total)
qed (use assms in \<open>simp add: trace_cache_get_end_def\<close>)

lemma app_fit_gc_end:
  assumes "app_fit K s" and "reserve E 0 = Some old"
  shows "app_fit K (trace_go_gc_end E ctx s)"
proof (cases "map_lookup (function_timings_map s) (pid_tgid E)")
  case (Some t)
  then have cg: "ft_cgroup_id t \<in> K" using assms(1) by (auto simp: app_fit_def dest: all_entries_lookup)
  then have "map_lookup (go_metrics_map s) (ft_cgroup_id t) \<noteq> None \<or> map_room (go_metrics_map s)"
    using assms(1) by (auto simp: app_fit_def dest: fits_room)
  with Some assms cg show ?thesis
    by (simp add: app_fit_def trace_go_gc_end_def Let_def emit_app_def ringbuf_emit_def fits_charge
        all_entries_delete db_explained_def cache_explained_def go_explained_def charge_total)
qed (use assms in \<open>simp add: trace_go_gc_end_def\<close>)

lemma app_fit_custom:
  "app_fit K s \<Longrightarrow> reserve E 0 = Some old \<Longrightarrow> app_fit K (trace_custom_metric E ctx s)"
  by (simp add: app_fit_def trace_custom_metric_def emit_app_def ringbuf_emit_def db_explained_def
      cache_explained_def go_explained_def Let_def)

definition heard :: "u64 set \<Rightarrow> app_hook \<Rightarrow> bool" where
  "heard K e \<longleftrightarrow> get_cgroup_id (app_env e) \<in> K \<and> reserve (app_env e) 0 \<noteq> None"

interpretation app_log: event_machine app_step "heard K" "app_fit K" for K
proof
  fix e s
  assume "heard K e" and "app_fit K s"
  then show "app_fit K (app_step e s)"
    by (cases e) (auto simp: heard_def app_fit_start app_fit_db_end app_fit_cache_end app_fit_gc_end
        app_fit_custom trace_db_query_start_def trace_cache_get_start_def trace_go_gc_start_def)
qed

lemma app_fit_init: "finite K \<Longrightarrow> card K \<le> 10000 \<Longrightarrow> app_fit K app_init"
  by (simp add: app_fit_def app_init_def fits_new db_explained_def cache_explained_def
      go_explained_def Let_def)

section \<open>One slot per thread\<close>

lemma timings_step:
  "pid_tgid (app_env e) \<noteq> k \<Longrightarrow>
     map_lookup (function_timings_map (app_step e s)) k = map_lookup (function_timings_map s) k"
  by (cases e) (auto simp: app_handlers Let_def map_simps split: option.split)

interpretation app_slots: event_machine app_step "\<lambda>e. pid_tgid (app_env e) \<noteq> k"
    "\<lambda>s. map_lookup (function_timings_map s) k = v" for k v
  by unfold_locales (simp add: timings_step)

section \<open>Examples\<close>

definition app_event0 :: app_event where
  "app_event0 = \<lparr>ev_timestamp = 0, ev_cgroup_id = 0, ev_pid = 0, ev_event_type = 0, ev_duration_us = 0,
     ev_value = 0, ev_details = replicate 256 0\<rparr>"

definition thread_at :: "u64 \<Rightarrow> u64 \<Rightarrow> app_event kenv" where
  "thread_at k now = env0\<lparr>pid_tgid := k, ktime := (\<lambda>_. now), reserve := (\<lambda>_. Some app_event0)\<rparr>"

lemma thread_at_simps [simp]:
  "pid_tgid (thread_at k now) = k" "ktime (thread_at k now) n = now"
  "get_cgroup_id (thread_at k now) = 0" "reserve (thread_at k now) n = Some app_event0"
  by (simp_all add: thread_at_def env0_def get_cgroup_id_def core_read_def kheap0_def)

lemma app_init_simps [simp]:
  "map_lookup (function_timings_map app_init) k = None" "map_room (function_timings_map app_init)"
  "map_room (db_metrics_map app_init)" "map_room (go_metrics_map app_init)"
  "map_total dbf (db_metrics_map app_init) cg = 0" "map_total gof (go_metrics_map app_init) cg = 0"
  "app_events app_init = []"
  by (simp_all add: app_init_def map_room_def new_map_def map_lookup_def map_total_def)

section \<open>Properties\<close>

text \<open>
  Property C3. Events and metrics tell the same story: over any run of at most 10000 cgroups in
  which no event is dropped, the metrics of a cgroup are the summary of its events, that is number,
  total time and slow ones (above one second) of the query events, number, total time and hits of
  the cache events, number and total pause of the collector events.
\<close>

theorem events_explain_app_metrics:
  assumes "finite K" and "card K \<le> 10000" and "list_all (heard K) es"
    and "s = fold app_step es app_init"
    and "q = events_of 0 cg (app_events s)" and "g = events_of 1 cg (app_events s)"
    and "c = events_of 2 cg (app_events s)"
  shows "map_total query_count (db_metrics_map s) cg = how_many q \<and>
    map_total query_time_total (db_metrics_map s) cg = time_total q \<and>
    map_total slow_queries (db_metrics_map s) cg = how_many (slow q) \<and>
    map_total cache_gets (cache_metrics_map s) cg = how_many g \<and>
    map_total get_latency_total (cache_metrics_map s) cg = time_total g \<and>
    map_total cache_hits (cache_metrics_map s) cg = how_many (hits g) \<and>
    map_total gc_cycles (go_metrics_map s) cg = how_many c \<and>
    map_total gc_pause_time_us (go_metrics_map s) cg = time_total c"
proof -
  have "app_fit K s"
    unfolding assms(4) by (rule app_log.run_inv [OF assms(3) app_fit_init [OF assms(1,2)]])
  then show ?thesis
    by (simp add: assms(5-7) app_fit_def db_explained_def cache_explained_def go_explained_def Let_def)
qed

theorem events_explain_app_metrics_witness:
  "map_total slow_queries (db_metrics_map (fold app_step
       [Db_Start (thread_at 7 0) regs0, Db_End (thread_at 7 2000000000) regs0] app_init)) 0 = 1"
proof -
  let ?s = "fold app_step [Db_Start (thread_at 7 0) regs0, Db_End (thread_at 7 2000000000) regs0] app_init"
  have "map_total slow_queries (db_metrics_map ?s) 0 = how_many (slow (events_of 0 0 (app_events ?s)))"
    using events_explain_app_metrics [of "{0}"
        "[Db_Start (thread_at 7 0) regs0, Db_End (thread_at 7 2000000000) regs0]" ?s _ 0]
    by (simp add: heard_def)
  moreover have "app_events ?s = [app_event0\<lparr>ev_timestamp := 2000000000, ev_cgroup_id := 0, ev_pid := pid_of 7,
      ev_event_type := 0, ev_duration_us := 2000000, ev_value := 0,
      ev_details := read_str (ev_details app_event0) (bytes_of ''database_query_completed'')\<rparr>]"
    by (simp add: app_handlers Let_def map_simps emit_app_def ringbuf_emit_def)
  ultimately show ?thesis by (simp add: events_of_def)
qed

text \<open>
  A query is measured end to end: whatever hooks of other threads run between its
  start and end probe, the cgroup read at the start is charged one query and the time in
  between in microseconds, a query of more than one second counts as slow, the thread's slot is
  free again, and the event carries the duration.
\<close>

theorem query_measured_end_to_end:
  assumes "k = pid_tgid E1" and "pid_tgid E2 = k" and "cg = get_cgroup_id E1"
    and "map_lookup (function_timings_map s) k \<noteq> None \<or> map_room (function_timings_map s)"
    and "list_all (\<lambda>e. pid_tgid (app_env e) \<noteq> k) es"
    and "t = fold app_step es (trace_db_query_start E1 c1 s)"
    and "map_lookup (db_metrics_map t) cg \<noteq> None \<or> map_room (db_metrics_map t)"
    and "u = trace_db_query_end E2 c2 t" and "d = (ktime E2 0 - ktime E1 0) div 1000"
    and "reserve E2 0 = Some old"
  shows "map_total query_count (db_metrics_map u) cg = map_total query_count (db_metrics_map t) cg + 1 \<and>
    map_total query_time_total (db_metrics_map u) cg = map_total query_time_total (db_metrics_map t) cg + d \<and>
    map_total slow_queries (db_metrics_map u) cg =
      map_total slow_queries (db_metrics_map t) cg + (if d > 1000000 then 1 else 0) \<and>
    map_lookup (function_timings_map u) k = None \<and>
    (\<exists>ev. app_events u = app_events t @ [ev] \<and> ev_event_type ev = 0 \<and> ev_cgroup_id ev = cg \<and>
       ev_pid ev = pid_of k \<and> ev_duration_us ev = d)"
proof -
  let ?v = "\<lparr>ft_start_time = ktime E1 0, ft_cgroup_id = cg, ft_pid = pid_of k,
     ft_function_name = read_str (replicate 128 0) (bytes_of ''db_query'')\<rparr>"
  have "map_lookup (function_timings_map (trace_db_query_start E1 c1 s)) k = Some ?v"
    using assms(1,3,4) by (simp add: trace_db_query_start_def start_timing_def Let_def map_simps)
  then have "map_lookup (function_timings_map t) k = Some ?v"
    unfolding assms(6) by (rule app_slots.run_inv [OF assms(5)])
  then show ?thesis
    using assms(2,7-10)
    by (simp add: trace_db_query_end_def Let_def charge_total map_simps emit_app_def ringbuf_emit_def)
qed

theorem query_measured_end_to_end_witness:
  "map_total query_time_total (db_metrics_map (trace_db_query_end (thread_at 7 9000) regs0
     (fold app_step [Gc_Start (thread_at 8 3000) regs0]
       (trace_db_query_start (thread_at 7 2000) regs0 app_init)))) 0 = 7"
  using query_measured_end_to_end [OF refl _ refl _ _ refl _ refl refl, of "thread_at 7 9000" "thread_at 7 2000"
      app_init "[Gc_Start (thread_at 8 3000) regs0]" regs0 app_event0 regs0]
  by (simp add: trace_go_gc_start_def trace_db_query_start_def start_timing_def Let_def)

text \<open>
  The slot of a thread holds one probe: when the collector runs inside a query on the
  same thread, the query's start is overwritten, the collection is measured correctly, and the end
  of the query then finds nothing and changes nothing; the query is lost.
\<close>

theorem nested_collection_loses_query:
  assumes "s = trace_db_query_start E1 c1 s0" and "k = pid_tgid E1"
    and "pid_tgid E2 = k" and "pid_tgid E3 = k" and "pid_tgid E4 = k"
    and "map_lookup (function_timings_map s0) k \<noteq> None \<or> map_room (function_timings_map s0)"
    and "t = trace_go_gc_start E2 c2 s" and "u = trace_go_gc_end E3 c3 t"
    and "map_lookup (go_metrics_map s0) (get_cgroup_id E2) \<noteq> None \<or> map_room (go_metrics_map s0)"
    and "list_all (\<lambda>e. pid_tgid (app_env e) \<noteq> k) es" and "v = fold app_step es u"
  shows "map_total gc_pause_time_us (go_metrics_map u) (get_cgroup_id E2) =
      map_total gc_pause_time_us (go_metrics_map s0) (get_cgroup_id E2) + (ktime E3 0 - ktime E2 0) div 1000 \<and>
    db_metrics_map u = db_metrics_map s0 \<and> trace_db_query_end E4 c4 v = v"
proof -
  have k: "map_lookup (function_timings_map s) k \<noteq> None"
    using assms(1,2,6) by (simp add: trace_db_query_start_def start_timing_def Let_def map_simps)
  then obtain name where "map_lookup (function_timings_map t) k =
      Some \<lparr>ft_start_time = ktime E2 0, ft_cgroup_id = get_cgroup_id E2, ft_pid = pid_of k, ft_function_name = name\<rparr>"
    using assms(3,7) by (simp add: trace_go_gc_start_def start_timing_def Let_def map_simps)
  moreover have "go_metrics_map t = go_metrics_map s0" "db_metrics_map t = db_metrics_map s0"
    using assms(1,7) by (simp_all add: trace_go_gc_start_def trace_db_query_start_def start_timing_def Let_def)
  ultimately have u: "map_total gc_pause_time_us (go_metrics_map u) (get_cgroup_id E2) =
      map_total gc_pause_time_us (go_metrics_map s0) (get_cgroup_id E2) + (ktime E3 0 - ktime E2 0) div 1000"
    "db_metrics_map u = db_metrics_map s0" "map_lookup (function_timings_map u) k = None"
    using assms(4,8,9)
    by (simp_all add: trace_go_gc_end_def Let_def charge_total map_simps cong: option.case_cong)
  have "map_lookup (function_timings_map v) k = None"
    unfolding assms(11) by (rule app_slots.run_inv [OF assms(10) u(3)])
  with u assms(5) show ?thesis by (simp add: trace_db_query_end_def)
qed

theorem nested_collection_loses_query_witness:
  "db_metrics_map (trace_go_gc_end (thread_at 7 4000) regs0 (trace_go_gc_start (thread_at 7 3000) regs0
     (trace_db_query_start (thread_at 7 2000) regs0 app_init))) = db_metrics_map app_init"
  using nested_collection_loses_query [OF refl refl _ _ _ _ refl refl _ _ refl, of "thread_at 7 3000"
      "thread_at 7 2000" "thread_at 7 4000" "thread_at 7 5000" app_init "[]"]
  by simp

text \<open>
  In every reachable state each cache entry has as many lookups as hits and misses
  together, and the fields that no probe writes are zero in all three kinds of metrics.
\<close>

theorem app_metrics_consistent:
  "(case map_lookup (cache_metrics_map (fold app_step es app_init)) cg of
      None \<Rightarrow> True
    | Some c \<Rightarrow> cache_gets c = cache_hits c + cache_misses c \<and> cache_sets c = 0 \<and>
        cache_deletes c = 0 \<and> cache_evictions c = 0 \<and> set_latency_total c = 0 \<and> cache_size_bytes c = 0) \<and>
   (case map_lookup (db_metrics_map (fold app_step es app_init)) cg of
      None \<Rightarrow> True
    | Some d \<Rightarrow> active_connections d = 0 \<and> connection_timeouts d = 0 \<and> transactions d = 0 \<and>
        rollbacks d = 0 \<and> transaction_time_total d = 0) \<and>
   (case map_lookup (go_metrics_map (fold app_step es app_init)) cg of
      None \<Rightarrow> True
    | Some g \<Rightarrow> goroutines g = 0 \<and> goroutine_stack_size g = 0 \<and> heap_size g = 0 \<and> heap_alloc g = 0 \<and>
        heap_idle g = 0 \<and> channel_sends g = 0 \<and> channel_receives g = 0 \<and> blocked_channels g = 0)"
proof -
  have "app_inv (fold app_step es app_init)"
    by (rule app_machine.run_inv [OF _ app_inv_init]) (simp add: list_all_iff)
  then have "all_entries db_entry_ok (db_metrics_map (fold app_step es app_init))"
    "all_entries cache_entry_ok (cache_metrics_map (fold app_step es app_init))"
    "all_entries go_entry_ok (go_metrics_map (fold app_step es app_init))"
    by (simp_all only: app_inv_def)
  from this [THEN all_entries_case, of cg] show ?thesis
    unfolding db_entry_ok_def cache_entry_ok_def go_entry_ok_def by blast
qed

end
