(* ===== verification/Charge_Races.thy ===== *)
theory Charge_Races
  imports Cpu_Tracker Memory_Tracker Http_Metrics Fs_Tracker App_Specific Security_Monitor Schedules
begin

text \<open>
  The step that all programs with metrics per control group share, under concurrency: look the entry
  of the group up; if there is none, create it with \<open>BPF_ANY\<close>; otherwise add to its counters with atomic
  operations. Invocations on several CPUs interleave between these helper calls. The shared state maps
  a group to the address of its entry; replacing an entry leaves those who hold its address with a
  stale one. The theory follows one counter at a time: additions to different counters of an entry are
  separate operations, but they do not interfere.
\<close>

section \<open>The steps of a charge\<close>

text \<open>
  Of the programs, \<open>App_Specific\<close>, \<open>Fs_Tracker\<close> and \<open>Security_Monitor\<close> create the entry with the first
  charge in it (\<open>prefilled\<close>); the others create an empty one, look it up again and charge it.
\<close>

datatype 'a charge_pc =
  Begin u64 'a | Create u64 'a | Again u64 'a | Apply u64 nat 'a | Charged u64 nat 'a | Missed u64 'a

type_synonym 'v shared = "(u64, nat) bpf_map \<times> 'v list"

fun charge_exec ::
  "bool \<Rightarrow> ('a \<Rightarrow> 'v) \<Rightarrow> ('a \<Rightarrow> 'v \<Rightarrow> 'v) \<Rightarrow> 'v shared \<Rightarrow> 'a charge_pc \<Rightarrow> 'v shared \<times> 'a charge_pc" where
  "charge_exec prefilled new charge (m, cells) (Begin cg a) =
     ((m, cells), case map_lookup m cg of None \<Rightarrow> Create cg a | Some p \<Rightarrow> Apply cg p a)"
| "charge_exec prefilled new charge (m, cells) (Create cg a) =
     (if map_lookup m cg \<noteq> None \<or> map_room m
      then ((map_put m cg (length cells), cells @ [new a]),
            if prefilled then Charged cg (length cells) a else Again cg a)
      else ((m, cells), if prefilled then Missed cg a else Again cg a))"
| "charge_exec prefilled new charge (m, cells) (Again cg a) =
     ((m, cells), case map_lookup m cg of None \<Rightarrow> Missed cg a | Some p \<Rightarrow> Apply cg p a)"
| "charge_exec prefilled new charge (m, cells) (Apply cg p a) =
     ((m, cells[p := charge a (cells ! p)]), Charged cg p a)"
| "charge_exec prefilled new charge (m, cells) (Charged cg p a) = ((m, cells), Charged cg p a)"
| "charge_exec prefilled new charge (m, cells) (Missed cg a) = ((m, cells), Missed cg a)"

text \<open>A map of the sequential models as shared state, and what a lookup finds in it.\<close>

definition share_map :: "(u64, 'v) bpf_map \<Rightarrow> 'v shared" where
  "share_map m = (\<lparr>max_entries = max_entries m, elems = zip (map fst (elems m)) [0..<length (elems m)]\<rparr>,
     map snd (elems m))"

definition shared_value :: "'v shared \<Rightarrow> u64 \<Rightarrow> 'v option" where
  "shared_value h cg = map_option ((!) (snd h)) (map_lookup (fst h) cg)"

definition run_charges ::
  "bool \<Rightarrow> ('a \<Rightarrow> 'v) \<Rightarrow> ('a \<Rightarrow> 'v \<Rightarrow> 'v) \<Rightarrow> nat list \<Rightarrow> (u64, 'v) bpf_map \<Rightarrow> 'a charge_pc list \<Rightarrow>
     'v shared \<times> 'a charge_pc list" where
  "run_charges prefilled new charge sched m pcs =
     fold (move_at (charge_exec prefilled new charge)) sched (share_map m, pcs)"

definition begins :: "'a charge_pc \<Rightarrow> bool" where
  "begins pc \<longleftrightarrow> (\<exists>cg a. pc = Begin cg a)"

text \<open>The amounts that the finished invocations of a group have charged.\<close>

definition charged :: "('a \<Rightarrow> u64) \<Rightarrow> u64 \<Rightarrow> 'a charge_pc list \<Rightarrow> u64" where
  "charged amount cg pcs = sum_list (map (\<lambda>pc. case pc of
     Charged k p a \<Rightarrow> if k = cg then amount a else 0 | _ \<Rightarrow> 0) pcs)"

section \<open>Every charge ends\<close>

fun charge_left :: "'a charge_pc \<Rightarrow> nat" where
  "charge_left (Begin cg a) = 4"
| "charge_left (Create cg a) = 3"
| "charge_left (Again cg a) = 2"
| "charge_left (Apply cg p a) = 1"
| "charge_left (Charged cg p a) = 0"
| "charge_left (Missed cg a) = 0"

interpretation charge_steps: stepwise "charge_exec prefilled new charge" charge_left for prefilled new charge
proof
  fix h :: "'b shared" and pc :: "'a charge_pc"
  obtain m cells where h: "h = (m, cells)" by fastforce
  show "charge_left (snd (charge_exec prefilled new charge h pc)) < charge_left pc" if "0 < charge_left pc"
    using that by (cases pc) (auto simp: h split: option.split)
  show "charge_exec prefilled new charge h pc = (h, pc)" if "charge_left pc = 0"
    using that by (cases pc) (auto simp: h)
qed

section \<open>Once an entry exists, no charge is lost\<close>

lemma sum_list_replace_zero:
  "i < length xs \<Longrightarrow> f (xs ! i) = 0 \<Longrightarrow>
     sum_list (map f (xs[i := x])) = sum_list (map f xs) + (f x :: 'b :: comm_monoid_add)"
  by (induction xs arbitrary: i) (auto split: nat.splits simp: add.commute add.left_commute)

text \<open>Among addresses below \<open>n\<close>, exactly \<open>cg\<close> leads to \<open>p\<close>.\<close>

definition entry_of :: "u64 \<Rightarrow> nat \<Rightarrow> nat \<Rightarrow> (u64, nat) bpf_map \<Rightarrow> bool" where
  "entry_of cg p n m \<longleftrightarrow> map_lookup m cg = Some p \<and>
     (\<forall>k q. map_lookup m k = Some q \<longrightarrow> q < n \<and> (k = cg \<longleftrightarrow> q = p))"

lemma entry_of_here: "entry_of cg p n m \<Longrightarrow> map_lookup m cg = Some p"
  by (simp add: entry_of_def)

lemma entry_of_at: "entry_of cg p n m \<Longrightarrow> map_lookup m k = Some q \<Longrightarrow> q < n \<and> (k = cg \<longleftrightarrow> q = p)"
  by (simp add: entry_of_def)

lemma entry_of_put: "entry_of cg p n m \<Longrightarrow> p < n \<Longrightarrow> k \<noteq> cg \<Longrightarrow> entry_of cg p (Suc n) (map_put m k n)"
  by (fastforce simp: entry_of_def lookup_map_put)

lemma share_map_entry:
  assumes "map_wf m" and "map_lookup m cg = Some v"
  obtains p where "p < length (snd (share_map m))" and "snd (share_map m) ! p = v"
    and "entry_of cg p (length (snd (share_map m))) (fst (share_map m))"
proof -
  let ?ks = "map fst (elems m)" and ?n = "length (elems m)"
  have distinct: "distinct ?ks" using assms(1) by (simp add: map_wf_def)
  have at: "q < ?n \<and> ?ks ! q = k" if "map_of (zip ?ks [0..<?n]) k = Some q" for k q
  proof -
    have "(k, q) \<in> set (zip ?ks [0..<?n])" using that by (rule map_of_SomeD)
    then obtain i where "i < ?n" "?ks ! i = k" "[0..<?n] ! i = q"
      unfolding in_set_zip by (auto simp del: nth_map)
    then show ?thesis by simp
  qed
  have "(cg, v) \<in> set (elems m)" using assms(2) by (simp add: map_lookup_def map_of_SomeD)
  then obtain p where p: "p < ?n" "elems m ! p = (cg, v)" unfolding in_set_conv_nth by blast
  have uniq: "q = p" if "q < ?n" "?ks ! q = cg" for q
    using nth_eq_iff_index_eq [OF distinct, of q p] p that by simp
  have ks: "?ks ! p = cg" using p by simp
  have here: "map_of (zip ?ks [0..<?n]) cg = Some p"
    using map_of_zip_nth [OF _ distinct, of "[0..<?n]" p] p(1) ks by simp
  have "q < ?n \<and> (k = cg \<longleftrightarrow> q = p)" if "map_of (zip ?ks [0..<?n]) k = Some q" for k q
    using at [OF that] uniq [of q] ks by blast
  then have "entry_of cg p ?n (fst (share_map m))"
    using here by (simp add: entry_of_def share_map_def map_lookup_def)
  then show ?thesis using that [of p] p by (simp add: share_map_def)
qed

text \<open>The contract of a counter: what a charge adds to it, and what a new entry starts with.\<close>

locale charging =
  fixes prefilled :: bool and new :: "'a \<Rightarrow> 'v" and charge :: "'a \<Rightarrow> 'v \<Rightarrow> 'v"
    and amount :: "'a \<Rightarrow> u64" and counter :: "'v \<Rightarrow> u64"
  assumes counter_charge: "counter (charge a v) = counter v + amount a"
begin

text \<open>The entry of \<open>cg\<close> is at \<open>p\<close>, only invocations for \<open>cg\<close> know that, and none of them is about to create it.\<close>

definition pc_fine :: "u64 \<Rightarrow> nat \<Rightarrow> nat \<Rightarrow> 'a charge_pc \<Rightarrow> bool" where
  "pc_fine cg p n pc \<longleftrightarrow> (case pc of
     Create k a \<Rightarrow> k \<noteq> cg | Apply k q a \<Rightarrow> q < n \<and> (k = cg \<longleftrightarrow> q = p) | _ \<Rightarrow> True)"

definition warm :: "u64 \<Rightarrow> nat \<Rightarrow> u64 \<Rightarrow> 'v shared \<times> 'a charge_pc list \<Rightarrow> bool" where
  "warm cg p c0 st \<longleftrightarrow> (case st of ((m, cells), pcs) \<Rightarrow>
     p < length cells \<and> entry_of cg p (length cells) m \<and>
     list_all (pc_fine cg p (length cells)) pcs \<and> counter (cells ! p) = c0 + charged amount cg pcs)"

lemma charged_replace:
  assumes "i < length pcs" and "0 < charge_left (pcs ! i)"
  shows "charged amount cg (pcs[i := pc]) =
    charged amount cg pcs + (case pc of Charged k p a \<Rightarrow> if k = cg then amount a else 0 | _ \<Rightarrow> 0)"
proof -
  let ?f = "\<lambda>pc. case pc of Charged k p a \<Rightarrow> if k = cg then amount a else 0 | _ \<Rightarrow> (0 :: u64)"
  have "?f (pcs ! i) = 0" using assms(2) by (cases "pcs ! i") simp_all
  then show ?thesis
    unfolding charged_def by (rule sum_list_replace_zero [OF assms(1)])
qed

text \<open>One step: the entry stays, and its counter grows by what is charged to the group.\<close>

lemma found_fine:
  "entry_of cg p n m \<Longrightarrow>
     pc_fine cg p n (case map_lookup m k of None \<Rightarrow> Create k a | Some q \<Rightarrow> Apply k q a) \<and>
     pc_fine cg p n (case map_lookup m k of None \<Rightarrow> Missed k a | Some q \<Rightarrow> Apply k q a)"
  by (cases "map_lookup m k") (auto simp: pc_fine_def dest: entry_of_here entry_of_at)

lemma exec_warm:
  assumes exec: "charge_exec prefilled new charge (m, cells) pc = ((m', cells'), pc')"
    and fine: "pc_fine cg p (length cells) pc" and busy: "0 < charge_left pc"
    and p: "p < length cells" and own: "entry_of cg p (length cells) m"
  shows "entry_of cg p (length cells') m' \<and> length cells \<le> length cells' \<and> pc_fine cg p (length cells') pc' \<and>
    counter (cells' ! p) = counter (cells ! p) +
      (case pc' of Charged k p a \<Rightarrow> if k = cg then amount a else 0 | _ \<Rightarrow> 0)"
proof (cases pc)
  case (Begin k a)
  then have "m' = m" "cells' = cells" "pc' = (case map_lookup m k of None \<Rightarrow> Create k a | Some p \<Rightarrow> Apply k p a)"
    using exec by auto
  with found_fine [OF own, of k a] own show ?thesis by (auto split: option.split)
next
  case (Create k a)
  with fine have k: "k \<noteq> cg" by (simp add: pc_fine_def)
  show ?thesis
  proof (cases "map_lookup m k \<noteq> None \<or> map_room m")
    case True
    then have "m' = map_put m k (length cells)" "cells' = cells @ [new a]"
        "pc' = (if prefilled then Charged k (length cells) a else Again k a)"
      using exec Create by auto
    with k p entry_of_put [OF own p k] show ?thesis by (auto simp: pc_fine_def nth_append)
  next
    case False
    then have "m' = m" "cells' = cells" "pc' = (if prefilled then Missed k a else Again k a)"
      using exec Create by auto
    with own show ?thesis by (auto simp: pc_fine_def)
  qed
next
  case (Again k a)
  then have "m' = m" "cells' = cells" "pc' = (case map_lookup m k of None \<Rightarrow> Missed k a | Some p \<Rightarrow> Apply k p a)"
    using exec by auto
  with found_fine [OF own, of k a] own show ?thesis by (auto split: option.split)
next
  case (Apply k q a)
  with fine have q: "q < length cells" "k = cg \<longleftrightarrow> q = p" by (simp_all add: pc_fine_def)
  have "m' = m" "cells' = cells[q := charge a (cells ! q)]" "pc' = Charged k q a" using exec Apply by auto
  with q own show ?thesis by (auto simp: pc_fine_def counter_charge nth_list_update)
qed (use busy in simp_all)

lemma pc_fine_mono: "pc_fine cg p n pc \<Longrightarrow> n \<le> n' \<Longrightarrow> pc_fine cg p n' pc"
  by (auto simp: pc_fine_def split: charge_pc.splits)

lemma warm_move: "warm cg p c0 st \<Longrightarrow> warm cg p c0 (move_at (charge_exec prefilled new charge) i st)"
proof (cases "i < length (snd st) \<and> 0 < charge_left (snd st ! i)")
  case False
  moreover have "charge_exec prefilled new charge (fst st) (snd st ! i) = (fst st, snd st ! i)"
    if "charge_left (snd st ! i) = 0"
    using that by (rule charge_steps.exec_done)
  moreover assume "warm cg p c0 st"
  ultimately show ?thesis by (cases st) (auto simp: move_at_def)
next
  case True
  assume inv: "warm cg p c0 st"
  obtain m cells pcs where st: "st = ((m, cells), pcs)" by (metis prod.collapse)
  obtain m' cells' pc' where exec: "charge_exec prefilled new charge (m, cells) (pcs ! i) = ((m', cells'), pc')"
    by (metis prod.collapse)
  have i: "i < length pcs" "0 < charge_left (pcs ! i)" using True st by simp_all
  have p: "p < length cells" "entry_of cg p (length cells) m"
      and fine: "list_all (pc_fine cg p (length cells)) pcs"
      and count: "counter (cells ! p) = c0 + charged amount cg pcs"
    using inv by (simp_all add: warm_def st)
  have "pc_fine cg p (length cells) (pcs ! i)" using fine i(1) by (simp add: list_all_length)
  note step = exec_warm [OF exec this i(2) p]
  have "list_all (pc_fine cg p (length cells')) (pcs[i := pc'])"
    using fine step set_update_subset_insert [of pcs i pc'] by (auto simp: list_all_iff intro: pc_fine_mono)
  moreover have "p < length cells'" using step p(1) by linarith
  ultimately have "warm cg p c0 ((m', cells'), pcs[i := pc'])"
    using step by (simp add: warm_def count charged_replace [OF i] add.assoc)
  then show ?thesis using i(1) by (simp add: move_at_def st exec)
qed

lemma warm_run:
  assumes "map_wf m" and "map_lookup m cg = Some v" and "list_all begins pcs"
    and "run_charges prefilled new charge sched m pcs = (h, pcs')"
  obtains w where "shared_value h cg = Some w" and "counter w = counter v + charged amount cg pcs'"
proof -
  obtain p where p: "p < length (snd (share_map m))" "snd (share_map m) ! p = v"
      "entry_of cg p (length (snd (share_map m))) (fst (share_map m))"
    using share_map_entry [OF assms(1,2)] by blast
  have "charged amount cg pcs = 0" and "list_all (pc_fine cg p n) pcs" for n
    using assms(3) by (induction pcs) (auto simp: charged_def begins_def pc_fine_def)
  then have "warm cg p (counter v) (share_map m, pcs)"
    using p by (simp add: warm_def case_prod_beta)
  then have "warm cg p (counter v) (h, pcs')"
    unfolding assms(4) [symmetric] run_charges_def
    by (induction sched rule: rev_induct) (simp_all add: warm_move)
  then have "shared_value h cg = Some (snd h ! p)" "counter (snd h ! p) = counter v + charged amount cg pcs'"
    by (auto simp: warm_def shared_value_def case_prod_beta dest: entry_of_here)
  then show ?thesis by (rule that)
qed

end

section \<open>The counters of the programs\<close>

text \<open>What an invocation has measured before it charges: durations, sizes, the clock.\<close>

interpretation queries: charging True "\<lambda>(dur, now). db_metrics_new dur now" "\<lambda>(dur, now). charge_query dur now"
    "\<lambda>_. 1" query_count
  by unfold_locales auto

interpretation query_time: charging True "\<lambda>(dur, now). db_metrics_new dur now" "\<lambda>(dur, now). charge_query dur now"
    fst query_time_total
  by unfold_locales auto

interpretation opens: charging True "\<lambda>(lat, now). open_metrics_new lat now" "\<lambda>(lat, now). charge_open lat now"
    "\<lambda>_. 1" open_ops
  by unfold_locales (auto simp: charge_open_def)

interpretation system_calls: charging True metrics_new charge_syscall "\<lambda>_. 1" total_syscalls
  by unfold_locales (simp add: charge_syscall_def)

interpretation allocations: charging False "\<lambda>_. memory_metrics_zero" "\<lambda>(sz, now). charge_alloc sz now"
    fst bytes_allocated
  by unfold_locales (auto simp: charge_alloc_def update_size_histogram_def Let_def)

interpretation http_requests: charging False "\<lambda>_. http_metrics_start" "\<lambda>(code, l, now). charge_request code l now"
    "\<lambda>_. 1" request_count
  by unfold_locales auto

interpretation run_time: charging False "\<lambda>_. cpu_metrics_zero" "\<lambda>(st, r, now). charge_switch st r now"
    "fst \<circ> snd" user_time_ns
  by unfold_locales auto

section \<open>An entry that is created twice\<close>

text \<open>
  Of \<open>n + 2\<close> invocations for a group without an entry, the first two find none; the first creates the
  entry and the others charge it; then the second creates its own.
\<close>

definition charging_prefix :: "nat \<Rightarrow> nat list" where
  "charging_prefix n = [0, 1, 0] @ concat (map (\<lambda>j. [j, j]) [2..<n + 2])"

definition erasing_schedule :: "nat \<Rightarrow> nat list" where
  "erasing_schedule n = charging_prefix n @ [1]"

lemma charging_prefix_Suc: "charging_prefix (Suc j) = charging_prefix j @ [j + 2, j + 2]"
  by (simp add: charging_prefix_def)

lemma charges_in_between:
  assumes "j \<le> n" and "0 < N"
  shows "fold (move_at (charge_exec True new charge)) (charging_prefix j)
      (share_map (new_map N), replicate (n + 2) (Begin cg a)) =
    ((\<lparr>max_entries = N, elems = [(cg, 0)]\<rparr>, [(charge a ^^ j) (new a)]),
     Charged cg 0 a # Create cg a # replicate j (Charged cg 0 a) @ replicate (n - j) (Begin cg a))"
  using assms(1)
proof (induction j)
  case 0
  show ?case
    using assms(2)
    by (simp add: charging_prefix_def move_at_def share_map_def new_map_def map_lookup_def map_put_def map_update_elem_def map_room_def)
next
  case (Suc j)
  have "replicate (n - j) (Begin cg a) = Begin cg a # replicate (n - Suc j) (Begin cg a)"
    using Suc.prems by (simp add: Suc_diff_le flip: replicate_Suc)
  then show ?case
    unfolding charging_prefix_Suc fold_append o_apply Suc.IH [OF Suc_leD [OF Suc.prems]]
    using Suc.prems
    by (simp add: move_at_def map_lookup_def nth_append list_update_append replicate_append_same
        replicate_app_Cons_same)
qed

lemma erasing_run:
  assumes "0 < N"
  shows "run_charges True new charge (erasing_schedule n) (new_map N) (replicate (n + 2) (Begin cg a)) =
    ((\<lparr>max_entries = N, elems = [(cg, 1)]\<rparr>, [(charge a ^^ n) (new a), new a]),
     Charged cg 0 a # Charged cg 1 a # replicate n (Charged cg 0 a))"
  unfolding run_charges_def erasing_schedule_def fold_append o_apply
    charges_in_between [OF le_refl assms]
  by (simp add: move_at_def map_lookup_def map_put_def map_update_elem_def)

lemma charged_same: "charged (\<lambda>_. 1) cg (replicate n (Charged cg p a)) = of_nat n"
  by (simp add: charged_def sum_list_replicate)

text \<open>All invocations have finished and charged, but only the last one is in the entry.\<close>

definition erases :: "('a \<Rightarrow> 'v) \<Rightarrow> ('a \<Rightarrow> 'v \<Rightarrow> 'v) \<Rightarrow> ('v \<Rightarrow> u64) \<Rightarrow> bool" where
  "erases new charge counter \<longleftrightarrow> (\<forall>n cg a.
     let st = run_charges True new charge (erasing_schedule n) (new_map 10000) (replicate (n + 2) (Begin cg a))
     in charged (\<lambda>_. 1) cg (snd st) = of_nat (n + 2) \<and> map_option counter (shared_value (fst st) cg) = Some 1)"

lemma erases_first:
  fixes new :: "'a \<Rightarrow> 'v"
  assumes "\<And>a. counter (new a) = 1"
  shows "erases new charge counter"
  unfolding erases_def
proof (intro allI)
  fix n cg and a :: 'a
  have "charged (\<lambda>_. 1) cg (Charged cg 0 a # Charged cg 1 a # replicate n (Charged cg 0 a)) = of_nat (n + 2)"
    using charged_same [of cg n 0 a] by (simp add: charged_def)
  then show "let st = run_charges True new charge (erasing_schedule n) (new_map 10000) (replicate (n + 2) (Begin cg a))
      in charged (\<lambda>_. 1) cg (snd st) = of_nat (n + 2) \<and> map_option counter (shared_value (fst st) cg) = Some 1"
    unfolding erasing_run [OF zero_less_numeral] Let_def by (simp add: shared_value_def map_lookup_def assms)
qed

text \<open>Whatever the schedule, a counter is the old value and what has been charged.\<close>

definition exact_once_present ::
  "bool \<Rightarrow> ('a \<Rightarrow> 'v) \<Rightarrow> ('a \<Rightarrow> 'v \<Rightarrow> 'v) \<Rightarrow> ('a \<Rightarrow> u64) \<Rightarrow> ('v \<Rightarrow> u64) \<Rightarrow> bool" where
  "exact_once_present prefilled new charge amount counter \<longleftrightarrow> (\<forall>m cg v sched pcs.
     map_wf m \<longrightarrow> map_lookup m cg = Some v \<longrightarrow> list_all begins pcs \<longrightarrow>
     (let st = run_charges prefilled new charge sched m pcs
      in \<exists>w. shared_value (fst st) cg = Some w \<and> counter w = counter v + charged amount cg (snd st)))"

context charging
begin

lemma exact: "exact_once_present prefilled new charge amount counter"
  unfolding exact_once_present_def Let_def
proof (intro allI impI)
  fix m :: "(u64, 'v) bpf_map" and cg v sched and pcs :: "'a charge_pc list"
  assume "map_wf m" "map_lookup m cg = Some v" "list_all begins pcs"
  then obtain w where "shared_value (fst (run_charges prefilled new charge sched m pcs)) cg = Some w"
      "counter w = counter v + charged amount cg (snd (run_charges prefilled new charge sched m pcs))"
    by (rule warm_run) (auto simp: prod_eq_iff)
  then show "\<exists>w. shared_value (fst (run_charges prefilled new charge sched m pcs)) cg = Some w \<and>
      counter w = counter v + charged amount cg (snd (run_charges prefilled new charge sched m pcs))" by blast
qed

end

section \<open>Properties\<close>

text \<open>
  Property C27. Once a group has an entry, no charge is lost: for the queries and their time, the opens, the
  system calls, the allocated bytes, the requests and the run time, under every interleaving of any
  invocations of the program on any number of CPUs, the counter of the entry is its old value plus what
  the finished invocations of the group have charged (modulo \<open>2 ^ 64\<close>).
\<close>

theorem warm_counters_exact:
  "exact_once_present True (\<lambda>(dur, now). db_metrics_new dur now) (\<lambda>(dur, now). charge_query dur now) (\<lambda>_. 1) query_count \<and>
   exact_once_present True (\<lambda>(dur, now). db_metrics_new dur now) (\<lambda>(dur, now). charge_query dur now) fst query_time_total \<and>
   exact_once_present True (\<lambda>(lat, now). open_metrics_new lat now) (\<lambda>(lat, now). charge_open lat now) (\<lambda>_. 1) open_ops \<and>
   exact_once_present True metrics_new charge_syscall (\<lambda>_. 1) total_syscalls \<and>
   exact_once_present False (\<lambda>_. memory_metrics_zero) (\<lambda>(sz, now). charge_alloc sz now) fst bytes_allocated \<and>
   exact_once_present False (\<lambda>_. http_metrics_start) (\<lambda>(code, l, now). charge_request code l now) (\<lambda>_. 1) request_count \<and>
   exact_once_present False (\<lambda>_. cpu_metrics_zero) (\<lambda>(st, r, now). charge_switch st r now) (fst \<circ> snd) user_time_ns"
  by (intro conjI queries.exact query_time.exact opens.exact system_calls.exact allocations.exact
      http_requests.exact run_time.exact)

text \<open>
  Property C28. Before that, any number of charges can be lost at once: for every \<open>n\<close> there is a schedule of
  \<open>n + 2\<close> queries, opens or system calls of a new group, all of which finish and charge, after which the
  entry shows a single one. The creation uses \<open>BPF_ANY\<close>, so the second invocation that found no entry
  replaces the one that the others have charged.
\<close>

theorem first_charges_erased:
  "erases (\<lambda>(dur, now). db_metrics_new dur now) (\<lambda>(dur, now). charge_query dur now) query_count \<and>
   erases (\<lambda>(lat, now). open_metrics_new lat now) (\<lambda>(lat, now). charge_open lat now) open_ops \<and>
   erases metrics_new charge_syscall total_syscalls"
  by (intro conjI erases_first) (auto simp: open_metrics_new_def metrics_new_def)

end
