(* ===== verification/Fs_Refinement.thy ===== *)
theory Fs_Refinement
  imports Fs_Tracker
begin

text \<open>
  What fs_tracker promises about opens, as an abstract machine without tables: a thread that enters
  openat waits, and when it leaves, its cgroup has one more open and the time in between. The
  theorem says that the program refines this machine, as long as the descriptors under which reads
  and writes are stored are no ids of threads that open files, and nothing overflows its table.
\<close>

section \<open>The specification\<close>

record open_spec =
  waiting :: "u64 \<Rightarrow> (u64 \<times> u64) option"
  opened :: "u64 \<Rightarrow> u64"
  spent :: "u64 \<Rightarrow> u64"

definition spec_init :: open_spec where
  "spec_init = \<lparr>waiting = (\<lambda>_. None), opened = (\<lambda>_. 0), spent = (\<lambda>_. 0)\<rparr>"

fun spec_step :: "fs_hook \<Rightarrow> open_spec \<Rightarrow> open_spec" where
  "spec_step (Openat_Enter E ctx) a =
     a\<lparr>waiting := (waiting a)(pid_tgid E \<mapsto> (ktime E 0, get_cgroup_id E))\<rparr>"
| "spec_step (Openat_Exit E ctx) a =
     (case waiting a (pid_tgid E) of
        None \<Rightarrow> a
      | Some (start, cg) \<Rightarrow>
          a\<lparr>waiting := (waiting a)(pid_tgid E := None), opened := (opened a)(cg := opened a cg + 1),
            spent := (spent a)(cg := spent a cg + (ktime E 0 - start) div 1000)\<rparr>)"
| "spec_step _ a = a"

text \<open>The state of the program seen as a state of the machine; the threads \<open>T\<close> open files.\<close>

definition abs_opens :: "u64 set \<Rightarrow> fs_state \<Rightarrow> open_spec" where
  "abs_opens T s = \<lparr>waiting = (\<lambda>k. if k \<in> T
       then map_option (\<lambda>op. (op_start_time op, op_cgroup_id op)) (map_lookup (io_operations_map s) k)
       else None),
     opened = fs_total open_ops s, spent = fs_total open_latency_total s\<rparr>"

section \<open>Runs within bounds\<close>

text \<open>
  Threads \<open>T\<close> open files, the keys \<open>R\<close> belong to reads and writes, the cgroups are in \<open>K\<close>, and opens
  succeed.
\<close>

fun orderly :: "u64 set \<Rightarrow> u64 set \<Rightarrow> u64 set \<Rightarrow> fs_hook \<Rightarrow> bool" where
  "orderly T R K (Openat_Enter E ctx) \<longleftrightarrow> pid_tgid E \<in> T \<and> get_cgroup_id E \<in> K"
| "orderly T R K (Openat_Exit E ctx) \<longleftrightarrow> pid_tgid E \<in> T \<and> 0 \<le>s (ucast (sx_ret ctx) :: s32)"
| "orderly T R K (Read_Enter E ctx) \<longleftrightarrow>
     op_key (pid_of (pid_tgid E)) (ucast (se_args ctx 0)) \<in> R \<and> get_cgroup_id E \<in> K"
| "orderly T R K (Write_Enter E ctx) \<longleftrightarrow>
     op_key (pid_of (pid_tgid E)) (ucast (se_args ctx 0)) \<in> R \<and> get_cgroup_id E \<in> K"
| "orderly T R K _ \<longleftrightarrow> True"

definition bounded :: "u64 set \<Rightarrow> u64 set \<Rightarrow> u64 set \<Rightarrow> bool" where
  "bounded T R K \<longleftrightarrow> finite T \<and> finite R \<and> finite K \<and> T \<inter> R = {} \<and> - 1 \<notin> T \<and>
     card (T \<union> R) \<le> 10000 \<and> card K \<le> 10000"

definition opens_inv :: "u64 set \<Rightarrow> u64 set \<Rightarrow> u64 set \<Rightarrow> fs_state \<Rightarrow> bool" where
  "opens_inv T R K s \<longleftrightarrow> bounded T R K \<and> fs_inv s \<and> fits (T \<union> R) (io_operations_map s) \<and>
     fits K (fs_metrics_map s) \<and>
     all_entries (\<lambda>op. op_cgroup_id op \<in> K) (io_operations_map s) \<and>
     (\<forall>k \<in> T. case map_lookup (io_operations_map s) k of None \<Rightarrow> True | Some op \<Rightarrow> op_op_type op = 2)"

lemma opens_inv_init: "bounded T R K \<Longrightarrow> opens_inv T R K fs_init"
  by (simp add: opens_inv_def bounded_def fs_inv_init) (simp add: fs_init_def fits_new)

lemma abs_init: "abs_opens T fs_init = spec_init"
  by (auto simp: abs_opens_def spec_init_def fs_total_def)

lemma opens_invD:
  assumes "opens_inv T R K s"
  shows "T \<inter> R = {}" "- 1 \<notin> T" "fs_inv s" "fits (T \<union> R) (io_operations_map s)" "fits K (fs_metrics_map s)"
    and "all_entries (\<lambda>op. op_cgroup_id op \<in> K) (io_operations_map s)"
  using assms unfolding opens_inv_def bounded_def by simp_all

lemma opens_inv_type:
  "opens_inv T R K s \<Longrightarrow> k \<in> T \<Longrightarrow> map_lookup (io_operations_map s) k = Some op \<Longrightarrow> op_op_type op = 2"
  unfolding opens_inv_def by force

lemma opens_inv_cgroup:
  "opens_inv T R K s \<Longrightarrow> map_lookup (io_operations_map s) k = Some op \<Longrightarrow> op_cgroup_id op \<in> K"
proof -
  assume "opens_inv T R K s" and op: "map_lookup (io_operations_map s) k = Some op"
  then have "all_entries (\<lambda>op. op_cgroup_id op \<in> K) (io_operations_map s)" by (simp only: opens_invD(6))
  from all_entries_lookup [OF this op] show ?thesis .
qed

text \<open>Exits of read and write do not touch what a thread in \<open>T\<close> has stored.\<close>

lemma exit_deletes_other:
  assumes "opens_inv T R K s" and "k \<in> T" and "map_lookup (io_operations_map s) (pid_tgid E) = Some op"
  shows "op_key (pid_of (pid_tgid E)) (op_fd op) \<noteq> k"
proof -
  have "op_ok (pid_tgid E) op" using opens_invD(3) [OF assms(1)] assms(3) by (simp add: fs_inv_def)
  note key = op_ok_deleted [OF this]
  show ?thesis
  proof (cases "pid_tgid E = k")
    case True
    then have "op_op_type op = 2" using opens_inv_type [OF assms(1,2)] assms(3) by simp
    with key show ?thesis using opens_invD(2) [OF assms(1)] assms(2) by auto
  next
    case False
    with key show ?thesis using opens_invD(2) [OF assms(1)] assms(2) by (auto split: if_splits)
  qed
qed

lemma exit_leaves_opens:
  assumes "opens_inv T R K s" and "k \<in> T"
  shows "map_lookup (io_operations_map (trace_read_exit E ctx s)) k = map_lookup (io_operations_map s) k"
    and "map_lookup (io_operations_map (trace_write_exit E ctx s)) k = map_lookup (io_operations_map s) k"
  using exit_deletes_other [OF assms, of E]
  by (cases "map_lookup (io_operations_map s) (pid_tgid E)"; simp add: ops_exit map_simps)+

lemma metrics_exit:
  assumes "opens_inv T R K s"
  shows "fits K (fs_metrics_map (trace_read_exit E ctx s))"
    and "fits K (fs_metrics_map (trace_write_exit E ctx s))"
  using opens_invD(5) [OF assms] opens_inv_cgroup [OF assms, of "pid_tgid E"]
  by (auto simp: trace_read_exit_def trace_write_exit_def Let_def fits_ops split: option.split)

lemma operations_exit:
  assumes "opens_inv T R K s"
  shows "fits (T \<union> R) (io_operations_map (trace_read_exit E ctx s))"
    and "fits (T \<union> R) (io_operations_map (trace_write_exit E ctx s))"
    and "all_entries (\<lambda>op. op_cgroup_id op \<in> K) (io_operations_map (trace_read_exit E ctx s))"
    and "all_entries (\<lambda>op. op_cgroup_id op \<in> K) (io_operations_map (trace_write_exit E ctx s))"
  using opens_invD(4,6) [OF assms]
  by (auto simp: ops_exit fits_delete all_entries_delete split: option.split)

text \<open>A successful exit of openat.\<close>

lemma openat_exit_none:
  "map_lookup (io_operations_map s) (pid_tgid E) = None \<Longrightarrow> fs_step (Openat_Exit E ctx) s = s"
  by (simp add: trace_openat_exit_def)

lemma openat_exit_some:
  assumes "map_lookup (io_operations_map s) (pid_tgid E) = Some op"
    and "0 \<le>s (ucast (sx_ret ctx) :: s32)" and "cg = op_cgroup_id op"
    and "lat = (ktime E 0 - op_start_time op) div 1000"
  shows "io_operations_map (fs_step (Openat_Exit E ctx) s) = map_delete (io_operations_map s) (pid_tgid E)"
    and "fs_metrics_map (fs_step (Openat_Exit E ctx) s) =
      (case map_lookup (fs_metrics_map s) cg of
         None \<Rightarrow> map_put (fs_metrics_map s) cg (open_metrics_new lat (ktime E 0))
       | Some _ \<Rightarrow> map_modify (fs_metrics_map s) cg (charge_open lat (ktime E 0)))"
  using assms by (simp_all add: trace_openat_exit_def Let_def split: option.split)

lemma enter_metrics:
  "fs_metrics_map (trace_openat_enter E ctx s) = fs_metrics_map s"
  "fs_metrics_map (trace_read_enter E ctx s) = fs_metrics_map s"
  "fs_metrics_map (trace_write_enter E ctx s) = fs_metrics_map s"
  by (simp_all add: trace_openat_enter_def trace_read_enter_def trace_write_enter_def Let_def)

lemma opens_inv_step:
  assumes ok: "orderly T R K e" and inv: "opens_inv T R K s"
  shows "opens_inv T R K (fs_step e s)"
proof -
  note D = opens_invD [OF inv]
  have fs: "fs_inv (fs_step e s)" using D(3) by (rule fs_inv_step)
  have bd: "bounded T R K" using inv by (simp add: opens_inv_def)
  show ?thesis
  proof (cases e)
    case (Openat_Exit E ctx)
    show ?thesis
    proof (cases "map_lookup (io_operations_map s) (pid_tgid E)")
      case None
      with inv Openat_Exit show ?thesis by (simp only: openat_exit_none)
    next
      case (Some op)
      have "0 \<le>s (ucast (sx_ret ctx) :: s32)" using ok Openat_Exit by simp
      note facts = openat_exit_some [OF Some this refl refl]
      have cg: "op_cgroup_id op \<in> K" using opens_inv_cgroup [OF inv Some] .
      then have "fits K (fs_metrics_map (fs_step (Openat_Exit E ctx) s))"
        unfolding facts(2) by (intro fits_charge D(5))
      with fs bd D(4,6) inv show ?thesis
        unfolding Openat_Exit opens_inv_def facts(1)
        by (auto simp: fits_delete all_entries_delete map_simps simp del: fs_step.simps)
    qed
  next
    case (Read_Exit E ctx)
    with fs bd inv show ?thesis
      using metrics_exit(1) [OF inv] operations_exit(1,3) [OF inv]
      by (simp add: opens_inv_def exit_leaves_opens(1) [OF inv])
  next
    case (Write_Exit E ctx)
    with fs bd inv show ?thesis
      using metrics_exit(2) [OF inv] operations_exit(2,4) [OF inv]
      by (simp add: opens_inv_def exit_leaves_opens(2) [OF inv])
  next
    case (Openat_Enter E ctx)
    with fs bd D(4-6) ok inv show ?thesis
      by (auto simp: opens_inv_def fits_put all_entries_put enter_metrics map_simps)
  next
    case (Read_Enter E ctx)
    with fs bd D(1,4-6) ok inv show ?thesis
      by (auto simp: opens_inv_def fits_put all_entries_put enter_metrics map_simps)
  next
    case (Write_Enter E ctx)
    with fs bd D(1,4-6) ok inv show ?thesis
      by (auto simp: opens_inv_def fits_put all_entries_put enter_metrics map_simps)
  qed
qed

interpretation opens_machine: event_machine fs_step "orderly T R K" "opens_inv T R K" for T R K
  by unfold_locales (rule opens_inv_step)

section \<open>Simulation\<close>

lemma abs_same:
  "(\<And>k. k \<in> T \<Longrightarrow> map_lookup (io_operations_map t) k = map_lookup (io_operations_map s) k) \<Longrightarrow>
   (\<And>cg. fs_total open_ops t cg = fs_total open_ops s cg) \<Longrightarrow>
   (\<And>cg. fs_total open_latency_total t cg = fs_total open_latency_total s cg) \<Longrightarrow>
   abs_opens T t = abs_opens T s"
  by (auto simp: abs_opens_def fun_eq_iff)

lemma open_counters_kept [simp]:
  "open_ops (charge_read n l now c) = open_ops c" "open_ops (read_metrics_new n l now) = 0"
  "open_ops (charge_write n l now c) = open_ops c" "open_ops (write_metrics_new n l now) = 0"
  "open_latency_total (charge_read n l now c) = open_latency_total c"
  "open_latency_total (read_metrics_new n l now) = 0"
  "open_latency_total (charge_write n l now c) = open_latency_total c"
  "open_latency_total (write_metrics_new n l now) = 0"
  by (simp_all add: charge_read_def read_metrics_new_def charge_write_def write_metrics_new_def
      fs_metrics_zero_def Let_def)

lemma totals_exit:
  "f = open_ops \<or> f = open_latency_total \<Longrightarrow> fs_total f (trace_read_exit E ctx s) cg = fs_total f s cg"
  "f = open_ops \<or> f = open_latency_total \<Longrightarrow> fs_total f (trace_write_exit E ctx s) cg = fs_total f s cg"
  by (auto simp: trace_read_exit_def trace_write_exit_def Let_def fs_total_def map_simps split: option.split)

lemma totals_enter: "fs_metrics_map t = fs_metrics_map s \<Longrightarrow> fs_total f t cg = fs_total f s cg"
  by (simp add: fs_total_def)

lemma fs_total_map: "fs_total f s cg = map_total f (fs_metrics_map s) cg"
  by (simp add: fs_total_def map_total_def)

lemma abs_openat_exit:
  assumes inv: "opens_inv T R K s" and T: "pid_tgid E \<in> T" and ret: "0 \<le>s (ucast (sx_ret ctx) :: s32)"
  shows "abs_opens T (fs_step (Openat_Exit E ctx) s) = spec_step (Openat_Exit E ctx) (abs_opens T s)"
proof (cases "map_lookup (io_operations_map s) (pid_tgid E)")
  case None
  then show ?thesis by (simp only: openat_exit_none) (simp add: abs_opens_def)
next
  case (Some op)
  let ?cg = "op_cgroup_id op" and ?lat = "(ktime E 0 - op_start_time op) div 1000"
  let ?t = "fs_step (Openat_Exit E ctx) s"
  note facts = openat_exit_some [OF Some ret refl refl]
  have room: "map_lookup (fs_metrics_map s) ?cg \<noteq> None \<or> map_room (fs_metrics_map s)"
    using opens_inv_cgroup [OF inv Some] opens_invD(5) [OF inv] by (intro fits_room)
  have totals: "fs_total open_ops ?t = (fs_total open_ops s)(?cg := fs_total open_ops s ?cg + 1)"
    "fs_total open_latency_total ?t =
       (fs_total open_latency_total s)(?cg := fs_total open_latency_total s ?cg + ?lat)"
    unfolding fun_eq_iff fs_total_map facts(2)
    by (subst charge_total [OF room]; simp)+
  show ?thesis
    using Some T by (auto simp: abs_opens_def totals facts(1) map_simps fun_eq_iff simp del: fs_step.simps)
qed

lemma abs_step:
  assumes ok: "orderly T R K e" and inv: "opens_inv T R K s"
  shows "abs_opens T (fs_step e s) = spec_step e (abs_opens T s)"
proof (cases e)
  case (Openat_Exit E ctx)
  with ok abs_openat_exit [OF inv] show ?thesis by (simp del: fs_step.simps spec_step.simps)
next
  case (Openat_Enter E ctx)
  have T: "pid_tgid E \<in> T" using ok Openat_Enter by simp
  then have "map_lookup (io_operations_map s) (pid_tgid E) \<noteq> None \<or> map_room (io_operations_map s)"
    using fits_room [OF opens_invD(4) [OF inv]] by blast
  then have "map_lookup (io_operations_map (trace_openat_enter E ctx s)) k =
      (if k = pid_tgid E then Some (open_of E) else map_lookup (io_operations_map s) k)" for k
    by (simp only: ops_enter(1) lookup_map_put open_of_def) simp
  with T show ?thesis
    unfolding Openat_Enter fs_step.simps spec_step.simps
    by (simp add: abs_opens_def fun_eq_iff totals_enter [OF enter_metrics(1)] open_of_def)
next
  case (Read_Enter E ctx)
  then have "op_key (pid_of (pid_tgid E)) (ucast (se_args ctx 0)) \<notin> T"
    using ok opens_invD(1) [OF inv] by auto
  with Read_Enter show ?thesis
    by (simp, intro abs_same) (auto simp: map_simps totals_enter [OF enter_metrics(2)])
next
  case (Write_Enter E ctx)
  then have "op_key (pid_of (pid_tgid E)) (ucast (se_args ctx 0)) \<notin> T"
    using ok opens_invD(1) [OF inv] by auto
  with Write_Enter show ?thesis
    by (simp, intro abs_same) (auto simp: map_simps totals_enter [OF enter_metrics(3)])
next
  case (Read_Exit E ctx)
  then show ?thesis
    by (simp, intro abs_same) (simp_all add: exit_leaves_opens [OF inv] totals_exit)
next
  case (Write_Exit E ctx)
  then show ?thesis
    by (simp, intro abs_same) (simp_all add: exit_leaves_opens [OF inv] totals_exit)
qed

lemma abs_run:
  "list_all (orderly T R K) es \<Longrightarrow> opens_inv T R K s \<Longrightarrow>
     abs_opens T (fold fs_step es s) = fold spec_step es (abs_opens T s)"
proof (induction es arbitrary: s)
  case (Cons e es)
  then have e: "orderly T R K e" and es: "list_all (orderly T R K) es" by simp_all
  from Cons.IH [OF es opens_inv_step [OF e Cons.prems(2)]] abs_step [OF e Cons.prems(2)] show ?case
    by (simp del: fs_step.simps spec_step.simps)
qed simp

section \<open>Properties\<close>

text \<open>
  Property C24. fs_tracker refines the abstract machine on every orderly run: with at most 10000 keys
  and cgroups, and descriptors of reads and writes that name no thread that opens files, the number
  and the duration of the opens of every cgroup are those of the machine that keeps no tables,
  and so are the threads that still wait.
\<close>

theorem opens_refine_spec:
  assumes "bounded T R K" and "list_all (orderly T R K) es"
  shows "abs_opens T (fold fs_step es fs_init) = fold spec_step es spec_init"
  using abs_run [OF assms(2) opens_inv_init [OF assms(1)]] by (simp add: abs_init)

theorem opens_refine_spec_witness:
  "abs_opens {thread_id 7} (fold fs_step [Openat_Enter (thread_at 7 2000) (fs_enter 0 0),
     Read_Enter (thread_at 8 3000) (fs_enter 4 100), Openat_Exit (thread_at 7 9000) (fs_exit 5)] fs_init) =
   \<lparr>waiting = (\<lambda>_. None), opened = (\<lambda>_. 0)(0 := 1), spent = (\<lambda>_. 0)(0 := 7)\<rparr>"
  by (subst opens_refine_spec [of _ "{thread_id 4}" "{0}"])
    (simp_all add: bounded_def word_sle_eq spec_init_def fun_eq_iff thread_id_simps(3) [symmetric])

end
