(* ===== verification/Watcher.thy ===== *)
theory Watcher
  imports Cpu_Tracker Memory_Tracker Http_Metrics Fs_Tracker App_Specific Security_Monitor
begin

text \<open>
  The six eBPF programs as \<^verbatim>\<open>src/watcher/internal/ebpf/ebpf.go\<close> runs them together
  on one kernel. A kernel event fires the hooks of every collector that attached a program to it
  (the \<open>link.Tracepoint\<close>, \<open>link.AttachRawTracepoint\<close> and \<open>link.Kprobe\<close> calls of the collectors):
  a system call is seen by fs_tracker, http_metrics and security_monitor. The map \<open>*_hooks\<close> of a
  component translates kernel events to its hooks. The locale \<open>part\<close> is the contract between the
  whole and a component: each component sees exactly its own hooks, so that its theorems hold for
  it inside the whole. rps and uprobe are not in the list of \<open>ebpf.go\<close> or are never attached.
\<close>

section \<open>Kernel events\<close>

text \<open>
  What the kernel shows to every program at one event, and per collector the readings of the clock
  and the outcome of the reservations, which differ between the programs.
\<close>

record scene =
  task :: "unit kenv"
  fs_clock :: "nat \<Rightarrow> u64"
  fs_slot :: "nat \<Rightarrow> fs_event option"
  http_clock :: "nat \<Rightarrow> u64"
  http_slot :: "nat \<Rightarrow> http_event option"
  sec_clock :: "nat \<Rightarrow> u64"
  sec_slot :: "nat \<Rightarrow> security_event option"
  file_clock :: "nat \<Rightarrow> u64"
  file_slot :: "nat \<Rightarrow> security_event option"
  mem_slot :: "nat \<Rightarrow> memory_event option"
  app_slot :: "nat \<Rightarrow> app_event option"

definition seen_by :: "unit kenv \<Rightarrow> (nat \<Rightarrow> u64) \<Rightarrow> (nat \<Rightarrow> 'ev option) \<Rightarrow> 'ev kenv" where
  "seen_by E clk slot = \<lparr>pid_tgid = pid_tgid E, cgroup = cgroup E, ktime = clk, stackid = stackid E,
     comm = comm E, reserve = slot, cur_task = cur_task E, kmem = kmem E, user_mem = user_mem E,
     user_str = user_str E\<rparr>"

abbreviation fs_env :: "scene \<Rightarrow> fs_event kenv" where
  "fs_env S \<equiv> seen_by (task S) (fs_clock S) (fs_slot S)"

abbreviation http_env :: "scene \<Rightarrow> http_event kenv" where
  "http_env S \<equiv> seen_by (task S) (http_clock S) (http_slot S)"

abbreviation call_env :: "scene \<Rightarrow> security_event kenv" where
  "call_env S \<equiv> seen_by (task S) (sec_clock S) (sec_slot S)"

abbreviation file_env :: "scene \<Rightarrow> security_event kenv" where
  "file_env S \<equiv> seen_by (task S) (file_clock S) (file_slot S)"

text \<open>
  The tracepoints and the kprobe are attached at the start, as are the probes of app_specific on the
  executables of its list. The probes on \<open>malloc\<close>, \<open>free\<close>, \<open>runtime.GC\<close> and \<open>ServeHTTP\<close> fire only where
  \<open>AttachUserSpaceUprobes\<close>, \<open>AttachGoGCUprobes\<close> or \<open>AttachGoHTTPUprobes\<close> has been called for the
  executable, which \<^verbatim>\<open>ebpf.go\<close> itself never does.
  On entry to a system call the raw tracepoint gives the registers and the number, the
  per-call tracepoints the arguments; \<open>raw_first\<close> says which kind of program runs first.
\<close>

datatype app_probe = Db_Entry | Db_Return | Cache_Entry | Cache_Return | Gc_Entry | Gc_Return | Metric

datatype mem_probe = Malloc_Entry | Malloc_Return | Free_Entry | Go_Gc_Entry

datatype kevent =
  Enter scene trace_event_raw_sys_enter u64 bool
| Exit scene trace_event_raw_sys_exit
| Switch scene trace_event_raw_sched_switch
| Wakeup scene trace_event_raw_sched_wakeup_template
| Exec scene trace_event_raw_sched_process_exec
| Kmem_Alloc scene trace_event_raw_kmalloc
| Kmem_Free scene trace_event_raw_kfree
| Connect scene pt_regs
| Reclaim scene
| Oom_Adjust scene
| Serve_Entry scene pt_regs
| Serve_Return scene pt_regs
| Mem_Probe mem_probe scene pt_regs
| App_Probe app_probe scene pt_regs

definition nr_read :: s64 where "nr_read = 0"
definition nr_write :: s64 where "nr_write = 1"
definition nr_openat :: s64 where "nr_openat = 257"

section \<open>Who hears what\<close>

fun fs_hooks :: "kevent \<Rightarrow> fs_hook list" where
  "fs_hooks (Enter S ctx regs rf) =
     (if se_id ctx = nr_openat then [Fs_Tracker.Openat_Enter (fs_env S) ctx]
      else if se_id ctx = nr_read then [Fs_Tracker.Read_Enter (fs_env S) ctx]
      else if se_id ctx = nr_write then [Fs_Tracker.Write_Enter (fs_env S) ctx] else [])"
| "fs_hooks (Exit S ctx) =
     (if sx_id ctx = nr_openat then [Fs_Tracker.Openat_Exit (fs_env S) ctx]
      else if sx_id ctx = nr_read then [Fs_Tracker.Read_Exit (fs_env S) ctx]
      else if sx_id ctx = nr_write then [Fs_Tracker.Write_Exit (fs_env S) ctx] else [])"
| "fs_hooks _ = []"

fun http_hooks :: "kevent \<Rightarrow> http_hook list" where
  "http_hooks (Enter S ctx regs rf) =
     (if se_id ctx = nr_write then [Http_Metrics.Write_Enter (http_env S) ctx] else [])"
| "http_hooks (Exit S ctx) =
     (if sx_id ctx = nr_read then [Http_Metrics.Read_Exit (http_env S) ctx] else [])"
| "http_hooks (Serve_Entry S regs) = [Go_Start (http_env S) regs]"
| "http_hooks (Serve_Return S regs) = [Go_End (http_env S) regs]"
| "http_hooks _ = []"

definition raw_args :: "u64 \<Rightarrow> trace_event_raw_sys_enter \<Rightarrow> bpf_raw_tracepoint_args" where
  "raw_args regs ctx = \<lparr>ra_args = (\<lambda>i. if i = 0 then regs else if i = 1 then se_id ctx else 0)\<rparr>"

fun sec_hooks :: "kevent \<Rightarrow> sec_hook list" where
  "sec_hooks (Enter S ctx regs rf) =
     (let raw = [Security_Monitor.Sys_Enter (call_env S) (raw_args regs ctx)];
          file = (if se_id ctx = nr_openat then [File_Access (file_env S) ctx] else [])
      in if rf then raw @ file else file @ raw)"
| "sec_hooks (Exec S ctx) = [Process_Exec (call_env S) ctx]"
| "sec_hooks (Connect S regs) = [Tcp_Connect (call_env S) regs]"
| "sec_hooks (Reclaim S) = [Memory_Pressure (call_env S)]"
| "sec_hooks (Oom_Adjust S) = [Oom_Event (call_env S)]"
| "sec_hooks _ = []"

fun cpu_hooks :: "kevent \<Rightarrow> cpu_event list" where
  "cpu_hooks (Switch S ctx) = [Sched_Switch (task S) ctx]"
| "cpu_hooks (Wakeup S ctx) = [Sched_Wakeup (task S) ctx]"
| "cpu_hooks _ = []"

definition mem_env :: "scene \<Rightarrow> memory_event kenv" where
  "mem_env S = seen_by (task S) (ktime (task S)) (mem_slot S)"

fun mem_hooks :: "kevent \<Rightarrow> mem_hook list" where
  "mem_hooks (Kmem_Alloc S ctx) = [Kmalloc (mem_env S) ctx]"
| "mem_hooks (Kmem_Free S ctx) = [Kfree (mem_env S) ctx]"
| "mem_hooks (Mem_Probe p S regs) =
     (case p of Malloc_Entry \<Rightarrow> [Malloc (mem_env S) regs] | Malloc_Return \<Rightarrow> [Malloc_Ret (mem_env S) regs]
      | Free_Entry \<Rightarrow> [Free (mem_env S) regs] | Go_Gc_Entry \<Rightarrow> [Go_Gc_Start (mem_env S) regs])"
| "mem_hooks _ = []"

definition app_env_of :: "scene \<Rightarrow> app_event kenv" where
  "app_env_of S = seen_by (task S) (ktime (task S)) (app_slot S)"

fun app_hooks :: "kevent \<Rightarrow> app_hook list" where
  "app_hooks (App_Probe p S regs) =
     (case p of Db_Entry \<Rightarrow> [Db_Start (app_env_of S) regs] | Db_Return \<Rightarrow> [Db_End (app_env_of S) regs]
      | Cache_Entry \<Rightarrow> [Cache_Start (app_env_of S) regs] | Cache_Return \<Rightarrow> [Cache_End (app_env_of S) regs]
      | Gc_Entry \<Rightarrow> [Gc_Start (app_env_of S) regs] | Gc_Return \<Rightarrow> [Gc_End (app_env_of S) regs]
      | Metric \<Rightarrow> [Custom (app_env_of S) regs])"
| "app_hooks _ = []"

section \<open>The whole\<close>

record watcher =
  w_cpu :: cpu_state
  w_mem :: mem_state
  w_http :: http_state
  w_fs :: fs_state
  w_app :: app_state
  w_sec :: sec_state

definition watcher_init :: watcher where
  "watcher_init = \<lparr>w_cpu = cpu_init, w_mem = mem_init, w_http = http_init, w_fs = fs_init,
     w_app = app_init, w_sec = sec_init\<rparr>"

definition watcher_step :: "kevent \<Rightarrow> watcher \<Rightarrow> watcher" where
  "watcher_step e w = \<lparr>w_cpu = fold cpu_step (cpu_hooks e) (w_cpu w),
     w_mem = fold mem_step (mem_hooks e) (w_mem w), w_http = fold http_step (http_hooks e) (w_http w),
     w_fs = fold fs_step (fs_hooks e) (w_fs w), w_app = fold app_step (app_hooks e) (w_app w),
     w_sec = fold sec_step (sec_hooks e) (w_sec w)\<rparr>"

locale part =
  fixes whole :: "'e \<Rightarrow> 'w \<Rightarrow> 'w"
    and here :: "'w \<Rightarrow> 's"
    and step :: "'h \<Rightarrow> 's \<Rightarrow> 's"
    and hooks :: "'e \<Rightarrow> 'h list"
  assumes here_step: "here (whole e w) = fold step (hooks e) (here w)"
begin

text \<open>The component inside a run of the whole is a run of the component.\<close>

lemma here_run: "here (fold whole es w) = fold step (concat (map hooks es)) (here w)"
  by (induction es arbitrary: w) (simp_all add: here_step)

end

text \<open>
  What a component keeps and counts in its own runs, it keeps and counts inside the whole: an
  invariant, and a counter whose amount per kernel event is the sum over the component's hooks.
\<close>

locale part_inv = part whole here step hooks + event_machine step ok inv
  for whole :: "'e \<Rightarrow> 'w \<Rightarrow> 'w" and here :: "'w \<Rightarrow> 's" and step :: "'h \<Rightarrow> 's \<Rightarrow> 's"
    and hooks :: "'e \<Rightarrow> 'h list" and ok :: "'h \<Rightarrow> bool" and inv :: "'s \<Rightarrow> bool"

sublocale part_inv < lift: event_machine whole "\<lambda>e. list_all ok (hooks e)" "\<lambda>w. inv (here w)"
  by unfold_locales (simp add: here_step run_inv)

locale part_count = part whole here step hooks + counting_machine step ok inv amount counter
  for whole :: "'e \<Rightarrow> 'w \<Rightarrow> 'w" and here :: "'w \<Rightarrow> 's" and step :: "'h \<Rightarrow> 's \<Rightarrow> 's"
    and hooks :: "'e \<Rightarrow> 'h list" and ok :: "'h \<Rightarrow> bool" and inv :: "'s \<Rightarrow> bool"
    and amount :: "'h \<Rightarrow> u64" and counter :: "'s \<Rightarrow> u64"

sublocale part_count < lift: counting_machine whole "\<lambda>e. list_all ok (hooks e)" "\<lambda>w. inv (here w)"
  "\<lambda>e. sum_list (map amount (hooks e))" "\<lambda>w. counter (here w)"
  by unfold_locales (simp_all add: here_step run_inv run_counter)

interpretation cpu_part: part watcher_step w_cpu cpu_step cpu_hooks
  by unfold_locales (simp add: watcher_step_def)

interpretation mem_part: part watcher_step w_mem mem_step mem_hooks
  by unfold_locales (simp add: watcher_step_def)

interpretation http_part: part watcher_step w_http http_step http_hooks
  by unfold_locales (simp add: watcher_step_def)

interpretation fs_part: part watcher_step w_fs fs_step fs_hooks
  by unfold_locales (simp add: watcher_step_def)

interpretation app_part: part watcher_step w_app app_step app_hooks
  by unfold_locales (simp add: watcher_step_def)

interpretation sec_part: part watcher_step w_sec sec_step sec_hooks
  by unfold_locales (simp add: watcher_step_def)

lemma seen_by_simps [simp]:
  "pid_tgid (seen_by E clk slot) = pid_tgid E" "cgroup (seen_by E clk slot) = cgroup E"
  "get_cgroup_id (seen_by E clk slot) = get_cgroup_id E" "ktime (seen_by E clk slot) = clk"
  "reserve (seen_by E clk slot) = slot" "user_str (seen_by E clk slot) = user_str E"
  by (simp_all add: seen_by_def get_cgroup_id_def)

lemma numbers [simp]:
  "nr_openat \<noteq> nr_read" "nr_openat \<noteq> nr_write" "nr_read \<noteq> nr_write"
  by (simp_all add: nr_openat_def nr_read_def nr_write_def)

section \<open>What a component keeps inside the whole\<close>

lemma w_init [simp]: "w_fs watcher_init = fs_init" "w_sec watcher_init = sec_init"
    "w_http watcher_init = http_init"
  by (simp_all add: watcher_init_def)

interpretation fs_kept: part_inv watcher_step w_fs fs_step fs_hooks "\<lambda>_. True" fs_inv
  by unfold_locales

interpretation sec_kept: part_inv watcher_step w_sec sec_step sec_hooks "\<lambda>_. True" sec_inv
  by unfold_locales

interpretation sec_counted: part_count watcher_step w_sec sec_step sec_hooks
    "\<lambda>e. get_cgroup_id (sec_env e) \<in> K" "fits_sec K L" "\<lambda>e. if calls L c cg e then 1 else 0"
    "\<lambda>s. map_total (class_counter c) (security_metrics_map s) cg" for K L c cg
  by unfold_locales

lemma run_fs_inv: "fs_inv (w_fs w) \<Longrightarrow> fs_inv (w_fs (fold watcher_step es w))"
  by (rule fs_kept.lift.run_inv) (simp add: list_all_iff)

lemma run_sec_inv: "sec_inv (w_sec w) \<Longrightarrow> sec_inv (w_sec (fold watcher_step es w))"
  by (rule sec_kept.lift.run_inv) (simp add: list_all_iff)

text \<open>The security monitor forgets neither a cgroup nor an event.\<close>

lemma emit_grows: "set (out q) \<subseteq> set (out (emit_security_event E cg pid ty sev v1 v2 d q))"
  by (auto simp: emit_security_event_def split: option.split)

lemma emit_grows': "x \<in> set (out q) \<Longrightarrow> x \<in> set (out (emit_security_event E cg pid ty sev v1 v2 d q))"
  using emit_grows by blast

lemma sec_events_grow: "x \<in> set (security_events s) \<Longrightarrow> x \<in> set (security_events (sec_step e s))"
  by (cases e) (auto simp: sec_handlers after_def Let_def tools_found length_exe_name intro!: emit_grows'
      split: option.split)

lemma sec_known_step:
  "map_lookup (security_metrics_map s) cg \<noteq> None \<Longrightarrow>
     map_lookup (security_metrics_map (sec_step e s)) cg \<noteq> None"
  by (cases e) (auto simp: sec_handlers after_def Let_def tools_found length_exe_name count_call_def
      map_simps split: option.split)

interpretation sec_grows: event_machine sec_step "\<lambda>_. True" "\<lambda>s. x \<in> set (security_events s)" for x
  by unfold_locales (rule sec_events_grow)

interpretation sec_reported: part_inv watcher_step w_sec sec_step sec_hooks "\<lambda>_. True"
    "\<lambda>s. x \<in> set (security_events s)" for x
  by unfold_locales

lemma run_events_grow:
  "x \<in> set (security_events (w_sec w)) \<Longrightarrow> x \<in> set (security_events (w_sec (fold watcher_step es w)))"
  by (rule sec_reported.lift.run_inv) (simp add: list_all_iff)

section \<open>Opens and calls\<close>

text \<open>Operations that wait for the return of a call of the cgroup.\<close>

definition pending :: "u64 \<Rightarrow> fs_state \<Rightarrow> nat" where
  "pending cg s = length (filter (\<lambda>(k, op). op_cgroup_id op = cg) (elems (io_operations_map s)))"

lemma count_update:
  "length (filter P (AList.update k v xs)) \<le> length (filter P xs) + (if P (k, v) then 1 else 0)"
  by (induction xs) auto

lemma count_delete: "length (filter P (AList.delete k xs)) \<le> length (filter P xs)"
  by (induction xs) auto

lemma count_delete_present:
  "map_of xs k = Some v \<Longrightarrow> P (k, v) \<Longrightarrow>
     length (filter P (AList.delete k xs)) + 1 \<le> length (filter P xs)"
proof (induction xs)
  case (Cons x xs)
  then show ?case using count_delete [of P k xs] by (cases x) (auto split: if_splits)
qed simp

lemma elems_ops:
  "elems (map_put m k v) = elems m \<or> elems (map_put m k v) = AList.update k v (elems m)"
  "elems (map_delete m k) = (if map_lookup m k = None then elems m else AList.delete k (elems m))"
  by (auto simp: map_put_def map_update_elem_def map_delete_def map_delete_elem_def split: option.split)

lemma pending_put:
  "io_operations_map t = map_put (io_operations_map s) k op \<Longrightarrow>
     pending cg t \<le> pending cg s + (if op_cgroup_id op = cg then 1 else 0)"
  using elems_ops(1) [of "io_operations_map s" k op]
    count_update [of "\<lambda>(k, op). op_cgroup_id op = cg" k op "elems (io_operations_map s)"]
  by (auto simp: pending_def)

lemma pending_delete:
  "io_operations_map t = map_delete (io_operations_map s) k \<Longrightarrow> pending cg t \<le> pending cg s"
  using count_delete [of "\<lambda>(k, op). op_cgroup_id op = cg" k "elems (io_operations_map s)"]
  by (auto simp: pending_def elems_ops(2))

lemma pending_delete_present:
  "io_operations_map t = map_delete (io_operations_map s) k \<Longrightarrow> map_lookup (io_operations_map s) k = Some op \<Longrightarrow>
     op_cgroup_id op = cg \<Longrightarrow> pending cg t + 1 \<le> pending cg s"
  using count_delete_present [of "elems (io_operations_map s)" k op "\<lambda>(k, op). op_cgroup_id op = cg"]
  by (simp add: pending_def elems_ops(2) map_lookup_def)

fun fs_enters :: "u64 \<Rightarrow> fs_hook \<Rightarrow> bool" where
  "fs_enters cg (Openat_Enter E ctx) \<longleftrightarrow> get_cgroup_id E = cg"
| "fs_enters cg (Fs_Tracker.Read_Enter E ctx) \<longleftrightarrow> get_cgroup_id E = cg"
| "fs_enters cg (Fs_Tracker.Write_Enter E ctx) \<longleftrightarrow> get_cgroup_id E = cg"
| "fs_enters cg _ \<longleftrightarrow> False"

definition has_entry :: "u64 \<Rightarrow> fs_state \<Rightarrow> nat" where
  "has_entry cg s = (if map_lookup (fs_metrics_map s) cg = None then 0 else 1)"

text \<open>Every charged open used up a pending operation, except one that ended in the null pointer.\<close>

definition opens_within :: "u64 \<Rightarrow> nat \<Rightarrow> fs_state \<Rightarrow> bool" where
  "opens_within cg n s \<longleftrightarrow> unat (fs_total open_ops s cg) + pending cg s \<le> n + has_entry cg s"

lemma unat_inc: "unat (x + 1 :: u64) \<le> unat x + 1"
  using unat_plus_if' [of x 1] by (auto split: if_splits)

lemma opens_enter:
  "fs_metrics_map (trace_openat_enter E ctx s) = fs_metrics_map s"
  "fs_metrics_map (trace_read_enter E ctx s) = fs_metrics_map s"
  "fs_metrics_map (trace_write_enter E ctx s) = fs_metrics_map s"
  by (simp_all add: trace_openat_enter_def trace_read_enter_def trace_write_enter_def Let_def)

lemma open_ops_kept [simp]:
  "open_ops (charge_read n l now c) = open_ops c" "open_ops (read_metrics_new n l now) = 0"
  "open_ops (charge_write n l now c) = open_ops c" "open_ops (write_metrics_new n l now) = 0"
  by (simp_all add: charge_read_def read_metrics_new_def charge_write_def write_metrics_new_def
      fs_metrics_zero_def Let_def)

lemma opens_read_write_exit:
  "fs_total open_ops (trace_read_exit E ctx s) cg = fs_total open_ops s cg"
  "fs_total open_ops (trace_write_exit E ctx s) cg = fs_total open_ops s cg"
  by (auto simp: trace_read_exit_def trace_write_exit_def Let_def fs_total_def map_simps split: option.split)

lemma has_entry_read_write_exit:
  "has_entry cg s \<le> has_entry cg (trace_read_exit E ctx s)"
  "has_entry cg s \<le> has_entry cg (trace_write_exit E ctx s)"
  by (auto simp: trace_read_exit_def trace_write_exit_def Let_def has_entry_def map_simps split: option.split)

lemma pending_read_write_exit:
  "pending cg (trace_read_exit E ctx s) \<le> pending cg s"
  "pending cg (trace_write_exit E ctx s) \<le> pending cg s"
  by (cases "map_lookup (io_operations_map s) (pid_tgid E)";
      simp add: pending_def elems_ops(2) ops_exit count_delete)+

lemma openat_exit_facts:
  assumes "map_lookup (io_operations_map s) (pid_tgid E) = Some op"
    and "t = fs_step (Openat_Exit E ctx) s"
    and "hit = (op_cgroup_id op = cg \<and> (map_lookup (fs_metrics_map s) cg \<noteq> None \<or> map_room (fs_metrics_map s)))"
  shows "fs_total open_ops t cg = fs_total open_ops s cg + (if hit then 1 else 0)"
    and "has_entry cg t = (if hit then 1 else has_entry cg s)"
    and "io_operations_map t = map_delete (io_operations_map s) (pid_tgid E) \<or>
      map_lookup (fs_metrics_map s) (op_cgroup_id op) = None \<and> io_operations_map t = io_operations_map s"
  using assms
  by (auto simp: trace_openat_exit_def Let_def fs_total_def has_entry_def map_simps split: option.splits)

lemma opens_openat_exit:
  assumes "opens_within cg n s"
  shows "opens_within cg n (fs_step (Openat_Exit E ctx) s)"
proof (cases "map_lookup (io_operations_map s) (pid_tgid E)")
  case None
  with assms show ?thesis by (simp add: trace_openat_exit_def)
next
  case (Some op)
  let ?t = "fs_step (Openat_Exit E ctx) s"
  note facts = openat_exit_facts [of s E op _ ctx _ cg, OF Some refl refl]
  have none: "fs_total open_ops s cg = 0 \<and> has_entry cg s = 0" if "map_lookup (fs_metrics_map s) cg = None"
    using that by (simp add: fs_total_def has_entry_def)
  show ?thesis
  proof (cases "op_cgroup_id op = cg")
    case True
    have "pending cg ?t + 1 \<le> pending cg s \<or>
        map_lookup (fs_metrics_map s) cg = None \<and> pending cg ?t = pending cg s"
      using facts(3) pending_delete_present [OF _ Some True, of ?t] True by (auto simp: pending_def)
    then show ?thesis
      using assms none facts(1,2) True unat_inc [of "fs_total open_ops s cg"]
      by (auto simp: opens_within_def has_entry_def simp del: fs_step.simps split: if_splits)
  next
    case False
    have "pending cg ?t \<le> pending cg s"
      using facts(3) pending_delete [of ?t s] by (auto simp: pending_def)
    with False facts(1,2) assms show ?thesis
      by (simp add: opens_within_def del: fs_step.simps)
  qed
qed

lemma opens_step:
  assumes "opens_within cg n s"
  shows "opens_within cg (n + (if fs_enters cg e then 1 else 0)) (fs_step e s)"
proof (cases e)
  case (Openat_Exit E ctx)
  with opens_openat_exit [OF assms] show ?thesis by (simp del: fs_step.simps)
next
  case (Openat_Enter E ctx)
  with assms pending_put [of "fs_step e s" s "pid_tgid E" _ cg] show ?thesis
    by (fastforce simp: opens_within_def fs_total_def has_entry_def opens_enter)
next
  case (Read_Enter E ctx)
  with assms pending_put [OF ops_enter(2) [of E ctx s], of cg] show ?thesis
    by (auto simp: opens_within_def fs_total_def has_entry_def opens_enter)
next
  case (Write_Enter E ctx)
  with assms pending_put [OF ops_enter(3) [of E ctx s], of cg] show ?thesis
    by (auto simp: opens_within_def fs_total_def has_entry_def opens_enter)
next
  case (Read_Exit E ctx)
  with assms has_entry_read_write_exit(1) [of cg s E ctx] pending_read_write_exit(1) [of cg E ctx s]
  show ?thesis by (simp add: opens_within_def opens_read_write_exit)
next
  case (Write_Exit E ctx)
  with assms has_entry_read_write_exit(2) [of cg s E ctx] pending_read_write_exit(2) [of cg E ctx s]
  show ?thesis by (simp add: opens_within_def opens_read_write_exit)
qed

lemma opens_run:
  "opens_within cg n s \<Longrightarrow>
     opens_within cg (n + length (filter (fs_enters cg) es)) (fold fs_step es s)"
proof (induction es arbitrary: s n)
  case (Cons e es)
  from Cons.IH [OF opens_step [OF Cons.prems, of e]] show ?case by (simp split: if_splits)
qed simp

text \<open>Every such entry is a call that the security monitor counts.\<close>

lemma enters_are_calls:
  "length (filter (fs_enters cg) (concat (map fs_hooks es)))
     \<le> length (filter (calls L Any_Call cg) (concat (map sec_hooks es)))"
proof (induction es)
  case (Cons e es)
  have "length (filter (fs_enters cg) (fs_hooks e)) \<le> length (filter (calls L Any_Call cg) (sec_hooks e))"
    by (cases e) (simp_all add: Let_def)
  with Cons show ?case by simp
qed simp

text \<open>The system calls that the security monitor counts inside the whole.\<close>

lemma calls_in_whole:
  assumes "finite K" and "card K \<le> 10000"
    and "list_all (\<lambda>e. list_all (\<lambda>h. get_cgroup_id (sec_env h) \<in> K) (sec_hooks e)) es"
  shows "map_total (class_counter c) (security_metrics_map (w_sec (fold watcher_step es watcher_init))) cg =
    of_nat (length (filter (calls (syscall_allowlist sec_init) c cg) (concat (map sec_hooks es))))"
proof -
  have "map_total (class_counter c) (security_metrics_map (w_sec (fold watcher_step es watcher_init))) cg =
      sum_list (map (\<lambda>e. of_nat (length (filter (calls (syscall_allowlist sec_init) c cg) (sec_hooks e)))) es)"
    using sec_counted.lift.run_counter [OF assms(3), of "syscall_allowlist sec_init" watcher_init]
      fits_sec_init [OF assms(1,2)]
    by (simp add: sum_list_indicator map_total_def room_init)
  also have "\<dots> = of_nat (length (filter (calls (syscall_allowlist sec_init) c cg) (concat (map sec_hooks es))))"
    by (induction es) simp_all
  finally show ?thesis .
qed

lemma calls_at_most_events:
  "length (filter (calls L c cg) (concat (map sec_hooks es))) \<le> length es"
proof (induction es)
  case (Cons e es)
  have "length (filter (calls L c cg) (sec_hooks e)) \<le> 1"
    by (cases e) (simp_all add: Let_def)
  with Cons show ?case by simp
qed simp

section \<open>A sensitive open\<close>

text \<open>The alert of the security monitor, whichever of its two programs runs first.\<close>

lemma alert_raised:
  assumes "sec_inv (w_sec w)" and "se_id c = nr_openat" and "(path, l) \<in> set sensitivePaths"
    and "buf = user_str (task S) (se_args c 1) 256" and "length buf = 256" and "str_of buf = bytes_of path"
    and "map_lookup (security_metrics_map (w_sec w)) (get_cgroup_id (task S)) \<noteq> None"
    and "file_slot S 0 = Some old"
  shows "\<exists>alert \<in> set (security_events (w_sec (watcher_step (Enter S c regs rf) w))).
    Security_Monitor.ev_event_type alert = 4 \<and> ev_severity alert = ucast l \<and>
    Security_Monitor.ev_cgroup_id alert = get_cgroup_id (task S) \<and>
    Security_Monitor.ev_pid alert = pid_of (pid_tgid (task S))"
proof -
  let ?file = "File_Access (file_env S) c"
  let ?raw = "Security_Monitor.Sys_Enter (call_env S) (raw_args regs c)"
  let ?good = "\<lambda>alert. Security_Monitor.ev_event_type alert = 4 \<and> ev_severity alert = ucast l \<and>
    Security_Monitor.ev_cgroup_id alert = get_cgroup_id (task S) \<and>
    Security_Monitor.ev_pid alert = pid_of (pid_tgid (task S))"
  have hash: "djb2 (str_of buf) = hashString path"
    using assms(3,6) policy_ascii hashString_djb2 by metis
  have reports: "\<exists>alert \<in> set (security_events (sec_step ?file s)). ?good alert"
    if s: "sec_inv s" "map_lookup (security_metrics_map s) (get_cgroup_id (task S)) \<noteq> None" for s
    using file_access_reports [OF s(1), of buf "file_env S" c path l old] assms(3-5,8) hash s(2)
    by (auto simp: after_def)
  show ?thesis
  proof (cases rf)
    case True
    with assms(2) have "w_sec (watcher_step (Enter S c regs rf) w) = sec_step ?file (sec_step ?raw (w_sec w))"
      by (simp add: sec_part.here_step Let_def del: sec_step.simps)
    with reports [OF sec_inv_step [OF assms(1)] sec_known_step [OF assms(7)]] show ?thesis
      by (simp del: sec_step.simps)
  next
    case False
    with assms(2) have "w_sec (watcher_step (Enter S c regs rf) w) = sec_step ?raw (sec_step ?file (w_sec w))"
      by (simp add: sec_part.here_step Let_def del: sec_step.simps)
    with reports [OF assms(1,7)] sec_events_grow show ?thesis by metis
  qed
qed

section \<open>Examples\<close>

text \<open>Thread \<open>t\<close> of process 1 at a given time, with a file name in user memory.\<close>

definition scene_of :: "u32 \<Rightarrow> u64 \<Rightarrow> string \<Rightarrow> scene" where
  "scene_of t now name = \<lparr>task = env0\<lparr>pid_tgid := thread_id t,
       user_str := (\<lambda>_ n. read_str (replicate n 0) (bytes_of name))\<rparr>,
     fs_clock = (\<lambda>_. now), fs_slot = (\<lambda>_. Some fs_event0), http_clock = (\<lambda>_. now), http_slot = (\<lambda>_. None),
     sec_clock = (\<lambda>_. now), sec_slot = (\<lambda>_. Some sec_event0), file_clock = (\<lambda>_. now),
     file_slot = (\<lambda>_. Some sec_event0), mem_slot = (\<lambda>_. None), app_slot = (\<lambda>_. None)\<rparr>"

definition call_of :: "s64 \<Rightarrow> trace_event_raw_sys_enter" where
  "call_of nr = \<lparr>se_ent = entry0, se_id = nr, se_args = (\<lambda>_. 4096)\<rparr>"

definition return_of :: "s64 \<Rightarrow> s64 \<Rightarrow> trace_event_raw_sys_exit" where
  "return_of nr r = \<lparr>sx_ent = entry0, sx_id = nr, sx_ret = r\<rparr>"

lemma scene_simps [simp]:
  "pid_tgid (task (scene_of t now name)) = thread_id t" "get_cgroup_id (task (scene_of t now name)) = 0"
  "user_str (task (scene_of t now name)) a n = read_str (replicate n 0) (bytes_of name)"
  "fs_clock (scene_of t now name) n = now" "fs_slot (scene_of t now name) n = Some fs_event0"
  "file_slot (scene_of t now name) n = Some sec_event0"
  "se_id (call_of nr) = nr" "sx_id (return_of nr r) = nr" "sx_ret (return_of nr r) = r"
  by (simp_all add: scene_of_def env0_def get_cgroup_id_def core_read_def kheap0_def call_of_def return_of_def)

text \<open>Process 1 has asked for its process id (call 39), so its cgroup is known.\<close>

definition known_run :: "kevent list" where
  "known_run = [Enter (scene_of 7 1000 []) (call_of 39) 0 True]"

lemma known_run_fs: "w_fs (fold watcher_step known_run watcher_init) = fs_init"
  by (simp add: known_run_def fs_part.here_step nr_openat_def nr_read_def nr_write_def)

lemma known_run_sec: "map_lookup (security_metrics_map (w_sec (fold watcher_step known_run watcher_init))) 0 \<noteq> None"
proof -
  let ?E = "call_env (scene_of 7 1000 [])"
  have room: "map_lookup (security_metrics_map sec_init) (get_cgroup_id ?E) \<noteq> None \<or>
      map_room (security_metrics_map sec_init)"
    by (simp add: room_init)
  have "map_lookup (security_metrics_map (after (trace_sys_enter ?E (raw_args 0 (call_of 39)) sec_init))) 0 \<noteq> None"
    using metrics_sys_enter [OF room, of "raw_args 0 (call_of 39)"] count_call_present [OF room, of "ktime ?E 0"]
    by (simp add: map_simps)
  then show ?thesis
    by (simp add: known_run_def sec_part.here_step nr_openat_def)
qed

section \<open>Properties\<close>



text \<open>
  Property C32. The two collectors are consistent: over any run of the whole with at most 10000
  cgroups, the opens that fs_tracker has charged to a cgroup never exceed the system calls that the
  security monitor has counted for it, except by the one open whose exit hook runs into the null
  pointer and charges a call twice.
\<close>

theorem opens_bounded_by_calls:
  assumes "finite K" and "card K \<le> 10000"
    and "list_all (\<lambda>e. list_all (\<lambda>h. get_cgroup_id (sec_env h) \<in> K) (sec_hooks e)) es"
    and "length es < 2 ^ 64" and "w = fold watcher_step es watcher_init"
  shows "unat (fs_total open_ops (w_fs w) cg) \<le>
    unat (map_total total_syscalls (security_metrics_map (w_sec w)) cg) + 1"
proof -
  let ?n = "length (filter (calls (syscall_allowlist sec_init) Any_Call cg) (concat (map sec_hooks es)))"
  have "map_total total_syscalls (security_metrics_map (w_sec w)) cg = of_nat ?n"
    using calls_in_whole [OF assms(1-3), of Any_Call cg] by (simp add: assms(5) class_counter.simps)
  moreover have "?n < 2 ^ 64" using calls_at_most_events assms(4) by (rule le_less_trans)
  ultimately have total: "unat (map_total total_syscalls (security_metrics_map (w_sec w)) cg) = ?n"
    by (simp add: unat_of_nat)
  have "opens_within cg 0 fs_init"
    by (simp add: opens_within_def fs_total_def pending_def) (simp add: fs_init_def new_map_def)
  then have "opens_within cg (length (filter (fs_enters cg) (concat (map fs_hooks es)))) (w_fs w)"
    using opens_run [of cg 0 fs_init "concat (map fs_hooks es)"] by (simp add: assms(5) fs_part.here_run)
  moreover have "has_entry cg (w_fs w) \<le> 1" by (simp add: has_entry_def)
  ultimately show ?thesis
    using enters_are_calls [of cg es "syscall_allowlist sec_init"] total by (simp add: opens_within_def)
qed

theorem opens_bounded_by_calls_witness:
  "unat (fs_total open_ops (w_fs (fold watcher_step
       [Enter (scene_of 7 2000 []) (call_of 257) 0 True, Exit (scene_of 7 9000 []) (return_of 257 5)]
       watcher_init)) 0) \<le>
   unat (map_total total_syscalls (security_metrics_map (w_sec (fold watcher_step
       [Enter (scene_of 7 2000 []) (call_of 257) 0 True, Exit (scene_of 7 9000 []) (return_of 257 5)]
       watcher_init))) 0) + 1"
  by (rule opens_bounded_by_calls [of "{0}", OF _ _ _ _ refl]) (simp_all add: nr_openat_def Let_def)

end
