(* ===== verification/Map_Values.thy ===== *)
theory Map_Values
  imports Go_Layout Cpu_Tracker Memory_Tracker Http_Metrics Fs_Tracker App_Specific Security_Monitor
begin

text \<open>
  The values of the metrics maps as bytes. A program in C stores a structure in a map; a collector in Go
  iterates over the map and unmarshals each value into a structure of its own. This theory has the
  C structures and the Go structures side by side, the bytes of a C record, and what the
  collectors rely on of the unmarshalling function of the eBPF library, which is a parameter.
\<close>

section \<open>Numbers as bytes\<close>

primrec le_bytes :: "nat \<Rightarrow> u64 \<Rightarrow> u8 list" where
  "le_bytes 0 w = []"
| "le_bytes (Suc n) w = ucast w # le_bytes n (drop_bit 8 w)"

lemma length_le_bytes [simp]: "length (le_bytes n w) = n"
  by (induction n arbitrary: w) auto

lemma le_word_bytes: "le_word (le_bytes n w) = take_bit (8 * n) w"
proof (induction n arbitrary: w)
  case (Suc n)
  have "le_word (le_bytes (Suc n) w) = ucast (ucast w :: u8) OR push_bit 8 (le_word (le_bytes n (drop_bit 8 w)))"
    by (simp add: le_word_def)
  also have "\<dots> = ucast (ucast w :: u8) OR push_bit 8 (take_bit (8 * n) (drop_bit 8 w))"
    by (simp only: Suc.IH)
  also have "\<dots> = take_bit (8 * Suc n) w"
    by (rule bit_word_eqI) (auto simp: bit_simps)
  finally show ?case .
qed (simp add: le_word_def)

lemma le_word_bytes_8 [simp]: "le_word (le_bytes 8 w) = w"
  by (simp add: le_word_bytes take_bit_length_eq [where 'a = 64, simplified])

section \<open>Structures without padding\<close>

fun tight :: "nat \<Rightarrow> (nat \<times> nat) list \<Rightarrow> bool" where
  "tight pos [] \<longleftrightarrow> True"
| "tight pos ((off, n) # fs) \<longleftrightarrow> off = pos \<and> tight (pos + n) fs"

lemma store_tight:
  "tight pos fs \<Longrightarrow> map length vs = map snd fs \<Longrightarrow> pos + sum_list (map snd fs) \<le> length buf \<Longrightarrow>
     store_fields fs vs buf = take pos buf @ concat vs @ drop (pos + sum_list (map snd fs)) buf"
proof (induction fs vs buf arbitrary: pos rule: store_fields.induct)
  case (1 f fs v vs buf)
  obtain n where f: "f = (pos, n)" and n: "n = length v" and rest: "tight (pos + n) fs"
    using 1(2,3) by (cases f) auto
  have len: "length (write_at buf pos v) = length buf"
    using 1(4) f n by (intro length_write_at) simp
  have "store_fields fs vs (write_at buf pos v) =
      take (pos + n) (write_at buf pos v) @ concat vs @
      drop (pos + n + sum_list (map snd fs)) (write_at buf pos v)"
    using 1(1) [of "pos + n"] 1(3,4) rest f len by simp
  also have "take (pos + n) (write_at buf pos v) = take pos buf @ v"
    using 1(4) f n by (simp add: write_at_def)
  also have "drop (pos + n + sum_list (map snd fs)) (write_at buf pos v) =
      drop (pos + n + sum_list (map snd fs)) buf"
    using 1(4) f n by (simp add: write_at_def add_ac)
  finally show ?case using f by (simp add: add.assoc)
qed auto

text \<open>The fields of a value as \<open>encoding/binary\<close> reads them: one after the other, without padding.\<close>

definition packed_size :: "gotype list \<Rightarrow> nat" where
  "packed_size g = sum_list (map go_size g)"

fun unpack :: "gotype list \<Rightarrow> u8 list \<Rightarrow> u8 list list" where
  "unpack [] buf = []"
| "unpack (t # ts) buf = take (go_size t) buf # unpack ts (drop (go_size t) buf)"

lemma unpack_concat: "map length vs = map go_size g \<Longrightarrow> unpack g (concat vs) = vs"
proof (induction g arbitrary: vs)
  case (Cons t g)
  then obtain v ws where "vs = v # ws" "length v = go_size t" "map length ws = map go_size g" by auto
  with Cons.IH show ?case by simp
qed simp

section \<open>The contract of the unmarshalling function\<close>

text \<open>
  The library takes a value of a map into a Go structure field by field; it reports an error if the
  fields do not take up the value exactly.
\<close>

locale unmarshaller =
  fixes um :: "gotype list \<Rightarrow> u8 list \<Rightarrow> u8 list list option"
  assumes exact_size: "packed_size g = length buf \<Longrightarrow> um g buf = Some (unpack g buf)"
    and wrong_size: "packed_size g \<noteq> length buf \<Longrightarrow> um g buf = None"
begin

lemma reads_back:
  "map length vs = map go_size g \<Longrightarrow> um g (concat vs) = Some vs"
  by (subst exact_size) (simp_all add: packed_size_def unpack_concat length_concat)

end

text \<open>\<open>binary.Read\<close> of the Go standard library, with the check that nothing is left over.\<close>

definition binary_read :: "gotype list \<Rightarrow> u8 list \<Rightarrow> u8 list list option" where
  "binary_read g buf = (if packed_size g = length buf then Some (unpack g buf) else None)"

interpretation binary: unmarshaller binary_read
  by unfold_locales (simp_all add: binary_read_def)

section \<open>The structures in C\<close>

abbreviation "u64_field x \<equiv> Mem x None (Scalar 8)"
abbreviation "u32_field x \<equiv> Mem x None (Scalar 4)"

definition cpu_metrics_ct :: ctype where
  "cpu_metrics_ct = Struct
     [u64_field ''user_time_ns'', u64_field ''system_time_ns'', u64_field ''context_switches'',
      u64_field ''voluntary_switches'', u64_field ''involuntary_switches'',
      u64_field ''runqueue_latency_sum'', u64_field ''runqueue_samples'',
      u32_field ''active_threads'', u32_field ''blocked_threads'', u64_field ''last_update'']"

definition memory_metrics_ct :: ctype where
  "memory_metrics_ct = Struct
     [u64_field ''alloc_count'', u64_field ''free_count'', u64_field ''bytes_allocated'',
      u64_field ''bytes_freed'', u64_field ''net_allocated'', u64_field ''small_allocs'',
      u64_field ''medium_allocs'', u64_field ''large_allocs'', u64_field ''huge_allocs'',
      u64_field ''page_faults'', u64_field ''major_page_faults'', u64_field ''last_update'']"

definition gc_metrics_ct :: ctype where
  "gc_metrics_ct = Struct
     [u64_field ''gc_count'', u64_field ''gc_time_ns'', u64_field ''bytes_collected'',
      u64_field ''last_gc_time'']"

definition http_metrics_ct :: ctype where
  "http_metrics_ct = Struct
     [u64_field ''request_count'', u64_field ''error_count'', u64_field ''latency_sum'',
      u64_field ''latency_max'', u64_field ''latency_min'', u64_field ''status_2xx'',
      u64_field ''status_3xx'', u64_field ''status_4xx'', u64_field ''status_5xx'',
      u64_field ''last_update'']"

definition fs_metrics_ct :: ctype where
  "fs_metrics_ct = Struct
     [u64_field ''read_ops'', u64_field ''write_ops'', u64_field ''open_ops'', u64_field ''close_ops'',
      u64_field ''sync_ops'', u64_field ''bytes_read'', u64_field ''bytes_written'',
      u64_field ''read_latency_total'', u64_field ''write_latency_total'',
      u64_field ''open_latency_total'', u64_field ''io_errors'', u64_field ''permission_errors'',
      u64_field ''last_update'']"

definition db_metrics_ct :: ctype where
  "db_metrics_ct = Struct
     [u64_field ''query_count'', u64_field ''query_time_total'', u64_field ''slow_queries'',
      u64_field ''active_connections'', u64_field ''connection_timeouts'', u64_field ''transactions'',
      u64_field ''rollbacks'', u64_field ''transaction_time_total'', u64_field ''last_update'']"

definition cache_metrics_ct :: ctype where
  "cache_metrics_ct = Struct
     [u64_field ''cache_hits'', u64_field ''cache_misses'', u64_field ''cache_sets'',
      u64_field ''cache_gets'', u64_field ''cache_deletes'', u64_field ''cache_evictions'',
      u64_field ''get_latency_total'', u64_field ''set_latency_total'', u64_field ''cache_size_bytes'',
      u64_field ''last_update'']"

definition go_metrics_ct :: ctype where
  "go_metrics_ct = Struct
     [u64_field ''goroutines'', u64_field ''goroutine_stack_size'', u64_field ''gc_cycles'',
      u64_field ''gc_pause_time_us'', u64_field ''heap_size'', u64_field ''heap_alloc'',
      u64_field ''heap_idle'', u64_field ''channel_sends'', u64_field ''channel_receives'',
      u64_field ''blocked_channels'', u64_field ''last_update'']"

definition security_metrics_ct :: ctype where
  "security_metrics_ct = Struct
     [u64_field ''total_syscalls'', u64_field ''suspicious_syscalls'',
      u64_field ''privilege_escalation_attempts'', u64_field ''syscall_rate_violations'',
      u64_field ''memory_violations'', u64_field ''cpu_violations'', u64_field ''fd_violations'',
      u64_field ''process_violations'', u64_field ''suspicious_connections'',
      u64_field ''blocked_connections'', u64_field ''port_scan_attempts'', u64_field ''new_processes'',
      u64_field ''suspicious_processes'', u64_field ''setuid_executions'',
      u64_field ''container_escape_attempts'', u64_field ''unauthorized_file_access'',
      u64_field ''sensitive_file_access'', u64_field ''system_file_modifications'',
      u64_field ''last_update'']"

definition syscall_stats_ct :: ctype where
  "syscall_stats_ct = Struct
     [u64_field ''count'', u64_field ''last_seen'', u64_field ''avg_frequency'',
      Mem ''is_suspicious'' None (Scalar 1)]"

section \<open>The structures in Go\<close>

abbreviation "uint64 \<equiv> Go_Num 8"
abbreviation "uint32 \<equiv> Go_Num 4"
abbreviation "float64 \<equiv> Go_Num 8"

definition CPUMetrics :: "gotype list" where
  "CPUMetrics = [uint64, uint64, uint64, float64, uint64, uint64, uint64, uint64, uint32, uint32, uint64]"

definition MemoryMetrics :: "gotype list" where
  "MemoryMetrics = replicate 12 uint64"

definition GCMetrics :: "gotype list" where
  "GCMetrics = replicate 4 uint64"

definition HTTPMetrics :: "gotype list" where
  "HTTPMetrics = replicate 10 uint64"

definition FSMetrics :: "gotype list" where
  "FSMetrics = replicate 13 uint64"

definition DatabaseMetrics :: "gotype list" where
  "DatabaseMetrics = replicate 9 uint64"

definition CacheMetrics :: "gotype list" where
  "CacheMetrics = replicate 10 uint64"

definition GoMetrics :: "gotype list" where
  "GoMetrics = replicate 11 uint64"

definition SecurityMetrics :: "gotype list" where
  "SecurityMetrics = replicate 19 uint64"

definition SyscallStats :: "gotype list" where
  "SyscallStats = [uint64, uint64, uint64, Go_Num 1]"

section \<open>The bytes of a value\<close>

text \<open>
  A value of \<open>n\<close> counters of 64 bits, as the program stores it and as the collector's structure is
  filled. The structures in Go have the fields of the C structures, so one record stands for both.
\<close>

definition stored :: "ctype \<Rightarrow> u64 list \<Rightarrow> u8 list \<Rightarrow> u8 list" where
  "stored ct ws old = c_store ct (map (le_bytes 8) ws) old"

definition decoded :: "(gotype list \<Rightarrow> u8 list \<Rightarrow> u8 list list option) \<Rightarrow> gotype list \<Rightarrow>
    (u64 list \<Rightarrow> 'v) \<Rightarrow> u8 list \<Rightarrow> 'v option" where
  "decoded um g of_words buf = map_option (\<lambda>fs. of_words (map le_word fs)) (um g buf)"

locale counters_value =
  fixes ct :: ctype and n :: nat and words :: "'v \<Rightarrow> u64 list" and of_words :: "u64 list \<Rightarrow> 'v"
  assumes fields: "snd (c_layout ct) = map (\<lambda>i. (8 * i, 8)) [0..<n]"
    and size: "size_of ct = 8 * n"
    and words_length: "length (words v) = n"
    and words_inverse: "of_words (words v) = v"
begin

lemma tight_from: "tight (8 * m) (map (\<lambda>i. (8 * i, 8)) [m..<m + k])"
proof (induction k arbitrary: m)
  case (Suc k)
  have "[m..<m + Suc k] = m # [Suc m..<Suc m + k]" by (simp add: upt_conv_Cons del: upt_Suc)
  with Suc.IH [of "Suc m"] show ?case by (simp add: add.commute del: upt_Suc)
qed simp

lemma stored_concat:
  assumes "length old = size_of ct"
  shows "stored ct (words v) old = concat (map (le_bytes 8) (words v))"
proof -
  have "tight 0 (snd (c_layout ct))" using tight_from [of 0 n] by (simp add: fields)
  moreover have "map length (map (le_bytes 8) (words v)) = map snd (snd (c_layout ct))"
    by (simp add: fields comp_def map_replicate_const words_length)
  moreover have "sum_list (map snd (snd (c_layout ct))) = length old"
    by (simp add: fields comp_def map_replicate_const sum_list_replicate assms size)
  ultimately show ?thesis
    using store_tight [of 0 "snd (c_layout ct)" "map (le_bytes 8) (words v)" old]
    by (simp add: stored_def c_store_def)
qed

lemma reads_back:
  assumes "unmarshaller um" and "length old = size_of ct"
  shows "decoded um (replicate n (Go_Num 8)) of_words (stored ct (words v) old) = Some v"
proof -
  have "um (replicate n (Go_Num 8)) (concat (map (le_bytes 8) (words v))) = Some (map (le_bytes 8) (words v))"
    by (rule unmarshaller.reads_back [OF assms(1)]) (simp add: comp_def map_replicate_const words_length)
  then show ?thesis
    by (simp add: decoded_def stored_concat [OF assms(2)] comp_def words_inverse)
qed

end

subsection \<open>The eight kinds of values\<close>

definition memory_words :: "memory_metrics \<Rightarrow> u64 list" where
  "memory_words c = [alloc_count c, free_count c, bytes_allocated c, bytes_freed c, net_allocated c,
     small_allocs c, medium_allocs c, large_allocs c, huge_allocs c, page_faults c,
     major_page_faults c, Memory_Tracker.last_update c]"

definition memory_of_words :: "u64 list \<Rightarrow> memory_metrics" where
  "memory_of_words ws = memory_metrics.make (ws ! 0) (ws ! 1) (ws ! 2) (ws ! 3) (ws ! 4) (ws ! 5) (ws ! 6) (ws ! 7) (ws ! 8) (ws ! 9)
     (ws ! 10) (ws ! 11)"

definition gc_words :: "gc_metrics \<Rightarrow> u64 list" where
  "gc_words c = [gc_count c, gc_time_ns c, bytes_collected c, last_gc_time c]"

definition gc_of_words :: "u64 list \<Rightarrow> gc_metrics" where
  "gc_of_words ws = gc_metrics.make (ws ! 0) (ws ! 1) (ws ! 2) (ws ! 3)"

definition http_words :: "http_metrics \<Rightarrow> u64 list" where
  "http_words c = [request_count c, error_count c, latency_sum c, latency_max c, latency_min c, status_2xx c,
     status_3xx c, status_4xx c, status_5xx c, Http_Metrics.last_update c]"

definition http_of_words :: "u64 list \<Rightarrow> http_metrics" where
  "http_of_words ws = http_metrics.make (ws ! 0) (ws ! 1) (ws ! 2) (ws ! 3) (ws ! 4) (ws ! 5) (ws ! 6) (ws ! 7) (ws ! 8) (ws ! 9)"

definition fs_words :: "fs_metrics \<Rightarrow> u64 list" where
  "fs_words c = [read_ops c, write_ops c, open_ops c, close_ops c, sync_ops c, bytes_read c, bytes_written c,
     read_latency_total c, write_latency_total c, open_latency_total c, io_errors c,
     permission_errors c, Fs_Tracker.last_update c]"

definition fs_of_words :: "u64 list \<Rightarrow> fs_metrics" where
  "fs_of_words ws = fs_metrics.make (ws ! 0) (ws ! 1) (ws ! 2) (ws ! 3) (ws ! 4) (ws ! 5) (ws ! 6) (ws ! 7) (ws ! 8) (ws ! 9)
     (ws ! 10) (ws ! 11) (ws ! 12)"

definition db_words :: "db_metrics \<Rightarrow> u64 list" where
  "db_words c = [query_count c, query_time_total c, slow_queries c, active_connections c,
     connection_timeouts c, transactions c, rollbacks c, transaction_time_total c,
     db_last_update c]"

definition db_of_words :: "u64 list \<Rightarrow> db_metrics" where
  "db_of_words ws = db_metrics.make (ws ! 0) (ws ! 1) (ws ! 2) (ws ! 3) (ws ! 4) (ws ! 5) (ws ! 6) (ws ! 7) (ws ! 8)"

definition cache_words :: "cache_metrics \<Rightarrow> u64 list" where
  "cache_words c = [cache_hits c, cache_misses c, cache_sets c, cache_gets c, cache_deletes c, cache_evictions c,
     get_latency_total c, set_latency_total c, cache_size_bytes c, cache_last_update c]"

definition cache_of_words :: "u64 list \<Rightarrow> cache_metrics" where
  "cache_of_words ws = cache_metrics.make (ws ! 0) (ws ! 1) (ws ! 2) (ws ! 3) (ws ! 4) (ws ! 5) (ws ! 6) (ws ! 7) (ws ! 8) (ws ! 9)"

definition go_words :: "go_metrics \<Rightarrow> u64 list" where
  "go_words c = [goroutines c, goroutine_stack_size c, gc_cycles c, gc_pause_time_us c, heap_size c,
     heap_alloc c, heap_idle c, channel_sends c, channel_receives c, blocked_channels c,
     go_last_update c]"

definition go_of_words :: "u64 list \<Rightarrow> go_metrics" where
  "go_of_words ws = go_metrics.make (ws ! 0) (ws ! 1) (ws ! 2) (ws ! 3) (ws ! 4) (ws ! 5) (ws ! 6) (ws ! 7) (ws ! 8) (ws ! 9)
     (ws ! 10)"

definition security_words :: "security_metrics \<Rightarrow> u64 list" where
  "security_words c = [total_syscalls c, suspicious_syscalls c, privilege_escalation_attempts c,
     syscall_rate_violations c, memory_violations c, cpu_violations c, fd_violations c,
     process_violations c, suspicious_connections c, blocked_connections c, port_scan_attempts c,
     new_processes c, suspicious_processes c, setuid_executions c, container_escape_attempts c,
     unauthorized_file_access c, sensitive_file_access c, system_file_modifications c,
     Security_Monitor.last_update c]"

definition security_of_words :: "u64 list \<Rightarrow> security_metrics" where
  "security_of_words ws = security_metrics.make (ws ! 0) (ws ! 1) (ws ! 2) (ws ! 3) (ws ! 4) (ws ! 5) (ws ! 6) (ws ! 7) (ws ! 8) (ws ! 9)
     (ws ! 10) (ws ! 11) (ws ! 12) (ws ! 13) (ws ! 14) (ws ! 15) (ws ! 16) (ws ! 17) (ws ! 18)"

lemmas value_types = memory_metrics_ct_def gc_metrics_ct_def http_metrics_ct_def fs_metrics_ct_def db_metrics_ct_def
  cache_metrics_ct_def go_metrics_ct_def security_metrics_ct_def

lemmas go_types = MemoryMetrics_def GCMetrics_def HTTPMetrics_def FSMetrics_def DatabaseMetrics_def
  CacheMetrics_def GoMetrics_def SecurityMetrics_def

interpretation memory_value: counters_value memory_metrics_ct 12 memory_words memory_of_words
  by unfold_locales
    (simp_all add: memory_metrics_ct_def round_up_def memory_words_def memory_of_words_def
      memory_metrics.make_def upt_rec)

interpretation gc_value: counters_value gc_metrics_ct 4 gc_words gc_of_words
  by unfold_locales
    (simp_all add: gc_metrics_ct_def round_up_def gc_words_def gc_of_words_def
      gc_metrics.make_def upt_rec)

interpretation http_value: counters_value http_metrics_ct 10 http_words http_of_words
  by unfold_locales
    (simp_all add: http_metrics_ct_def round_up_def http_words_def http_of_words_def
      http_metrics.make_def upt_rec)

interpretation fs_value: counters_value fs_metrics_ct 13 fs_words fs_of_words
  by unfold_locales
    (simp_all add: fs_metrics_ct_def round_up_def fs_words_def fs_of_words_def
      fs_metrics.make_def upt_rec)

interpretation db_value: counters_value db_metrics_ct 9 db_words db_of_words
  by unfold_locales
    (simp_all add: db_metrics_ct_def round_up_def db_words_def db_of_words_def
      db_metrics.make_def upt_rec)

interpretation cache_value: counters_value cache_metrics_ct 10 cache_words cache_of_words
  by unfold_locales
    (simp_all add: cache_metrics_ct_def round_up_def cache_words_def cache_of_words_def
      cache_metrics.make_def upt_rec)

interpretation go_value: counters_value go_metrics_ct 11 go_words go_of_words
  by unfold_locales
    (simp_all add: go_metrics_ct_def round_up_def go_words_def go_of_words_def
      go_metrics.make_def upt_rec)

interpretation security_value: counters_value security_metrics_ct 19 security_words security_of_words
  by unfold_locales
    (simp_all add: security_metrics_ct_def round_up_def security_words_def security_of_words_def
      security_metrics.make_def upt_rec)

end
