(* ===== verification/Float64.thy ===== *)
theory Float64
  imports Complex_Main Bpf_Prelude "HOL-Library.Log_Nat"
begin

text \<open>
  The arithmetic of Go's \<open>float64\<close> on the values that the collectors compute: conversions of
  64-bit counters, quotients, and products with constants. All of them are zero or between
  \<open>2 powi (- 64)\<close> and \<open>2 powi 80\<close>, so nothing is negative, subnormal, infinite or not a number, and
  a \<open>float64\<close> is the rational it denotes. An operation delivers the exact result rounded to 53
  significant bits, to nearest, ties to even.
\<close>

section \<open>Rounding\<close>

definition round_even :: "rat \<Rightarrow> int" where
  "round_even x = (let n = \<lfloor>x\<rfloor>; d = x - of_int n
     in if d < 1 / 2 \<or> d = 1 / 2 \<and> even n then n else n + 1)"

text \<open>The exponent of the leading bit of a positive rational.\<close>

definition ilog2 :: "rat \<Rightarrow> int" where
  "ilog2 x = (let e = bitlen (fst (quotient_of x)) - bitlen (snd (quotient_of x))
     in if 2 powi e \<le> x then e else e - 1)"

definition rnd :: "rat \<Rightarrow> rat" where
  "rnd x = (if x = 0 then 0
     else let u = 2 powi (ilog2 x - 52) in of_int (round_even (x / u)) * u)"

definition float_of :: "u64 \<Rightarrow> rat" where
  "float_of w = rnd (of_nat (unat w))"

definition fdiv :: "rat \<Rightarrow> rat \<Rightarrow> rat" where
  "fdiv a b = rnd (a / b)"

definition fmul :: "rat \<Rightarrow> rat \<Rightarrow> rat" where
  "fmul a b = rnd (a * b)"

definition fadd :: "rat \<Rightarrow> rat \<Rightarrow> rat" where
  "fadd a b = rnd (a + b)"

section \<open>Rounding to an integer\<close>

lemma round_even_cases: "round_even x = \<lfloor>x\<rfloor> \<or> round_even x = \<lfloor>x\<rfloor> + 1"
  by (simp add: round_even_def Let_def)

lemma round_even_int [simp]: "round_even (of_int n) = n"
  by (simp add: round_even_def)

lemma round_even_mono: "x \<le> y \<Longrightarrow> round_even x \<le> round_even y"
proof (cases "\<lfloor>x\<rfloor> = \<lfloor>y\<rfloor>")
  case False
  assume "x \<le> y"
  then have "\<lfloor>x\<rfloor> \<le> \<lfloor>y\<rfloor>" by (rule floor_mono)
  with False have "\<lfloor>x\<rfloor> + 1 \<le> \<lfloor>y\<rfloor>" by simp
  with round_even_cases [of x] round_even_cases [of y] show ?thesis by linarith
qed (auto simp: round_even_def Let_def)

lemma round_even_ge: "of_int n \<le> x \<Longrightarrow> n \<le> round_even x"
  using round_even_mono [of "of_int n" x] by simp

lemma round_even_le: "x \<le> of_int n \<Longrightarrow> round_even x \<le> n"
  using round_even_mono [of x "of_int n"] by simp

section \<open>The exponent\<close>

lemma powi2_mono: "m \<le> n \<Longrightarrow> (2 :: rat) powi m \<le> 2 powi n"
  by (rule power_int_increasing) simp_all

lemma powi2_le_iff: "(2 :: rat) powi m \<le> 2 powi n \<longleftrightarrow> m \<le> n"
  by (metis linorder_not_le one_less_numeral_iff power_int_strict_increasing powi2_mono semiring_norm(76))

lemma powi2_pos [simp]: "(0 :: rat) < 2 powi n"
  by (rule zero_less_power_int) simp

lemma powi2_add: "(2 :: rat) powi (m + n) = 2 powi m * 2 powi n"
  by (simp add: power_int_add)

lemma bitlen_powi: "0 < a \<Longrightarrow> 2 powi (bitlen a - 1) \<le> (of_int a :: rat) \<and> (of_int a :: rat) < 2 powi (bitlen a)"
proof -
  assume a: "0 < a"
  then have len: "1 \<le> bitlen a" using bitlen_eq_zero_iff [of a] bitlen_nonneg [of a] by linarith
  have "(2 :: rat) powi (bitlen a - 1) = of_int (2 ^ nat (bitlen a - 1))"
    using len by (simp add: power_int_def)
  moreover have "(2 :: rat) powi (bitlen a) = of_int (2 ^ nat (bitlen a))"
    using len by (simp add: power_int_def)
  ultimately show ?thesis using bitlen_bounds [OF a] by (metis of_int_le_iff of_int_less_iff)
qed

lemma ilog2_bounds:
  assumes "0 < x"
  shows "2 powi (ilog2 x) \<le> x" and "x < 2 powi (ilog2 x + 1)"
proof -
  obtain p q where pq: "quotient_of x = (p, q)" by fastforce
  have q: "0 < q" using pq by (rule quotient_of_denom_pos)
  have x: "x = of_int p / of_int q" using pq by (rule quotient_of_div)
  have p: "0 < p" using assms x q by (simp add: zero_less_divide_iff)
  let ?e = "bitlen p - bitlen q"
  note bp = bitlen_powi [OF p] and bq = bitlen_powi [OF q]
  have "x < 2 powi (bitlen p) / 2 powi (bitlen q - 1)"
    unfolding x using bp bq q p by (intro frac_less) auto
  also have "\<dots> = 2 powi (?e + 1)" by (simp add: power_int_diff [symmetric] algebra_simps)
  finally have up: "x < 2 powi (?e + 1)" .
  have "2 powi (?e - 1) = (2 :: rat) powi (bitlen p - 1) / 2 powi (bitlen q)"
    by (simp add: power_int_diff [symmetric] algebra_simps)
  also have "\<dots> \<le> x" unfolding x using bp bq p q by (intro frac_le) auto
  finally have low: "2 powi (?e - 1) \<le> x" .
  show "2 powi (ilog2 x) \<le> x" and "x < 2 powi (ilog2 x + 1)"
    using up low by (simp_all add: ilog2_def pq Let_def)
qed

lemma ilog2_mono: "0 < x \<Longrightarrow> x \<le> y \<Longrightarrow> ilog2 x \<le> ilog2 y"
proof -
  assume x: "0 < x" and le: "x \<le> y"
  then have "2 powi (ilog2 x) < (2 :: rat) powi (ilog2 y + 1)"
    using ilog2_bounds(1) [of x] ilog2_bounds(2) [of y] by linarith
  then show ?thesis by (metis linorder_not_le powi2_mono zle_add1_eq_le)
qed

section \<open>Rounding to 53 bits\<close>

lemma rnd_zero [simp]: "rnd 0 = 0"
  by (simp add: rnd_def)

lemma rnd_pos_def: "0 < x \<Longrightarrow> rnd x = of_int (round_even (x / 2 powi (ilog2 x - 52))) * 2 powi (ilog2 x - 52)"
  by (simp add: rnd_def Let_def)

text \<open>The significand of a positive number has 53 bits.\<close>

lemma significand:
  assumes "0 < x"
  shows "2 ^ 52 \<le> round_even (x / 2 powi (ilog2 x - 52))" and "round_even (x / 2 powi (ilog2 x - 52)) \<le> 2 ^ 53"
proof -
  have "(2 :: rat) powi 52 \<le> x / 2 powi (ilog2 x - 52)"
    using ilog2_bounds(1) [OF assms] by (subst pos_le_divide_eq) (simp_all del: power_int_numeral flip: powi2_add)
  then show "2 ^ 52 \<le> round_even (x / 2 powi (ilog2 x - 52))" by (intro round_even_ge) simp
  have "x / 2 powi (ilog2 x - 52) \<le> (2 :: rat) powi 53"
    using ilog2_bounds(2) [OF assms]
    by (subst pos_divide_le_eq) (simp_all add: add.commute del: power_int_numeral flip: powi2_add)
  then show "round_even (x / 2 powi (ilog2 x - 52)) \<le> 2 ^ 53" by (intro round_even_le) simp
qed

lemma rnd_between:
  assumes "0 < x"
  shows "2 powi (ilog2 x) \<le> rnd x" and "rnd x \<le> 2 powi (ilog2 x + 1)"
proof -
  let ?u = "2 powi (ilog2 x - 52) :: rat" and ?m = "round_even (x / 2 powi (ilog2 x - 52))"
  have "of_int (2 ^ 52) * ?u \<le> of_int ?m * ?u" and "of_int ?m * ?u \<le> of_int (2 ^ 53) * ?u"
    by (intro mult_right_mono of_int_le_iff [THEN iffD2] significand [OF assms]; simp)+
  moreover have "of_int (2 ^ 52) * ?u = 2 powi (ilog2 x)" and "of_int (2 ^ 53) * ?u = 2 powi (ilog2 x + 1)"
    using powi2_add [of 52 "ilog2 x - 52"] powi2_add [of 53 "ilog2 x - 52"] by (simp_all add: add.commute)
  ultimately show "2 powi (ilog2 x) \<le> rnd x" and "rnd x \<le> 2 powi (ilog2 x + 1)"
    unfolding rnd_pos_def [OF assms] by (simp_all only:)
qed

lemma rnd_mono:
  assumes "0 \<le> x" and "x \<le> y"
  shows "rnd x \<le> rnd y"
proof (cases "x = 0")
  case True
  have "0 \<le> rnd y" if "0 < y"
    using rnd_between(1) [OF that] powi2_pos [of "ilog2 y"] by linarith
  with True assms show ?thesis by (cases "y = 0") auto
next
  case False
  then have x: "0 < x" and y: "0 < y" using assms by simp_all
  show ?thesis
  proof (cases "ilog2 x = ilog2 y")
    case True
    have "x / 2 powi (ilog2 y - 52) \<le> y / 2 powi (ilog2 y - 52)"
      using assms by (simp add: divide_right_mono)
    from round_even_mono [OF this] show ?thesis
      using x y True by (simp add: rnd_pos_def mult_right_mono)
  next
    case False
    then have "ilog2 x + 1 \<le> ilog2 y" using ilog2_mono [OF x assms(2)] by simp
    then have "(2 :: rat) powi (ilog2 x + 1) \<le> 2 powi (ilog2 y)" by (rule powi2_mono)
    with rnd_between(2) [OF x] rnd_between(1) [OF y] show ?thesis by linarith
  qed
qed

lemma rnd_nonneg: "0 \<le> x \<Longrightarrow> 0 \<le> rnd x"
  using rnd_mono [of 0 x] by simp

text \<open>Numbers with at most 53 significant bits are not changed.\<close>

lemma rnd_exact:
  assumes "0 \<le> m" and "m \<le> 2 ^ 53" and "x = of_int m * 2 powi e"
  shows "rnd x = x"
proof (cases "m = 0")
  case False
  then have x: "0 < x" using assms by simp
  let ?k = "ilog2 x"
  have "\<exists>n :: int. x / 2 powi (?k - 52) = of_int n"
  proof (cases "?k - 52 \<le> e")
    case True
    have "x / 2 powi (?k - 52) = of_int m * 2 powi (e - (?k - 52))"
      by (simp add: assms(3) power_int_diff)
    also have "\<dots> = of_int (m * 2 ^ nat (e - (?k - 52)))"
      using True by (simp add: power_int_def)
    finally show ?thesis by blast
  next
    case False
    have top: "x \<le> 2 powi (53 + e)"
    proof -
      have "(of_int m :: rat) \<le> of_int (2 ^ 53)" using assms(2) by (simp only: of_int_le_iff)
      then show ?thesis by (simp add: assms(3) powi2_add)
    qed
    then have "?k \<le> 53 + e" using ilog2_bounds(1) [OF x] by (metis order_trans powi2_le_iff)
    with False have k: "?k = 53 + e" by simp
    then have "x = 2 powi ?k" using top ilog2_bounds(1) [OF x] by simp
    then have "x = of_int (2 ^ 52) * 2 powi (?k - 52)"
      using powi2_add [of 52 "?k - 52"] by simp
    then have "x / 2 powi (?k - 52) = of_int (2 ^ 52)"
      by (metis nonzero_mult_div_cancel_right powi2_pos less_irrefl)
    then show ?thesis by blast
  qed
  then obtain n :: int where "x / 2 powi (?k - 52) = of_int n" ..
  then show ?thesis using x by (simp add: rnd_pos_def) (simp add: field_simps)
qed (use assms in simp)

lemma rnd_int: "0 \<le> m \<Longrightarrow> m \<le> 2 ^ 53 \<Longrightarrow> rnd (of_int m) = of_int m"
  by (rule rnd_exact [of m _ 0]) simp_all

lemma rnd_nat: "n \<le> 2 ^ 53 \<Longrightarrow> rnd (of_nat n) = of_nat n"
  using rnd_int [of "int n"] by simp

lemma rnd_rnd [simp]: "0 \<le> x \<Longrightarrow> rnd (rnd x) = rnd x"
proof (cases "x = 0")
  case False
  assume "0 \<le> x"
  with False have x: "0 < x" by simp
  have "0 \<le> round_even (x / 2 powi (ilog2 x - 52))" using significand(1) [OF x] by simp
  from rnd_exact [OF this significand(2) [OF x] rnd_pos_def [OF x]] show ?thesis .
qed simp

section \<open>Counters and averages\<close>

lemma float_of_exact: "unat w \<le> 2 ^ 53 \<Longrightarrow> float_of w = of_nat (unat w)"
  by (simp add: float_of_def rnd_nat del: of_nat_unat)

lemma float_of_mono: "v \<le> w \<Longrightarrow> float_of v \<le> float_of w"
  by (simp add: float_of_def rnd_mono word_le_nat_alt del: of_nat_unat)

lemma float_of_nonneg [simp]: "0 \<le> float_of w"
  by (simp add: float_of_def rnd_nonneg del: of_nat_unat)

text \<open>An average of exact numbers lies between bounds of the numbers.\<close>

lemma average_between:
  assumes "0 < n" and "n * lo \<le> s" and "s \<le> n * hi" and "hi \<le> 2 ^ 53"
  shows "of_nat lo \<le> fdiv (of_nat s) (of_nat n)" and "fdiv (of_nat s) (of_nat n) \<le> of_nat hi"
proof -
  have "of_nat n * of_nat lo \<le> (of_nat s :: rat)" and "(of_nat s :: rat) \<le> of_nat n * of_nat hi"
    using assms(2,3) by (metis of_nat_le_iff of_nat_mult)+
  then have le: "of_nat lo \<le> (of_nat s :: rat) / of_nat n" "(of_nat s :: rat) / of_nat n \<le> of_nat hi"
    using assms(1) by (simp_all add: field_simps)
  have "n * lo \<le> n * hi" using assms(2,3) by (rule le_trans)
  then have lo: "lo \<le> 2 ^ 53" using assms(1,4) by simp
  show "of_nat lo \<le> fdiv (of_nat s) (of_nat n)"
    using rnd_mono [OF _ le(1)] rnd_nat [OF lo] by (simp add: fdiv_def)
  have "(0 :: rat) \<le> of_nat s / of_nat n" by simp
  then show "fdiv (of_nat s) (of_nat n) \<le> of_nat hi"
    using rnd_mono [OF _ le(2)] rnd_nat [OF assms(4)] by (simp add: fdiv_def)
qed

text \<open>Scaling a rounded number by a factor of at least one does not make it smaller.\<close>

lemma fmul_ge: "0 \<le> x \<Longrightarrow> rnd x = x \<Longrightarrow> 1 \<le> c \<Longrightarrow> x \<le> fmul x c"
proof -
  assume a: "0 \<le> x" "rnd x = x" "1 \<le> c"
  then have "x \<le> x * c" by (simp add: mult_le_cancel_left1)
  from rnd_mono [OF a(1) this] show ?thesis using a(2) by (simp add: fmul_def)
qed

lemma fmul_mono: "0 \<le> x \<Longrightarrow> 0 \<le> c \<Longrightarrow> c \<le> d \<Longrightarrow> fmul x c \<le> fmul x d"
  unfolding fmul_def by (intro rnd_mono mult_left_mono mult_nonneg_nonneg)

lemma fdiv_nonneg: "0 \<le> a \<Longrightarrow> 0 \<le> b \<Longrightarrow> 0 \<le> fdiv a b"
  by (simp add: fdiv_def rnd_nonneg)

lemma fdiv_rnd: "0 \<le> a \<Longrightarrow> 0 \<le> b \<Longrightarrow> rnd (fdiv a b) = fdiv a b"
  by (simp add: fdiv_def)

end
