(* ===== verification/Container_Mapper.thy ===== *)
theory Container_Mapper
  imports Bpf_Prelude
begin

text \<open>
  \<^verbatim>\<open>src/watcher/internal/ebpf/context/container_mapping.go\<close>: the tables by which the collectors
  attribute metrics to containers. The list of pods comes from the Kubernetes client, file contents from
  the operating system; both are inputs. Strings are ASCII, so their characters are their runes.
\<close>

section \<open>Strings as the Go library handles them\<close>

definition is_space :: "char \<Rightarrow> bool" where
  "is_space c \<longleftrightarrow> (of_char c :: nat) \<in> {9, 10, 11, 12, 13, 32}"

definition TrimSpace :: "string \<Rightarrow> string" where
  "TrimSpace s = rev (dropWhile is_space (rev (dropWhile is_space s)))"

text \<open>\<open>strings.Split(s, sep)\<close> for a separator that is not empty.\<close>

fun split_go :: "string \<Rightarrow> string \<Rightarrow> string \<Rightarrow> nat \<Rightarrow> string list" where
  "split_go sep acc [] skip = [rev acc]"
| "split_go sep acc (c # cs) (Suc skip) = split_go sep acc cs skip"
| "split_go sep acc (c # cs) 0 =
     (if take (length sep) (c # cs) = sep then rev acc # split_go sep [] cs (length sep - 1)
      else split_go sep (c # acc) cs 0)"

definition Split :: "string \<Rightarrow> string \<Rightarrow> string list" where
  "Split s sep = split_go sep [] s 0"

definition digit_value :: "char \<Rightarrow> nat option" where
  "digit_value c = (let n = of_char c in if 48 \<le> n \<and> n \<le> 57 then Some (n - 48) else None)"

fun digits_value :: "nat \<Rightarrow> string \<Rightarrow> nat option" where
  "digits_value acc [] = Some acc"
| "digits_value acc (c # cs) =
     (case digit_value c of None \<Rightarrow> None | Some d \<Rightarrow> digits_value (10 * acc + d) cs)"

text \<open>\<open>strconv.ParseUint(s, 10, 32)\<close>; \<open>None\<close> is an error.\<close>

definition ParseUint32 :: "string \<Rightarrow> u32 option" where
  "ParseUint32 s =
     (if s = [] then None
      else case digits_value 0 s of
        None \<Rightarrow> None
      | Some n \<Rightarrow> if n < 2 ^ 32 then Some (of_nat n) else None)"

section \<open>Data\<close>

record container_status =
  cs_container_id :: string
  cs_running :: "int option"

text \<open>What the mapper reads of a pod; a running container has the time it started at.\<close>

record pod =
  pod_name :: string
  pod_uid :: string
  pod_namespace :: string
  pod_node_name :: string
  pod_phase :: string
  pod_labels :: "string \<rightharpoonup> string"
  pod_annotations :: "string \<rightharpoonup> string"
  pod_container_statuses :: "container_status list"

record ContainerInfo =
  ContainerID :: string
  PodName :: string
  PodUID :: string
  Namespace :: string
  NodeName :: string
  AppName :: string
  AppVersion :: string
  ServiceName :: string
  CgroupID :: u64
  ProcessIDs :: "u32 list"
  Labels :: "string \<rightharpoonup> string"
  Annotations :: "string \<rightharpoonup> string"
  CreatedAt :: int
  UpdatedAt :: int

record ContainerMapper =
  cgroupToContainer :: "u64 \<rightharpoonup> ContainerInfo"
  pidToContainer :: "u32 \<rightharpoonup> ContainerInfo"
  containerToCgroup :: "string \<rightharpoonup> u64"
  lastRefresh :: int
  nodeName :: string

definition NewContainerMapper :: "string \<Rightarrow> ContainerMapper" where
  "NewContainerMapper node = \<lparr>cgroupToContainer = Map.empty, pidToContainer = Map.empty,
     containerToCgroup = Map.empty, lastRefresh = 0, nodeName = node\<rparr>"

section \<open>Helper functions\<close>

fun getLabel :: "(string \<rightharpoonup> string) \<Rightarrow> string list \<Rightarrow> string" where
  "getLabel labels [] = []"
| "getLabel labels (key # keys) =
     (case labels key of Some v \<Rightarrow> v | None \<Rightarrow> getLabel labels keys)"

definition extractContainerID :: "string \<Rightarrow> string" where
  "extractContainerID fullID =
     (let parts = Split fullID ''://'' in if length parts > 1 then parts ! 1 else fullID)"

definition simpleHash :: "string \<Rightarrow> u64" where
  "simpleHash s = foldl (\<lambda>h c. h * 31 + of_char c) 0 s"

fun parse_lines :: "string list \<Rightarrow> u32 list" where
  "parse_lines [] = []"
| "parse_lines (l # ls) =
     (let line = TrimSpace l
      in if line = [] then parse_lines ls
         else case ParseUint32 line of None \<Rightarrow> parse_lines ls | Some pid \<Rightarrow> pid # parse_lines ls)"

definition parsePIDsFromProcs :: "string \<Rightarrow> u32 list" where
  "parsePIDsFromProcs data = parse_lines (Split (TrimSpace data) [CHR 0x0A])"

text \<open>\<open>exists\<close> is \<open>os.Stat\<close> without an error: both outcomes lead to the hash.\<close>

definition getCgroupIDForContainer :: "(string \<Rightarrow> bool) \<Rightarrow> string \<Rightarrow> u64" where
  "getCgroupIDForContainer exists containerID =
     (if exists (''/sys/fs/cgroup/memory/docker/'' @ containerID @ ''/memory.usage_in_bytes'')
      then simpleHash containerID else simpleHash containerID)"

definition procs_paths :: "string \<Rightarrow> string list" where
  "procs_paths containerID =
     [''/sys/fs/cgroup/systemd/docker/'' @ containerID @ ''/cgroup.procs'',
      ''/sys/fs/cgroup/systemd/system.slice/docker-'' @ containerID @ ''.scope/cgroup.procs'',
      ''/sys/fs/cgroup/memory/docker/'' @ containerID @ ''/cgroup.procs'']"

fun first_readable :: "(string \<Rightarrow> string option) \<Rightarrow> string list \<Rightarrow> u32 list" where
  "first_readable read [] = []"
| "first_readable read (p # ps) =
     (case read p of Some data \<Rightarrow> parsePIDsFromProcs data | None \<Rightarrow> first_readable read ps)"

definition getPIDsForContainer :: "(string \<Rightarrow> string option) \<Rightarrow> string \<Rightarrow> u32 list" where
  "getPIDsForContainer read containerID = first_readable read (procs_paths containerID)"

section \<open>Building the tables\<close>

record host =
  stat :: "string \<Rightarrow> bool"
  read_file :: "string \<Rightarrow> string option"
  host_now :: int

definition processContainer :: "host \<Rightarrow> pod \<Rightarrow> container_status \<Rightarrow> ContainerMapper \<Rightarrow> ContainerMapper" where
  "processContainer H p cs cm =
     (case cs_running cs of
        None \<Rightarrow> cm
      | Some started \<Rightarrow>
        let cid = extractContainerID (cs_container_id cs);
            cg = getCgroupIDForContainer (stat H) cid;
            pids = getPIDsForContainer (read_file H) cid;
            info = \<lparr>ContainerID = cid, PodName = pod_name p, PodUID = pod_uid p,
              Namespace = pod_namespace p, NodeName = pod_node_name p,
              AppName = getLabel (pod_labels p) [''app'', ''app.kubernetes.io/name'', ''k8s-app''],
              AppVersion = getLabel (pod_labels p) [''version'', ''app.kubernetes.io/version''],
              ServiceName = getLabel (pod_labels p) [''service'', ''app.kubernetes.io/component''],
              CgroupID = cg, ProcessIDs = pids, Labels = pod_labels p,
              Annotations = pod_annotations p, CreatedAt = started, UpdatedAt = host_now H\<rparr>
        in cm\<lparr>cgroupToContainer := (cgroupToContainer cm)(cg \<mapsto> info),
              containerToCgroup := (containerToCgroup cm)(cid \<mapsto> cg),
              pidToContainer := fold (\<lambda>pid m. m(pid \<mapsto> info)) pids (pidToContainer cm)\<rparr>)"

definition processPod :: "host \<Rightarrow> pod \<Rightarrow> ContainerMapper \<Rightarrow> ContainerMapper" where
  "processPod H p cm =
     (if pod_phase p \<noteq> ''Running'' then cm
      else fold (processContainer H p) (pod_container_statuses p) cm)"

text \<open>The client delivers the pods of the node, or an error, which leaves the tables alone.\<close>

definition RefreshContainerMappings ::
  "host \<Rightarrow> string + pod list \<Rightarrow> ContainerMapper \<Rightarrow> string + ContainerMapper" where
  "RefreshContainerMappings H listed cm =
     (case listed of
        Inl err \<Rightarrow> Inl (''failed to list pods: '' @ err)
      | Inr pods \<Rightarrow>
          let cleared = cm\<lparr>cgroupToContainer := Map.empty, pidToContainer := Map.empty,
                containerToCgroup := Map.empty\<rparr>
          in Inr ((fold (processPod H) pods cleared)\<lparr>lastRefresh := host_now H\<rparr>))"

section \<open>Queries\<close>

definition GetContainerByCgroupID :: "ContainerMapper \<Rightarrow> u64 \<Rightarrow> ContainerInfo option" where
  "GetContainerByCgroupID cm cg = cgroupToContainer cm cg"

definition GetContainerByPID :: "ContainerMapper \<Rightarrow> u32 \<Rightarrow> ContainerInfo option" where
  "GetContainerByPID cm pid = pidToContainer cm pid"

definition GetContainerByID :: "ContainerMapper \<Rightarrow> string \<Rightarrow> ContainerInfo option" where
  "GetContainerByID cm cid =
     (case containerToCgroup cm cid of None \<Rightarrow> None | Some cg \<Rightarrow> cgroupToContainer cm cg)"

section \<open>What the tables hold\<close>

text \<open>The containers that the pods list as running.\<close>

definition listed :: "pod list \<Rightarrow> (pod \<times> container_status) set" where
  "listed pods = {(p, cs). p \<in> set pods \<and> pod_phase p = ''Running'' \<and>
     cs \<in> set (pod_container_statuses p) \<and> cs_running cs \<noteq> None}"

text \<open>An entry that \<open>processContainer\<close> makes for a container of the pods.\<close>

definition describes :: "host \<Rightarrow> pod list \<Rightarrow> ContainerInfo \<Rightarrow> bool" where
  "describes H pods info \<longleftrightarrow>
     (\<exists>(p, cs) \<in> listed pods. ContainerID info = extractContainerID (cs_container_id cs) \<and>
        PodName info = pod_name p \<and> Namespace info = pod_namespace p \<and>
        CgroupID info = simpleHash (ContainerID info) \<and>
        ProcessIDs info = getPIDsForContainer (read_file H) (ContainerID info))"

definition tables_ok :: "host \<Rightarrow> pod list \<Rightarrow> ContainerMapper \<Rightarrow> bool" where
  "tables_ok H pods cm \<longleftrightarrow>
     (\<forall>cg info. cgroupToContainer cm cg = Some info \<longrightarrow> describes H pods info \<and> CgroupID info = cg) \<and>
     (\<forall>cid cg. containerToCgroup cm cid = Some cg \<longrightarrow>
        cg = simpleHash cid \<and> cgroupToContainer cm cg \<noteq> None) \<and>
     (\<forall>pid info. pidToContainer cm pid = Some info \<longrightarrow> describes H pods info \<and> pid \<in> set (ProcessIDs info))"

lemma tables_entry:
  "tables_ok H pods cm \<Longrightarrow> cgroupToContainer cm cg = Some info \<Longrightarrow> describes H pods info \<and> CgroupID info = cg"
  by (simp add: tables_ok_def)

lemma tables_pid:
  "tables_ok H pods cm \<Longrightarrow> pidToContainer cm pid = Some info \<Longrightarrow> describes H pods info \<and> pid \<in> set (ProcessIDs info)"
  by (simp add: tables_ok_def)

lemma tables_found:
  "tables_ok H pods cm \<Longrightarrow> containerToCgroup cm cid \<noteq> None \<Longrightarrow>
     \<exists>found. GetContainerByID cm cid = Some found \<and> CgroupID found = simpleHash cid"
  by (fastforce simp: tables_ok_def GetContainerByID_def)

lemma getCgroupID [simp]: "getCgroupIDForContainer exists cid = simpleHash cid"
  by (simp add: getCgroupIDForContainer_def)

lemma fold_put_same: "fold (\<lambda>k m. m(k \<mapsto> v)) ks m k = (if k \<in> set ks then Some v else m k)"
  by (induction ks arbitrary: m) auto

lemma tables_ok_container:
  assumes "tables_ok H pods cm" and "p \<in> set pods" and "pod_phase p = ''Running''"
    and "cs \<in> set (pod_container_statuses p)"
  shows "tables_ok H pods (processContainer H p cs cm)"
proof (cases "cs_running cs")
  case (Some started)
  then have "(p, cs) \<in> listed pods" using assms(2-4) by (simp add: listed_def)
  then have "describes H pods info"
    if "ContainerID info = extractContainerID (cs_container_id cs)" "PodName info = pod_name p"
      "Namespace info = pod_namespace p" "CgroupID info = simpleHash (ContainerID info)"
      "ProcessIDs info = getPIDsForContainer (read_file H) (ContainerID info)" for info
    using that by (auto simp: describes_def)
  with assms(1) Some show ?thesis
    by (auto simp: tables_ok_def processContainer_def Let_def fold_put_same split: if_splits)
qed (use assms in \<open>simp add: processContainer_def\<close>)

lemma tables_ok_pod:
  assumes "tables_ok H pods cm" and "p \<in> set pods"
  shows "tables_ok H pods (processPod H p cm)"
proof -
  have "tables_ok H pods (fold (processContainer H p) css cm)"
    if "pod_phase p = ''Running''" and "set css \<subseteq> set (pod_container_statuses p)" for css
    using that assms by (induction css arbitrary: cm) (auto intro: tables_ok_container)
  with assms show ?thesis by (simp add: processPod_def)
qed

lemma tables_ok_pods: "set ps \<subseteq> set pods \<Longrightarrow> tables_ok H pods cm \<Longrightarrow> tables_ok H pods (fold (processPod H) ps cm)"
  by (induction ps arbitrary: cm) (auto intro: tables_ok_pod)

text \<open>Every running container of the pods is in the tables.\<close>

lemma known_container:
  "containerToCgroup cm cid \<noteq> None \<Longrightarrow> containerToCgroup (processContainer H p cs cm) cid \<noteq> None"
  by (simp add: processContainer_def Let_def split: option.split)

lemma known_fold:
  "containerToCgroup cm cid \<noteq> None \<Longrightarrow> containerToCgroup (fold (processContainer H p) css cm) cid \<noteq> None"
  by (rule fold_invariant [where Q = "\<lambda>_. True"]) (simp_all only: known_container simp_thms)

lemma known_pod: "containerToCgroup cm cid \<noteq> None \<Longrightarrow> containerToCgroup (processPod H p cm) cid \<noteq> None"
  by (cases "pod_phase p = ''Running''") (simp_all only: processPod_def known_fold if_True if_False not_True_eq_False simp_thms)

lemma known_pods:
  "containerToCgroup cm cid \<noteq> None \<Longrightarrow> containerToCgroup (fold (processPod H) ps cm) cid \<noteq> None"
  by (rule fold_invariant [where Q = "\<lambda>_. True"]) (simp_all only: known_pod simp_thms)

lemma fold_makes_known:
  "cs \<in> set css \<Longrightarrow> cs_running cs \<noteq> None \<Longrightarrow>
     containerToCgroup (fold (processContainer H p) css cm) (extractContainerID (cs_container_id cs)) \<noteq> None"
proof (induction css arbitrary: cm)
  case (Cons c css)
  have "containerToCgroup (processContainer H p cs cm) (extractContainerID (cs_container_id cs)) \<noteq> None"
    using Cons.prems(2) by (auto simp: processContainer_def Let_def)
  from known_fold [OF this] Cons show ?case by auto
qed simp

lemma pods_make_known:
  "(p, cs) \<in> listed ps \<Longrightarrow>
     containerToCgroup (fold (processPod H) ps cm) (extractContainerID (cs_container_id cs)) \<noteq> None"
proof (induction ps arbitrary: cm)
  case (Cons q ps)
  show ?case
  proof (cases "p = q")
    case True
    then have "containerToCgroup (processPod H q cm) (extractContainerID (cs_container_id cs)) \<noteq> None"
      using Cons.prems fold_makes_known [of cs "pod_container_statuses q" H q cm]
      by (auto simp: listed_def processPod_def)
    from known_pods [OF this] show ?thesis by simp
  next
    case False
    with Cons.prems have "(p, cs) \<in> listed ps" by (auto simp: listed_def)
    with Cons.IH show ?thesis by simp
  qed
qed (simp add: listed_def)

lemma refresh_tables:
  assumes "RefreshContainerMappings H (Inr pods) cm = Inr cm'"
  shows "tables_ok H pods cm'"
    and "(p, cs) \<in> listed pods \<Longrightarrow> containerToCgroup cm' (extractContainerID (cs_container_id cs)) \<noteq> None"
proof -
  let ?c = "cm\<lparr>cgroupToContainer := Map.empty, pidToContainer := Map.empty, containerToCgroup := Map.empty\<rparr>"
  have cm': "cm' = (fold (processPod H) pods ?c)\<lparr>lastRefresh := host_now H\<rparr>"
    using assms by (simp add: RefreshContainerMappings_def Let_def)
  have "tables_ok H pods ?c" by (simp add: tables_ok_def)
  then have "tables_ok H pods (fold (processPod H) pods ?c)" by (intro tables_ok_pods) simp_all
  then show "tables_ok H pods cm'" unfolding cm' by (simp add: tables_ok_def)
  show "(p, cs) \<in> listed pods \<Longrightarrow> containerToCgroup cm' (extractContainerID (cs_container_id cs)) \<noteq> None"
    unfolding cm' using pods_make_known by simp
qed

section \<open>Parsing process ids\<close>

text \<open>The kernel prints \<open>cgroup.procs\<close> as decimal numbers, each on a line of its own.\<close>

definition digit_char :: "nat \<Rightarrow> char" where
  "digit_char d = char_of (48 + d)"

fun decimal :: "nat \<Rightarrow> string" where
  "decimal n = (if n < 10 then [digit_char n] else decimal (n div 10) @ [digit_char (n mod 10)])"

declare decimal.simps [simp del]

definition procs_text :: "u32 list \<Rightarrow> string" where
  "procs_text pids = concat (map (\<lambda>pid. decimal (unat pid) @ [CHR 0x0A]) pids)"

lemma digit_char_value: "d < 10 \<Longrightarrow> digit_value (digit_char d) = Some d"
  by (simp add: digit_value_def digit_char_def Let_def)

lemma digit_char_no_space: "d < 10 \<Longrightarrow> \<not> is_space (digit_char d)"
  by (simp add: is_space_def digit_char_def)

lemma newline_space: "is_space (CHR 0x0A)"
  by (simp add: is_space_def of_char_def)

lemma digits_value_snoc:
  "digits_value acc (s @ [c]) =
     (case digits_value acc s of None \<Rightarrow> None
      | Some n \<Rightarrow> map_option (\<lambda>d. 10 * n + d) (digit_value c))"
  by (induction s arbitrary: acc) (auto split: option.split)

lemma digits_value_decimal: "digits_value 0 (decimal n) = Some n"
proof (induction n rule: decimal.induct)
  case (1 n)
  show ?case
  proof (cases "n < 10")
    case True
    then show ?thesis by (subst decimal.simps) (simp add: digit_char_value)
  next
    case False
    with 1 show ?thesis by (subst decimal.simps) (simp add: digits_value_snoc digit_char_value)
  qed
qed

lemma decimal_digits: "c \<in> set (decimal n) \<Longrightarrow> \<not> is_space c"
proof (induction n rule: decimal.induct)
  case (1 n)
  then show ?case
    by (subst (asm) decimal.simps) (auto simp: digit_char_no_space split: if_splits)
qed

lemma decimal_not_empty [simp]: "decimal n \<noteq> []"
  by (subst decimal.simps) simp

lemma decimal_ends [simp]: "\<not> is_space (hd (decimal n))" "\<not> is_space (last (decimal n))"
  by (simp_all add: decimal_digits [OF hd_in_set] decimal_digits [OF last_in_set])

lemma parse_decimal: "ParseUint32 (decimal (unat pid)) = Some pid" for pid :: u32
proof -
  have "unat pid < 2 ^ 32" using unsigned_less [of pid] by simp
  then show ?thesis by (simp add: ParseUint32_def digits_value_decimal)
qed

lemma trim_solid: "s = [] \<or> \<not> is_space (hd s) \<and> \<not> is_space (last s) \<Longrightarrow> TrimSpace s = s"
proof -
  assume solid: "s = [] \<or> \<not> is_space (hd s) \<and> \<not> is_space (last s)"
  then have "dropWhile is_space s = s" by (auto simp: dropWhile_eq_self_iff)
  moreover have "dropWhile is_space (rev s) = rev s" using solid by (auto simp: dropWhile_eq_self_iff hd_rev)
  ultimately show ?thesis by (simp add: TrimSpace_def)
qed

lemma trim_newline: "s \<noteq> [] \<Longrightarrow> \<not> is_space (hd s) \<Longrightarrow> TrimSpace (s @ [CHR 0x0A]) = TrimSpace s"
  by (cases s) (simp_all add: TrimSpace_def newline_space)

lemma trim_decimal: "TrimSpace (decimal n) = decimal n"
  by (rule trim_solid) simp

text \<open>Splitting at a single character.\<close>

lemma split_go_end: "c \<notin> set xs \<Longrightarrow> split_go [c] acc xs 0 = [rev acc @ xs]"
  by (induction xs arbitrary: acc) auto

lemma split_go_at:
  "c \<notin> set xs \<Longrightarrow> split_go [c] acc (xs @ c # ys) 0 = (rev acc @ xs) # split_go [c] [] ys 0"
  by (induction xs arbitrary: acc) auto

lemma split_lines:
  "CHR 0x0A \<notin> set last_line \<Longrightarrow>
     Split (procs_text pids @ last_line) [CHR 0x0A] = map (\<lambda>pid. decimal (unat pid)) pids @ [last_line]"
proof (induction pids)
  case Nil
  then show ?case by (simp add: procs_text_def Split_def split_go_end)
next
  case (Cons pid pids)
  have "CHR 0x0A \<notin> set (decimal (unat pid))" using decimal_digits newline_space by blast
  then have "Split (procs_text (pid # pids) @ last_line) [CHR 0x0A] =
      decimal (unat pid) # Split (procs_text pids @ last_line) [CHR 0x0A]"
    by (simp add: procs_text_def Split_def split_go_at)
  with Cons show ?case by simp
qed

lemma parse_lines_decimal: "parse_lines (map (\<lambda>pid. decimal (unat pid)) pids) = pids"
  by (induction pids) (simp_all add: trim_decimal parse_decimal)

lemma procs_text_trim: "TrimSpace (procs_text (pids @ [pid])) = procs_text pids @ decimal (unat pid)"
proof -
  let ?s = "procs_text pids @ decimal (unat pid)"
  have hd: "?s \<noteq> []" "\<not> is_space (hd ?s)"
    by (cases pids; simp add: procs_text_def)+
  have "\<not> is_space (last ?s)" by simp
  with hd have "TrimSpace ?s = ?s" by (intro trim_solid) simp
  with trim_newline [OF hd] show ?thesis by (simp add: procs_text_def)
qed

section \<open>Properties\<close>

text \<open>
  Reading back a \<open>cgroup.procs\<close> file gives the process ids that the kernel wrote into
  it, whatever their number.
\<close>

theorem procs_read_back: "parsePIDsFromProcs (procs_text pids) = pids"
proof (cases pids rule: rev_cases)
  case Nil
  then show ?thesis
    by (simp add: parsePIDsFromProcs_def procs_text_def TrimSpace_def Split_def)
next
  case (snoc ps pid)
  have "CHR 0x0A \<notin> set (decimal (unat pid))" using decimal_digits newline_space by blast
  then have "Split (TrimSpace (procs_text pids)) [CHR 0x0A] = map (\<lambda>pid. decimal (unat pid)) pids"
    by (simp add: snoc procs_text_trim split_lines)
  then show ?thesis by (simp add: parsePIDsFromProcs_def parse_lines_decimal)
qed

text \<open>
  Property C37. After a refresh the tables describe the pods: every entry belongs to a container that
  the pods list as running, under the hash of its id, with the process ids of its file; every id
  leads to an entry; and every running container is found by its id.
\<close>

theorem refresh_describes_pods:
  assumes "RefreshContainerMappings H (Inr pods) cm = Inr cm'"
  shows "(GetContainerByCgroupID cm' cg = Some info \<longrightarrow> describes H pods info \<and> CgroupID info = cg) \<and>
    (GetContainerByPID cm' pid = Some info \<longrightarrow> describes H pods info \<and> pid \<in> set (ProcessIDs info)) \<and>
    ((p, cs) \<in> listed pods \<longrightarrow>
       (\<exists>found. GetContainerByID cm' (extractContainerID (cs_container_id cs)) = Some found \<and>
          CgroupID found = simpleHash (extractContainerID (cs_container_id cs))))"
proof -
  note ok = refresh_tables(1) [OF assms]
  have "\<exists>found. GetContainerByID cm' (extractContainerID (cs_container_id cs)) = Some found \<and>
      CgroupID found = simpleHash (extractContainerID (cs_container_id cs))" if l: "(p, cs) \<in> listed pods"
    using tables_found [OF ok refresh_tables(2) [OF assms l]] .
  with tables_entry [OF ok] tables_pid [OF ok] show ?thesis
    by (simp only: GetContainerByCgroupID_def GetContainerByPID_def) blast
qed

text \<open>A pod with one running container, on a host whose files cannot be read.\<close>

definition pod0 :: pod where
  "pod0 = \<lparr>pod_name = ''web'', pod_uid = ''u1'', pod_namespace = ''shop'', pod_node_name = ''n1'',
     pod_phase = ''Running'', pod_labels = [''app'' \<mapsto> ''web''], pod_annotations = Map.empty,
     pod_container_statuses = [\<lparr>cs_container_id = ''containerd://ab'', cs_running = Some 7\<rparr>]\<rparr>"

definition host0 :: host where
  "host0 = \<lparr>stat = (\<lambda>_. False), read_file = (\<lambda>_. None), host_now = 9\<rparr>"

lemma extract_runtime_prefix: "extractContainerID ''containerd://ab'' = ''ab''"
  by (simp add: extractContainerID_def Split_def)

theorem refresh_describes_pods_witness:
  "\<exists>cm' found. RefreshContainerMappings host0 (Inr [pod0]) (NewContainerMapper ''n1'') = Inr cm' \<and>
     GetContainerByID cm' ''ab'' = Some found \<and> CgroupID found = simpleHash ''ab''"
proof -
  obtain cm' where cm': "RefreshContainerMappings host0 (Inr [pod0]) (NewContainerMapper ''n1'') = Inr cm'"
    by (simp add: RefreshContainerMappings_def)
  have "(pod0, \<lparr>cs_container_id = ''containerd://ab'', cs_running = Some 7\<rparr>) \<in> listed [pod0]"
    by (simp add: listed_def pod0_def)
  with refresh_describes_pods [OF cm', where p = pod0
      and cs = "\<lparr>cs_container_id = ''containerd://ab'', cs_running = Some 7\<rparr>"] cm'
  show ?thesis by (auto simp: extract_runtime_prefix)
qed

end
