(* ===== verification/Collectors.thy ===== *)
theory Collectors
  imports Map_Values Float64 Container_Mapper
begin

text \<open>
  The collectors in Go (\<^verbatim>\<open>*_metrics.go\<close>, \<^verbatim>\<open>*_tracker.go\<close>, \<^verbatim>\<open>security_monitor.go\<close>): every few
  seconds each iterates over the metrics map of its program, unmarshals the values, looks the
  control group up in the container table and converts the counters to a message. Messages are the
  structures of \<^verbatim>\<open>proto/telemetry/ebpf.proto\<close> with the fields that the collectors set; what they leave
  out is not shown. Parameters are the unmarshalling function \<open>um\<close>, the order in which the map is
  iterated (that of the entries), and the clock, in nanoseconds.
\<close>

section \<open>Iterating over a map\<close>

text \<open>
  \<open>iter.Next\<close> stops at the first value that cannot be unmarshalled; \<open>iter.Err\<close> then reports it. The
  results are the entries seen and whether there was an error.
\<close>

fun iterate :: "('b \<Rightarrow> 'm option) \<Rightarrow> ('k \<times> 'b) list \<Rightarrow> ('k \<times> 'm) list \<times> bool" where
  "iterate decode [] = ([], False)"
| "iterate decode ((k, b) # es) =
     (case decode b of
        None \<Rightarrow> ([], True)
      | Some m \<Rightarrow> ((k, m) # fst (iterate decode es), snd (iterate decode es)))"

lemma iterate_none:
  "list_all (\<lambda>(k, b). decode b = None) es \<Longrightarrow> iterate decode es = ([], es \<noteq> [])"
  by (cases es) auto

text \<open>The bytes of the entries of a map of counters, as the kernel hands them out.\<close>

definition raw :: "ctype \<Rightarrow> ('v \<Rightarrow> u64 list) \<Rightarrow> ('k, 'v) bpf_map \<Rightarrow> ('k \<times> u8 list) list" where
  "raw ct words m = map (\<lambda>(k, v). (k, stored ct (words v) (replicate (size_of ct) 0))) (elems m)"

text \<open>The loop of \<open>collectAndEmitMetrics\<close>: groups without a container are skipped.\<close>

definition emit ::
  "('m \<Rightarrow> ContainerInfo \<Rightarrow> 'r option) \<Rightarrow> ContainerMapper \<Rightarrow> (u64 \<times> 'm) list \<times> bool \<Rightarrow> 'r list \<times> bool" where
  "emit convert cm it =
     (List.map_filter (\<lambda>(cg, m).
        case GetContainerByCgroupID cm cg of None \<Rightarrow> None | Some info \<Rightarrow> convert m info) (fst it), snd it)"

context counters_value
begin

text \<open>A map of such values is seen whole and without an error.\<close>

lemma iterate_raw:
  assumes "unmarshaller um"
  shows "iterate (decoded um (replicate n (Go_Num 8)) of_words) (raw ct words m) = (elems m, False)"
proof -
  have "iterate (decoded um (replicate n (Go_Num 8)) of_words)
      (map (\<lambda>(k, v). (k, stored ct (words v) (replicate (size_of ct) 0))) es) = (es, False)" for es :: "('k \<times> 'v) list"
    by (induction es) (auto simp: reads_back [OF assms])
  then show ?thesis by (simp add: raw_def)
qed

end

section \<open>Messages\<close>

record LatencyHistogram =
  P50 :: rat
  P90 :: rat
  P95 :: rat
  P99 :: rat
  P999 :: rat
  Mean :: rat
  Max :: rat
  Min :: rat

definition no_latency :: LatencyHistogram where
  "no_latency = \<lparr>P50 = 0, P90 = 0, P95 = 0, P99 = 0, P999 = 0, Mean = 0, Max = 0, Min = 0\<rparr>"

record pb_HTTPMetrics =
  RequestCount :: u64
  ErrorCount :: u64
  ErrorRate :: rat
  Latency :: LatencyHistogram
  StatusCodes :: "u32 \<rightharpoonup> u64"
  Methods :: "u8 list \<rightharpoonup> u64"
  ActiveConnections :: u64
  ConnectionErrors :: u64
  HttpWindow :: "int \<times> int"

record pb_GCMetrics =
  GcCount :: u64
  GcTimeUs :: u64
  BytesCollected :: u64
  GcOverheadPercent :: rat

record pb_MemoryPatterns =
  AllocCount :: u64
  FreeCount :: u64
  BytesAllocated :: u64
  BytesFreed :: u64
  NetAllocated :: u64
  SmallAllocs :: u64
  MediumAllocs :: u64
  LargeAllocs :: u64
  HugeAllocs :: u64
  AvgAllocSize :: rat
  PageFaults :: u64
  MajorPageFaults :: u64
  FragmentationRatio :: rat
  Gc :: "pb_GCMetrics option"
  MemoryWindow :: "int \<times> int"

record pb_CPUPatterns =
  UserTimeUs :: u64
  SystemTimeUs :: u64
  IdleTimeUs :: u64
  CpuUtilization :: rat
  ContextSwitches :: u64
  VoluntarySwitches :: u64
  InvoluntarySwitches :: u64
  RunqueueLatencyUs :: rat
  ActiveThreads :: u32
  BlockedThreads :: u32
  CpuWindow :: "int \<times> int"

record pb_IOSizeHistogram =
  SmallIo :: u64
  MediumIo :: u64
  LargeIo :: u64
  HugeIo :: u64
  AvgIoSize :: rat
  MaxIoSize :: rat

record pb_FileSystemMetrics =
  ReadOps :: u64
  WriteOps :: u64
  OpenOps :: u64
  CloseOps :: u64
  SyncOps :: u64
  BytesRead :: u64
  BytesWritten :: u64
  ReadLatency :: LatencyHistogram
  WriteLatency :: LatencyHistogram
  OpenLatency :: LatencyHistogram
  ReadBandwidthMbps :: rat
  WriteBandwidthMbps :: rat
  DiskUtilization :: rat
  IoSizes :: pb_IOSizeHistogram
  IoErrors :: u64
  PermissionErrors :: u64
  FsWindow :: "int \<times> int"

record pb_SecurityMetrics =
  TotalSyscalls :: u64
  SyscallCounts :: "string \<rightharpoonup> u64"
  PrivilegeEscalationAttempts :: u64
  SuspiciousPatterns :: u64
  SyscallRatePerSecond :: rat
  HighSyscallRateDetected :: bool
  MemoryLimitViolations :: u64
  CpuThrottlingEvents :: u64
  FdLimitViolations :: u64
  ProcessLimitViolations :: u64
  SuspiciousConnections :: u64
  PortScanningAttempts :: u64
  BlockedOutboundConnections :: u64
  NewProcesses :: u64
  SuspiciousProcesses :: u64
  SetuidExecutions :: u64
  ContainerEscapeAttempts :: u64
  UnauthorizedFileAccess :: u64
  SensitiveFileAccess :: u64
  SystemFileModifications :: u64
  SecurityWindow :: "int \<times> int"

text \<open>A constant of the source as a \<open>float64\<close>, and a window that ends now.\<close>

abbreviation "fconst q \<equiv> rnd q"

definition window :: "int \<Rightarrow> int \<Rightarrow> int \<times> int" where
  "window seconds now = (now - seconds * 1000000000, now)"

section \<open>HTTP\<close>

definition getErrorCountForStatus :: "u32 \<Rightarrow> u64" where
  "getErrorCountForStatus code = (if code \<ge> 400 then 1 else 0)"

definition getErrorRateForStatus :: "u32 \<Rightarrow> rat" where
  "getErrorRateForStatus code = (if code \<ge> 400 then 1 else 0)"

definition nullTerminatedBytesToString :: "u8 list \<Rightarrow> u8 list" where
  "nullTerminatedBytesToString b = takeWhile (\<lambda>c. c \<noteq> 0) b"

definition http_event_message :: "ContainerMapper \<Rightarrow> int \<Rightarrow> http_event \<Rightarrow> pb_HTTPMetrics option" where
  "http_event_message cm now ev =
     (case GetContainerByCgroupID cm (Http_Metrics.ev_cgroup_id ev) of
        None \<Rightarrow> None
      | Some _ \<Rightarrow>
          let l = float_of (Http_Metrics.ev_latency_us ev);
              method = nullTerminatedBytesToString (ev_method ev)
          in Some \<lparr>RequestCount = 1, ErrorCount = getErrorCountForStatus (ev_status_code ev),
               ErrorRate = getErrorRateForStatus (ev_status_code ev),
               Latency = \<lparr>P50 = l, P90 = l, P95 = l, P99 = l, P999 = l, Mean = l, Max = l, Min = l\<rparr>,
               StatusCodes = [ev_status_code ev \<mapsto> 1],
               Methods = (if method \<noteq> [] then [method \<mapsto> 1] else Map.empty),
               ActiveConnections = 0, ConnectionErrors = 0, HttpWindow = (now, now)\<rparr>)"

definition http_message :: "int \<Rightarrow> http_metrics \<Rightarrow> ContainerInfo \<Rightarrow> pb_HTTPMetrics option" where
  "http_message now m info =
     (if request_count m = 0 then None
      else
        let avg = fdiv (float_of (latency_sum m)) (float_of (request_count m))
        in Some \<lparr>RequestCount = request_count m, ErrorCount = error_count m,
             ErrorRate = fdiv (float_of (error_count m)) (float_of (request_count m)),
             Latency = no_latency\<lparr>Mean := avg, Max := float_of (latency_max m),
               Min := float_of (latency_min m), P50 := avg, P90 := fmul avg (fconst (12 / 10)),
               P95 := fmul avg (fconst (15 / 10)), P99 := float_of (latency_max m)\<rparr>,
             StatusCodes = [200 \<mapsto> status_2xx m, 300 \<mapsto> status_3xx m, 400 \<mapsto> status_4xx m,
               500 \<mapsto> status_5xx m],
             Methods = Map.empty, ActiveConnections = 0, ConnectionErrors = 0, HttpWindow = (now, now)\<rparr>)"

definition collect_http ::
  "(gotype list \<Rightarrow> u8 list \<Rightarrow> u8 list list option) \<Rightarrow> ContainerMapper \<Rightarrow> int \<Rightarrow> http_state \<Rightarrow>
     pb_HTTPMetrics list \<times> bool" where
  "collect_http um cm now s =
     emit (http_message now) cm
       (iterate (decoded um HTTPMetrics http_of_words)
          (raw http_metrics_ct http_words (http_metrics_map s)))"

section \<open>Memory\<close>

definition getGCMetrics ::
  "(gotype list \<Rightarrow> u8 list \<Rightarrow> u8 list list option) \<Rightarrow> mem_state \<Rightarrow> ContainerInfo \<Rightarrow> gc_metrics option" where
  "getGCMetrics um s info =
     (case map_lookup (gc_metrics_map s) (CgroupID info) of
        None \<Rightarrow> None
      | Some gc \<Rightarrow> decoded um GCMetrics gc_of_words
          (stored gc_metrics_ct (gc_words gc) (replicate (size_of gc_metrics_ct) 0)))"

text \<open>\<open>total\<close> is 60 seconds, whatever the time of the last update.\<close>

definition gc_message :: "memory_metrics \<Rightarrow> gc_metrics \<Rightarrow> pb_GCMetrics" where
  "gc_message m gc =
     (let total = Memory_Tracker.last_update m - (Memory_Tracker.last_update m - 60 * 1000000000);
          overhead = (if gc_time_ns gc > 0 \<and> Memory_Tracker.last_update m > 0 \<and> total > 0
            then fmul (fdiv (float_of (gc_time_ns gc)) (float_of total)) 100 else 0)
      in \<lparr>GcCount = gc_count gc, GcTimeUs = gc_time_ns gc div 1000,
          BytesCollected = bytes_collected gc, GcOverheadPercent = overhead\<rparr>)"

definition memory_message ::
  "(ContainerInfo \<Rightarrow> gc_metrics option) \<Rightarrow> int \<Rightarrow> memory_metrics \<Rightarrow> ContainerInfo \<Rightarrow> pb_MemoryPatterns option" where
  "memory_message gc now m info =
     (if alloc_count m = 0 then None
      else Some \<lparr>AllocCount = alloc_count m, FreeCount = free_count m,
        BytesAllocated = bytes_allocated m, BytesFreed = bytes_freed m,
        NetAllocated = net_allocated m, SmallAllocs = small_allocs m,
        MediumAllocs = medium_allocs m, LargeAllocs = large_allocs m, HugeAllocs = huge_allocs m,
        AvgAllocSize = (if alloc_count m > 0
          then fdiv (float_of (bytes_allocated m)) (float_of (alloc_count m)) else 0),
        PageFaults = page_faults m, MajorPageFaults = major_page_faults m,
        FragmentationRatio = (if bytes_allocated m > 0
          then fdiv (float_of (net_allocated m)) (float_of (bytes_allocated m)) else 0),
        Gc = map_option (gc_message m) (gc info), MemoryWindow = window 15 now\<rparr>)"

definition collect_memory ::
  "(gotype list \<Rightarrow> u8 list \<Rightarrow> u8 list list option) \<Rightarrow> ContainerMapper \<Rightarrow> int \<Rightarrow> mem_state \<Rightarrow>
     pb_MemoryPatterns list \<times> bool" where
  "collect_memory um cm now s =
     emit (memory_message (getGCMetrics um s) now) cm
       (iterate (decoded um MemoryMetrics memory_of_words)
          (raw memory_metrics_ct memory_words (memory_metrics_map s)))"

section \<open>CPU\<close>

text \<open>
  The structure of \<^verbatim>\<open>cpu_tracker.go\<close> has fields that the C structure does not have, so it is a record of
  its own. \<open>CPUUtilization\<close> is a \<open>float64\<close> that is not used.
\<close>

record CPUMetrics_value =
  UserTimeUS :: u64
  SystemTimeUS :: u64
  IdleTimeUS :: u64
  CPUUtilization :: u64
  ContextSwitchesC :: u64
  VoluntarySwitchesC :: u64
  InvoluntarySwitchesC :: u64
  RunqueueLatencyUS :: u64
  ActiveThreadsC :: u32
  BlockedThreadsC :: u32
  LastUpdateC :: u64

definition CPUMetrics_of_words :: "u64 list \<Rightarrow> CPUMetrics_value" where
  "CPUMetrics_of_words ws = CPUMetrics_value.make (ws ! 0) (ws ! 1) (ws ! 2) (ws ! 3) (ws ! 4) (ws ! 5)
     (ws ! 6) (ws ! 7) (ucast (ws ! 8)) (ucast (ws ! 9)) (ws ! 10)"

definition cpu_raw :: "cpu_state \<Rightarrow> (u64 \<times> u8 list) list" where
  "cpu_raw s = map (\<lambda>(cg, c). (cg, c_store cpu_metrics_ct
     (map (le_bytes 8) [user_time_ns c, system_time_ns c, context_switches c, voluntary_switches c,
        involuntary_switches c, runqueue_latency_sum c, runqueue_samples c] @
      [le_bytes 4 (ucast (active_threads c)), le_bytes 4 (ucast (blocked_threads c)),
       le_bytes 8 (Cpu_Tracker.last_update c)])
     (replicate (size_of cpu_metrics_ct) 0))) (elems (cpu_metrics_map s))"

definition cpu_message :: "int \<Rightarrow> CPUMetrics_value \<Rightarrow> ContainerInfo \<Rightarrow> pb_CPUPatterns option" where
  "cpu_message now m info =
     (if ContextSwitchesC m = 0 then None
      else
        let total = UserTimeUS m + SystemTimeUS m + IdleTimeUS m
        in Some \<lparr>UserTimeUs = UserTimeUS m, SystemTimeUs = SystemTimeUS m, IdleTimeUs = IdleTimeUS m,
          CpuUtilization = (if total > 0
            then fmul (fdiv (float_of (UserTimeUS m + SystemTimeUS m)) (float_of total)) 100 else 0),
          ContextSwitches = ContextSwitchesC m, VoluntarySwitches = VoluntarySwitchesC m,
          InvoluntarySwitches = InvoluntarySwitchesC m,
          RunqueueLatencyUs = float_of (RunqueueLatencyUS m), ActiveThreads = ActiveThreadsC m,
          BlockedThreads = BlockedThreadsC m, CpuWindow = window 10 now\<rparr>)"

definition collect_cpu ::
  "(gotype list \<Rightarrow> u8 list \<Rightarrow> u8 list list option) \<Rightarrow> ContainerMapper \<Rightarrow> int \<Rightarrow> cpu_state \<Rightarrow>
     pb_CPUPatterns list \<times> bool" where
  "collect_cpu um cm now s =
     emit (cpu_message now) cm (iterate (decoded um CPUMetrics CPUMetrics_of_words) (cpu_raw s))"

section \<open>Files\<close>

definition average :: "u64 \<Rightarrow> u64 \<Rightarrow> rat" where
  "average s n = (if n > 0 then fdiv (float_of s) (float_of n) else 0)"

definition estimated_latency :: "rat \<Rightarrow> LatencyHistogram" where
  "estimated_latency avg = no_latency\<lparr>Mean := avg, P50 := fmul avg (fconst (8 / 10)),
     P90 := fmul avg (fconst (15 / 10)), P95 := fmul avg 2, P99 := fmul avg 3\<rparr>"

definition estimated_sizes :: "fs_metrics \<Rightarrow> pb_IOSizeHistogram" where
  "estimated_sizes m =
     (let total_io = bytes_read m + bytes_written m; total_ops = read_ops m + write_ops m;
          avg = average total_io total_ops
      in \<lparr>SmallIo = total_ops * 40 div 100, MediumIo = total_ops * 35 div 100,
          LargeIo = total_ops * 20 div 100, HugeIo = total_ops * 5 div 100, AvgIoSize = avg,
          MaxIoSize = fmul avg 10\<rparr>)"

definition bandwidth :: "u64 \<Rightarrow> rat" where
  "bandwidth bytes = fdiv (fdiv (float_of bytes) (1024 * 1024)) 10"

definition fs_message :: "int \<Rightarrow> fs_metrics \<Rightarrow> ContainerInfo \<Rightarrow> pb_FileSystemMetrics option" where
  "fs_message now m info =
     (if read_ops m = 0 \<and> write_ops m = 0 \<and> open_ops m = 0 then None
      else
        let read_bw = bandwidth (bytes_read m); write_bw = bandwidth (bytes_written m)
        in Some \<lparr>ReadOps = read_ops m, WriteOps = write_ops m, OpenOps = open_ops m,
          CloseOps = close_ops m, SyncOps = sync_ops m, BytesRead = bytes_read m,
          BytesWritten = bytes_written m,
          ReadLatency = estimated_latency (average (read_latency_total m) (read_ops m)),
          WriteLatency = estimated_latency (average (write_latency_total m) (write_ops m)),
          OpenLatency = estimated_latency (average (open_latency_total m) (open_ops m)),
          ReadBandwidthMbps = read_bw, WriteBandwidthMbps = write_bw,
          DiskUtilization = fdiv (fadd read_bw write_bw) 100, IoSizes = estimated_sizes m,
          IoErrors = io_errors m, PermissionErrors = permission_errors m, FsWindow = window 10 now\<rparr>)"

definition collect_fs ::
  "(gotype list \<Rightarrow> u8 list \<Rightarrow> u8 list list option) \<Rightarrow> ContainerMapper \<Rightarrow> int \<Rightarrow> fs_state \<Rightarrow>
     pb_FileSystemMetrics list \<times> bool" where
  "collect_fs um cm now s =
     emit (fs_message now) cm
       (iterate (decoded um FSMetrics fs_of_words) (raw fs_metrics_ct fs_words (fs_metrics_map s)))"

section \<open>Security\<close>

definition stats_raw :: "sec_state \<Rightarrow> (u32 \<times> u8 list) list" where
  "stats_raw s = map (\<lambda>(nr, st). (nr, c_store syscall_stats_ct
     (map (le_bytes 8) [st_count st, st_last_seen st, st_avg_frequency st] @ [[st_is_suspicious st]])
     (replicate (size_of syscall_stats_ct) 0))) (elems (syscall_stats_map s))"

definition getSyscallCounts ::
  "(gotype list \<Rightarrow> u8 list \<Rightarrow> u8 list list option) \<Rightarrow> sec_state \<Rightarrow> string \<rightharpoonup> u64" where
  "getSyscallCounts um s =
     fold (\<lambda>(nr, ws) m. m(''syscall_'' @ decimal (unat nr) \<mapsto> ws ! 0))
       (fst (iterate (decoded um SyscallStats id) (stats_raw s))) Map.empty"

definition security_message ::
  "(string \<rightharpoonup> u64) \<Rightarrow> int \<Rightarrow> security_metrics \<Rightarrow> ContainerInfo \<Rightarrow> pb_SecurityMetrics option" where
  "security_message counts now m info =
     (if total_syscalls m = 0 \<and> new_processes m = 0 then None
      else
        let rate = fdiv (float_of (total_syscalls m)) 30
        in Some \<lparr>TotalSyscalls = total_syscalls m, SyscallCounts = counts,
          PrivilegeEscalationAttempts = privilege_escalation_attempts m,
          SuspiciousPatterns = suspicious_syscalls m, SyscallRatePerSecond = rate,
          HighSyscallRateDetected = (rate > 1000), MemoryLimitViolations = memory_violations m,
          CpuThrottlingEvents = cpu_violations m, FdLimitViolations = fd_violations m,
          ProcessLimitViolations = process_violations m,
          SuspiciousConnections = suspicious_connections m,
          PortScanningAttempts = port_scan_attempts m,
          BlockedOutboundConnections = blocked_connections m, NewProcesses = new_processes m,
          SuspiciousProcesses = suspicious_processes m, SetuidExecutions = setuid_executions m,
          ContainerEscapeAttempts = container_escape_attempts m,
          UnauthorizedFileAccess = unauthorized_file_access m,
          SensitiveFileAccess = sensitive_file_access m,
          SystemFileModifications = system_file_modifications m, SecurityWindow = window 30 now\<rparr>)"

definition collect_security ::
  "(gotype list \<Rightarrow> u8 list \<Rightarrow> u8 list list option) \<Rightarrow> ContainerMapper \<Rightarrow> int \<Rightarrow> sec_state \<Rightarrow>
     pb_SecurityMetrics list \<times> bool" where
  "collect_security um cm now s =
     emit (security_message (getSyscallCounts um s) now) cm
       (iterate (decoded um SecurityMetrics security_of_words)
          (raw security_metrics_ct security_words (security_metrics_map s)))"

end
