(* ===== verification/Reports.thy ===== *)
theory Reports
  imports Collectors
begin

text \<open>
  What reaches user space: the lemmas and properties that span a program in C and its collector in Go.
  A message is traced back to the entry it was made from, and the entry to the run of the program.
\<close>

section \<open>Messages and entries\<close>

text \<open>A container table in which the control group 0 or 1 is a container.\<close>

definition mapper_of :: "u64 \<Rightarrow> ContainerMapper" where
  "mapper_of cg = (NewContainerMapper ''n1'')\<lparr>cgroupToContainer :=
     [cg \<mapsto> \<lparr>ContainerID = ''ab'', PodName = ''web'', PodUID = ''u1'', Namespace = ''shop'', NodeName = ''n1'',
        AppName = ''web'', AppVersion = [], ServiceName = [], CgroupID = cg, ProcessIDs = [],
        Labels = Map.empty, Annotations = Map.empty, CreatedAt = 0, UpdatedAt = 0\<rparr>]\<rparr>"

lemma mapper_of_known: "GetContainerByCgroupID (mapper_of cg) cg \<noteq> None"
  by (simp add: mapper_of_def GetContainerByCgroupID_def)

lemma emit_set:
  "r \<in> set (fst (emit convert cm it)) \<longleftrightarrow>
     (\<exists>cg m info. (cg, m) \<in> set (fst it) \<and> GetContainerByCgroupID cm cg = Some info \<and> convert m info = Some r)"
  by (force simp: emit_def List.map_filter_def split: option.splits)

lemma emit_err [simp]: "snd (emit convert cm it) = snd it"
  by (simp add: emit_def)

lemma entry_lookup: "map_wf m \<Longrightarrow> (k, v) \<in> set (elems m) \<longleftrightarrow> map_lookup m k = Some v"
  by (simp add: map_wf_def map_lookup_def)

lemma collect_http_entries:
  assumes "unmarshaller um"
  shows "collect_http um cm now s = emit (http_message now) cm (elems (http_metrics_map s), False)"
  by (simp add: collect_http_def HTTPMetrics_def http_value.iterate_raw [OF assms])

lemma collect_memory_entries:
  assumes "unmarshaller um"
  shows "collect_memory um cm now s =
    emit (memory_message (getGCMetrics um s) now) cm (elems (memory_metrics_map s), False)"
  by (simp add: collect_memory_def MemoryMetrics_def memory_value.iterate_raw [OF assms])

lemma collect_fs_entries:
  assumes "unmarshaller um"
  shows "collect_fs um cm now s = emit (fs_message now) cm (elems (fs_metrics_map s), False)"
  by (simp add: collect_fs_def FSMetrics_def fs_value.iterate_raw [OF assms])

lemma collect_security_entries:
  assumes "unmarshaller um"
  shows "collect_security um cm now s =
    emit (security_message (getSyscallCounts um s) now) cm (elems (security_metrics_map s), False)"
  by (simp add: collect_security_def SecurityMetrics_def security_value.iterate_raw [OF assms])

section \<open>Values of another size\<close>

lemma length_store_fields:
  "apart pos (length buf) fs \<Longrightarrow> map length vs = map snd fs \<Longrightarrow>
     length (store_fields fs vs buf) = length buf"
proof (induction fs vs buf arbitrary: pos rule: store_fields.induct)
  case (1 f fs v vs buf)
  obtain off w where f: "f = (off, w)" by fastforce
  have "off + length v \<le> length buf" using 1(2,3) f by (auto dest: apart_le)
  then have len: "length (write_at buf off v) = length buf" by (rule length_write_at)
  with 1 f show ?case by fastforce
qed auto

lemma cpu_value_size: "list_all (\<lambda>(cg, b). length b = 72) (cpu_raw s)"
proof -
  have "length (c_store cpu_metrics_ct vs (replicate 72 0)) = 72"
    if "map length vs = [8, 8, 8, 8, 8, 8, 8, 4, 4, 8]" for vs
    unfolding c_store_def
    by (subst length_store_fields [of 0]) (simp_all add: cpu_metrics_ct_def round_up_def that)
  moreover have "size_of cpu_metrics_ct = 72" by (simp add: cpu_metrics_ct_def round_up_def)
  ultimately show ?thesis by (simp add: cpu_raw_def list_all_iff case_prod_beta)
qed

lemma stats_value_size: "list_all (\<lambda>(nr, b). length b = 32) (stats_raw s)"
proof -
  have "length (c_store syscall_stats_ct vs (replicate 32 0)) = 32"
    if "map length vs = [8, 8, 8, 1]" for vs
    unfolding c_store_def
    by (subst length_store_fields [of 0]) (simp_all add: syscall_stats_ct_def round_up_def that)
  moreover have "size_of syscall_stats_ct = 32" by (simp add: syscall_stats_ct_def round_up_def)
  ultimately show ?thesis by (simp add: stats_raw_def list_all_iff case_prod_beta)
qed

lemma iterate_wrong_size:
  assumes "unmarshaller um" and "list_all (\<lambda>(k, b). length b = n) es" and "packed_size g \<noteq> n"
  shows "iterate (decoded um g f) es = ([], es \<noteq> [])"
proof (rule iterate_none)
  show "list_all (\<lambda>(k, b). decoded um g f b = None) es"
    using assms(2,3) unmarshaller.wrong_size [OF assms(1), of g]
    by (auto simp: list_all_iff decoded_def)
qed

lemma iterate_cpu:
  assumes "unmarshaller um"
  shows "iterate (decoded um CPUMetrics CPUMetrics_of_words) (cpu_raw s) = ([], elems (cpu_metrics_map s) \<noteq> [])"
  by (subst iterate_wrong_size [OF assms cpu_value_size])
    (simp_all add: packed_size_def CPUMetrics_def cpu_raw_def)

lemma getSyscallCounts_empty: "unmarshaller um \<Longrightarrow> getSyscallCounts um s = Map.empty"
  by (simp add: getSyscallCounts_def iterate_wrong_size [OF _ stats_value_size] packed_size_def SyscallStats_def)

section \<open>Latencies of requests\<close>

text \<open>
  After at most \<open>n\<close> hooks: the sum of the latencies lies between the number of requests times their
  minimum and times their maximum, unless it can have wrapped around.
\<close>

definition latency_bounded :: "nat \<Rightarrow> http_metrics \<Rightarrow> bool" where
  "latency_bounded n c \<longleftrightarrow> unat (request_count c) \<le> n \<and>
     (unat (request_count c) * unat (latency_max c) < 2 ^ 64 \<longrightarrow>
        unat (request_count c) * unat (latency_min c) \<le> unat (latency_sum c) \<and>
        unat (latency_sum c) \<le> unat (request_count c) * unat (latency_max c))"

lemma latency_bounded_start: "latency_bounded n http_metrics_start"
  by (simp add: latency_bounded_def http_metrics_start_def)

lemma unat_add_below: "unat a + unat b < 2 ^ 64 \<Longrightarrow> unat (a + b) = unat a + unat b" for a b :: u64
  by (simp add: unat_word_ariths)

lemma latency_bounded_add:
  assumes bounded: "latency_bounded n c" and n: "Suc n < 2 ^ 64"
    and count': "request_count c' = request_count c + 1" and sum': "latency_sum c' = latency_sum c + l"
    and max': "latency_max c' = max l (latency_max c)" and min': "latency_min c' = min l (latency_min c)"
  shows "latency_bounded (Suc n) c'"
proof -
  let ?r = "unat (request_count c)"
  have r: "?r \<le> n" using bounded by (simp add: latency_bounded_def)
  then have r': "unat (request_count c') = Suc ?r"
    using n unat_add_below [of "request_count c" 1] by (simp add: count')
  have hi: "unat l \<le> unat (latency_max c')" "unat (latency_max c) \<le> unat (latency_max c')"
    by (simp_all add: max' max_def word_le_nat_alt)
  have lo: "unat (latency_min c') \<le> unat l" "unat (latency_min c') \<le> unat (latency_min c)"
    by (simp_all add: min' min_def word_le_nat_alt)
  have "Suc ?r * unat (latency_min c') \<le> unat (latency_sum c') \<and>
      unat (latency_sum c') \<le> Suc ?r * unat (latency_max c')"
    if small: "Suc ?r * unat (latency_max c') < 2 ^ 64"
  proof -
    have le: "?r * unat (latency_max c) \<le> ?r * unat (latency_max c')" using hi(2) by (rule mult_le_mono2)
    then have "?r * unat (latency_max c) < 2 ^ 64" using small unfolding mult_Suc by linarith
    then have s: "?r * unat (latency_min c) \<le> unat (latency_sum c)"
        "unat (latency_sum c) \<le> ?r * unat (latency_max c)"
      using bounded by (simp_all add: latency_bounded_def)
    then have "unat (latency_sum c) + unat l < 2 ^ 64" using small le hi(1) unfolding mult_Suc by linarith
    then have "unat (latency_sum c') = unat (latency_sum c) + unat l"
      unfolding sum' by (rule unat_add_below)
    moreover have "?r * unat (latency_min c') \<le> ?r * unat (latency_min c)" using lo(2) by (rule mult_le_mono2)
    ultimately show ?thesis using s le hi(1) lo(1) unfolding mult_Suc by linarith
  qed
  with r r' show ?thesis by (simp add: latency_bounded_def)
qed

lemma latency_bounded_charge:
  assumes "latency_bounded n c" and "Suc n < 2 ^ 64"
  shows "latency_bounded (Suc n) (charge_request code l now c)"
    and "latency_bounded (Suc n) (charge_go_request l now c)"
  by (rule latency_bounded_add [OF assms, where l = l];
      simp add: charge_request_def charge_go_request_def count_status_def)+

lemma latency_bounded_mono: "latency_bounded n c \<Longrightarrow> latency_bounded (Suc n) c"
  by (simp add: latency_bounded_def)

definition latencies_inv :: "nat \<Rightarrow> http_state \<Rightarrow> bool" where
  "latencies_inv n s \<longleftrightarrow> all_entries (latency_bounded n) (http_metrics_map s) \<and> map_wf (http_metrics_map s)"

lemma all_entries_weaken: "all_entries P m \<Longrightarrow> (\<And>v. P v \<Longrightarrow> Q v) \<Longrightarrow> all_entries Q m"
  by (simp add: all_entries_def)

lemma latencies_charge:
  assumes "all_entries (latency_bounded n) m" and "Suc n < 2 ^ 64"
    and "\<And>c. latency_bounded n c \<Longrightarrow> latency_bounded (Suc n) (f c)"
  shows "all_entries (latency_bounded (Suc n)) (map_modify (lookup_or_init m k http_metrics_start) k f)"
  using assms latency_bounded_start [of n]
  by (auto simp: all_entries_def map_simps latency_bounded_mono split: if_splits)

lemma latencies_step:
  assumes "latencies_inv n s" and "Suc n < 2 ^ 64"
  shows "latencies_inv (Suc n) (http_step e s)"
proof -
  note all = assms(1) [unfolded latencies_inv_def, THEN conjunct1]
  note weak = all_entries_weaken [OF all latency_bounded_mono]
  note charge = latencies_charge [OF all assms(2) latency_bounded_charge(1) [OF _ assms(2)]]
    latencies_charge [OF all assms(2) latency_bounded_charge(2) [OF _ assms(2)]]
  show ?thesis
    using assms(1) weak charge
    by (cases e)
      (auto simp: latencies_inv_def trace_http_request_start_def trace_http_read_start_def
        trace_http_request_end_def trace_go_http_start_def trace_go_http_end_def Let_def map_wf_ops
        split: option.split)
qed

lemma latencies_run:
  "latencies_inv n s \<Longrightarrow> n + length es < 2 ^ 64 \<Longrightarrow> latencies_inv (n + length es) (fold http_step es s)"
proof (induction es arbitrary: n s)
  case (Cons e es)
  from Cons.IH [OF latencies_step [OF Cons.prems(1)]] Cons.prems(2) show ?case by simp
qed simp

lemma latencies_init: "latencies_inv 0 http_init"
  by (simp add: latencies_inv_def http_init_def)

lemma unat_le_float: "float_of w < 2 ^ 53 \<Longrightarrow> unat w < 2 ^ 53"
proof (rule ccontr)
  assume less: "float_of w < 2 ^ 53" and "\<not> unat w < 2 ^ 53"
  then have "(of_nat (2 ^ 53) :: rat) \<le> of_nat (unat w)" by (simp only: of_nat_le_iff not_less)
  then have "rnd (of_nat (2 ^ 53)) \<le> float_of w"
    unfolding float_of_def by (intro rnd_mono) (simp_all only: of_nat_0_le_iff)
  moreover have "rnd (of_nat (2 ^ 53)) = of_nat (2 ^ 53)" by (rule rnd_nat) simp
  ultimately show False using less by simp
qed

text \<open>The averages of one entry.\<close>

lemma http_message_bounds:
  assumes bounded: "latency_bounded n c" and msg: "http_message now c info = Some msg"
    and small: "of_nat (unat (RequestCount msg)) * Max (Latency msg) < 2 ^ 53"
  shows "Min (Latency msg) \<le> Mean (Latency msg)" and "Mean (Latency msg) \<le> Max (Latency msg)"
proof -
  let ?r = "unat (request_count c)" and ?max = "unat (latency_max c)"
  have r: "0 < ?r" and count: "RequestCount msg = request_count c"
    and mean: "Mean (Latency msg) = fdiv (float_of (latency_sum c)) (float_of (request_count c))"
    and ext: "Max (Latency msg) = float_of (latency_max c)" "Min (Latency msg) = float_of (latency_min c)"
    using msg by (auto simp: http_message_def Let_def word_neq_0_conv unat_gt_0 split: if_splits)
  have "1 * float_of (latency_max c) \<le> of_nat ?r * float_of (latency_max c)"
  proof (rule mult_right_mono)
    have "(of_nat 1 :: rat) \<le> of_nat ?r" using r by (simp only: of_nat_le_iff)
    then show "(1 :: rat) \<le> of_nat ?r" by (simp only: of_nat_1)
  qed simp
  with small have "float_of (latency_max c) < 2 ^ 53" unfolding ext count by linarith
  then have max: "?max < 2 ^ 53" by (rule unat_le_float)
  then have exact_max: "float_of (latency_max c) = of_nat ?max" by (simp add: float_of_exact del: of_nat_unat)
  have "(of_nat (?r * ?max) :: rat) < of_nat (2 ^ 53)"
    using small unfolding ext count exact_max by (simp del: of_nat_unat)
  then have prod: "?r * ?max < 2 ^ 53" by (simp only: of_nat_less_iff)
  then have s: "?r * unat (latency_min c) \<le> unat (latency_sum c)" "unat (latency_sum c) \<le> ?r * ?max"
    using bounded by (simp_all add: latency_bounded_def)
  then have "?r * unat (latency_min c) \<le> ?r * ?max" by (rule le_trans)
  then have min: "unat (latency_min c) \<le> ?max" using r by simp
  have "Min (Latency msg) \<le> Mean (Latency msg) \<and> Mean (Latency msg) \<le> Max (Latency msg)"
  proof (cases "?max = 0")
    case True
    then have "latency_max c = 0" "latency_min c = 0" "latency_sum c = 0"
      using s(2) min by (simp_all add: unat_eq_0)
    then show ?thesis
      unfolding mean ext by (simp_all add: fdiv_def float_of_def)
  next
    case False
    then have "?r * 1 \<le> ?r * ?max" by (intro mult_le_mono2) simp
    then have "?r \<le> 2 ^ 53" using prod by linarith
    then have exact: "float_of (request_count c) = of_nat ?r" "float_of (latency_sum c) = of_nat (unat (latency_sum c))"
        "float_of (latency_min c) = of_nat (unat (latency_min c))"
      using prod s max min by (simp_all add: float_of_exact del: of_nat_unat)
    show ?thesis
      using average_between [OF r s] max unfolding mean ext exact exact_max by simp
  qed
  then show "Min (Latency msg) \<le> Mean (Latency msg)" and "Mean (Latency msg) \<le> Max (Latency msg)" by simp_all
qed

lemma http_message_percentiles:
  assumes "http_message now c info = Some msg"
  shows "P50 (Latency msg) = Mean (Latency msg)" and "P50 (Latency msg) \<le> P90 (Latency msg)"
    and "P90 (Latency msg) \<le> P95 (Latency msg)" and "P99 (Latency msg) = Max (Latency msg)"
proof -
  let ?avg = "fdiv (float_of (latency_sum c)) (float_of (request_count c))"
  have msg: "P50 (Latency msg) = ?avg" "Mean (Latency msg) = ?avg" "P90 (Latency msg) = fmul ?avg (rnd (12 / 10))"
      "P95 (Latency msg) = fmul ?avg (rnd (15 / 10))" "P99 (Latency msg) = Max (Latency msg)"
    using assms by (auto simp: http_message_def Let_def split: if_splits)
  have nn: "0 \<le> ?avg" by (simp add: fdiv_nonneg)
  have "rnd (1 :: rat) \<le> rnd (12 / 10)" by (rule rnd_mono) simp_all
  then have one: "1 \<le> rnd (12 / 10)" using rnd_int [of 1] by simp
  have up: "rnd (12 / 10) \<le> rnd (15 / 10)" by (rule rnd_mono) simp_all
  show "P50 (Latency msg) \<le> P90 (Latency msg)"
    unfolding msg using nn one by (intro fmul_ge fdiv_rnd) simp_all
  show "P90 (Latency msg) \<le> P95 (Latency msg)"
    unfolding msg using nn one up by (intro fmul_mono) simp_all
qed (use assms in \<open>auto simp: http_message_def Let_def split: if_splits\<close>)

section \<open>The rate of system calls\<close>

text \<open>A total over a window of 30 seconds, compared with 1000 calls per second.\<close>

lemma high_rate: "1000 < fdiv (of_nat n) 30 \<longleftrightarrow> 30000 < n"
proof
  assume "30000 < n"
  then have "(of_nat 30001 :: rat) \<le> of_nat n" by (simp only: of_nat_le_iff)
  then have "of_int 32001 * 2 powi (- 5) \<le> (of_nat n / 30 :: rat)" by (simp add: power_int_def field_simps)
  from rnd_mono [OF _ this] have "rnd (of_int 32001 * 2 powi (- 5)) \<le> fdiv (of_nat n) 30"
    by (simp add: fdiv_def)
  moreover have "rnd (of_int 32001 * 2 powi (- 5)) = of_int 32001 * 2 powi (- 5)"
    by (rule rnd_exact [of 32001 _ "- 5"]) simp_all
  ultimately show "1000 < fdiv (of_nat n) 30" by (simp add: power_int_def power_divide)
next
  assume fast: "1000 < fdiv (of_nat n) 30"
  show "30000 < n"
  proof (rule ccontr)
    assume "\<not> 30000 < n"
    then have "(of_nat n :: rat) \<le> of_nat 30000" by (simp only: of_nat_le_iff not_less)
    then have "(of_nat n / 30 :: rat) \<le> of_nat 1000" by simp
    from rnd_mono [OF _ this] have "fdiv (of_nat n) 30 \<le> rnd (of_nat 1000)" by (simp add: fdiv_def)
    also have "rnd (of_nat 1000) = (of_nat 1000 :: rat)" by (rule rnd_nat) simp
    finally show False using fast by simp
  qed
qed

lemma security_message_some:
  assumes "total_syscalls m = of_nat n" and "0 < n" and "n \<le> 2 ^ 53"
  obtains msg where "security_message counts now m info = Some msg"
    and "TotalSyscalls msg = of_nat n" and "SuspiciousPatterns msg = suspicious_syscalls m"
    and "PrivilegeEscalationAttempts msg = privilege_escalation_attempts m"
    and "HighSyscallRateDetected msg \<longleftrightarrow> 30000 < n" and "SyscallCounts msg = counts"
proof -
  have n: "unat (of_nat n :: u64) = n" using assms(3) by (simp add: unat_of_nat)
  then have "total_syscalls m \<noteq> 0" using assms(1,2) by (metis neq0_conv unat_0)
  then obtain msg where msg: "security_message counts now m info = Some msg"
    and "TotalSyscalls msg = total_syscalls m" "SuspiciousPatterns msg = suspicious_syscalls m"
      "PrivilegeEscalationAttempts msg = privilege_escalation_attempts m" "SyscallCounts msg = counts"
      "HighSyscallRateDetected msg \<longleftrightarrow> 1000 < fdiv (float_of (total_syscalls m)) 30"
    by (simp add: security_message_def Let_def)
  moreover have "float_of (total_syscalls m) = of_nat n"
    using assms(3) n by (simp add: assms(1) float_of_exact del: of_nat_unat)
  ultimately show ?thesis using that [OF msg] by (simp add: assms(1) high_rate)
qed

text \<open>From the counters of a group to its message.\<close>

lemma security_counters_reported:
  assumes "unmarshaller um" and "GetContainerByCgroupID cm cg = Some info"
    and counts: "\<And>c. map_total (class_counter c) (security_metrics_map s) cg = of_nat (N c)"
    and n: "0 < N Any_Call" "N Any_Call \<le> 2 ^ 53"
  shows "\<exists>msg \<in> set (fst (collect_security um cm now s)). TotalSyscalls msg = of_nat (N Any_Call) \<and>
    SuspiciousPatterns msg = of_nat (N Suspicious_Call) \<and> PrivilegeEscalationAttempts msg = of_nat (N Escalation) \<and>
    (HighSyscallRateDetected msg \<longleftrightarrow> 30000 < N Any_Call) \<and> SyscallCounts msg = Map.empty"
proof -
  have word: "unat (of_nat (N Any_Call) :: u64) = N Any_Call" using n(2) by (simp add: unat_of_nat)
  obtain m where m: "map_lookup (security_metrics_map s) cg = Some m"
  proof (cases "map_lookup (security_metrics_map s) cg")
    case None
    then have "of_nat (N Any_Call) = (0 :: u64)" using counts [of Any_Call] by (simp add: map_total_def)
    with word n(1) show ?thesis by simp
  qed
  have fields: "total_syscalls m = of_nat (N Any_Call)" "suspicious_syscalls m = of_nat (N Suspicious_Call)"
      "privilege_escalation_attempts m = of_nat (N Escalation)"
    using counts [of Any_Call] counts [of Suspicious_Call] counts [of Escalation] m
    by (simp_all add: map_total_def class_counter.simps)
  obtain msg where msg: "security_message (getSyscallCounts um s) now m info = Some msg"
    and props: "TotalSyscalls msg = of_nat (N Any_Call)" "SuspiciousPatterns msg = suspicious_syscalls m"
      "PrivilegeEscalationAttempts msg = privilege_escalation_attempts m"
      "HighSyscallRateDetected msg \<longleftrightarrow> 30000 < N Any_Call" "SyscallCounts msg = getSyscallCounts um s"
    using security_message_some [OF fields(1) n] by blast
  have "(cg, m) \<in> set (elems (security_metrics_map s))"
    using m by (simp add: map_lookup_def map_of_SomeD)
  then have "msg \<in> set (fst (collect_security um cm now s))"
    using msg assms(2) by (auto simp: collect_security_entries [OF assms(1)] emit_set)
  then show ?thesis
    using props fields(2,3) by (auto simp: getSyscallCounts_empty [OF assms(1)])
qed

section \<open>Estimates of the file collector\<close>

lemma rnd_one: "rnd 1 = 1" and rnd_two: "rnd 2 = 2"
  using rnd_nat [of 1] rnd_nat [of 2] by simp_all

lemma average_rnd: "rnd (average s n) = average s n" and average_nonneg: "0 \<le> average s n"
  by (simp_all add: average_def fdiv_rnd fdiv_nonneg)

definition in_order :: "LatencyHistogram \<Rightarrow> bool" where
  "in_order h \<longleftrightarrow> 0 \<le> P50 h \<and> P50 h \<le> Mean h \<and> Mean h \<le> P90 h \<and> P90 h \<le> P95 h \<and> P95 h \<le> P99 h"

lemma estimated_latency_in_order: "in_order (estimated_latency (average s n))"
proof -
  let ?a = "average s n"
  have below: "rnd (8 / 10) \<le> 1" and above: "1 \<le> rnd (15 / 10)" "rnd (15 / 10) \<le> 2"
    using rnd_mono [of "8 / 10" 1] rnd_mono [of 1 "15 / 10"] rnd_mono [of "15 / 10" 2]
    by (simp_all add: rnd_one rnd_two)
  have pos: "0 \<le> rnd (8 / 10)" by (rule rnd_nonneg) simp
  then have "0 \<le> fmul ?a (rnd (8 / 10))" by (simp add: fmul_def rnd_nonneg average_nonneg)
  moreover have "fmul ?a (rnd (8 / 10)) \<le> ?a"
    using fmul_mono [OF average_nonneg pos below, of s n] by (simp add: fmul_def average_rnd)
  moreover have "?a \<le> fmul ?a (rnd (15 / 10))"
    by (rule fmul_ge [OF average_nonneg average_rnd above(1)])
  moreover have "fmul ?a (rnd (15 / 10)) \<le> fmul ?a 2" and "fmul ?a 2 \<le> fmul ?a 3"
    using above by (intro fmul_mono average_nonneg; simp)+
  ultimately show ?thesis
    unfolding in_order_def estimated_latency_def no_latency_def by simp
qed

lemma share_of:
  fixes t :: u64
  assumes "unat t * b < 2 ^ 64" and "p \<le> b" and "b < 2 ^ 64"
  shows "unat (t * of_nat p div 100) = unat t * p div 100"
proof -
  have "unat t * p \<le> unat t * b" using assms(2) by simp
  then have "unat t * p < 2 ^ 64" using assms(1) by linarith
  moreover have "unat (of_nat p :: u64) = p" using assms(2,3) by (simp add: unat_of_nat)
  ultimately show ?thesis by (simp add: unat_div unat_mult_lem [THEN iffD1])
qed

lemma shares_add_up:
  fixes t :: u64
  assumes "unat t * 40 < 2 ^ 64"
  shows "unat (t * 40 div 100) + unat (t * 35 div 100) + unat (t * 20 div 100) + unat (t * 5 div 100) \<le> unat t"
    and "unat t \<le> unat (t * 40 div 100) + unat (t * 35 div 100) + unat (t * 20 div 100) + unat (t * 5 div 100) + 3"
  using share_of [OF assms, of 40] share_of [OF assms, of 35] share_of [OF assms, of 20]
    share_of [OF assms, of 5]
  by simp_all

lemma fs_message_sizes:
  assumes "fs_message now m info = Some msg"
  shows "SmallIo (IoSizes msg) = (ReadOps msg + WriteOps msg) * 40 div 100"
    and "MediumIo (IoSizes msg) = (ReadOps msg + WriteOps msg) * 35 div 100"
    and "LargeIo (IoSizes msg) = (ReadOps msg + WriteOps msg) * 20 div 100"
    and "HugeIo (IoSizes msg) = (ReadOps msg + WriteOps msg) * 5 div 100"
  using assms by (auto simp: fs_message_def Let_def estimated_sizes_def simp del: distrib_right_numeral split: if_splits)

lemma fs_message_latencies:
  assumes "fs_message now m info = Some msg"
  shows "in_order (ReadLatency msg)" and "in_order (WriteLatency msg)" and "in_order (OpenLatency msg)"
  using assms by (auto simp: fs_message_def Let_def estimated_latency_in_order split: if_splits)

section \<open>Properties\<close>

text \<open>
  CPU metrics never reach the backend: the structure that \<^verbatim>\<open>cpu_tracker.go\<close> unmarshals into
  takes 80 bytes, the values of the map have 72, so whatever the program has counted and whatever the
  containers are, a collection emits no message, and it ends in an error as soon as the map has an entry.
\<close>

theorem cpu_metrics_never_reported:
  assumes "unmarshaller um"
  shows "collect_cpu um cm now s = ([], elems (cpu_metrics_map s) \<noteq> [])"
  by (simp add: collect_cpu_def emit_def List.map_filter_def iterate_cpu [OF assms])

theorem cpu_metrics_never_reported_witness:
  "collect_cpu binary_read (NewContainerMapper ''n1'') 0
     (cpu_init\<lparr>cpu_metrics_map := map_put (new_map 8) 5 cpu_metrics_zero\<rparr>) = ([], True)"
  by (subst cpu_metrics_never_reported [OF binary.unmarshaller_axioms])
    (simp add: map_put_def map_update_elem_def new_map_def map_lookup_def map_room_def)

text \<open>
  Property C7. From the system calls of a container to its message: over any run of all hooks of the
  security monitor with at most 10000 cgroups, the collector emits, for every cgroup that is in the container
  table and has made a call, a message with the numbers of its calls, suspicious calls and escalations; the
  alarm for a high rate in it says that the cgroup has made more than 30000 calls since the program was
  loaded (not within the window); and the table of counts per system call in it is always empty.
\<close>

theorem security_report_of_run:
  assumes "unmarshaller um" and "finite K" and "card K \<le> 10000"
    and "list_all (\<lambda>e. get_cgroup_id (sec_env e) \<in> K) es" and "s = fold sec_step es sec_init"
    and "L = syscall_allowlist sec_init" and "n = length (filter (calls L Any_Call cg) es)"
    and "0 < n" and "n \<le> 2 ^ 53" and "GetContainerByCgroupID cm cg = Some info"
  shows "\<exists>msg \<in> set (fst (collect_security um cm now s)). TotalSyscalls msg = of_nat n \<and>
    SuspiciousPatterns msg = of_nat (length (filter (calls L Suspicious_Call cg) es)) \<and>
    PrivilegeEscalationAttempts msg = of_nat (length (filter (calls L Escalation cg) es)) \<and>
    (HighSyscallRateDetected msg \<longleftrightarrow> 30000 < n) \<and> SyscallCounts msg = Map.empty"
  using security_counters_reported [OF assms(1,10), of s "\<lambda>c. length (filter (calls L c cg) es)"]
    class_counts [OF assms(2-4)] assms(7-9)
  by (simp add: assms(5,6))

theorem security_report_of_run_witness:
  "\<exists>msg \<in> set (fst (collect_security binary_read (mapper_of 0) 7 (fold sec_step
     [Sys_Enter (opens []) (call_ctx 0), Sys_Enter (opens []) (call_ctx 105)] sec_init))).
     TotalSyscalls msg = 2 \<and> \<not> HighSyscallRateDetected msg"
proof -
  obtain info where "GetContainerByCgroupID (mapper_of 0) 0 = Some info" using mapper_of_known by blast
  from security_report_of_run [OF binary.unmarshaller_axioms, of "{0}"
      "[Sys_Enter (opens []) (call_ctx 0), Sys_Enter (opens []) (call_ctx 105)]", OF _ _ _ refl refl refl _ _ this]
  show ?thesis by (auto simp del: sec_step.simps)
qed

text \<open>
  The averages that the HTTP collector reports make sense: for every message of a collection,
  after any run of all hooks, the mean lies between the minimum and the maximum, the median is the mean,
  and the median, the 90th and the 95th percentile are in order, as long as the number of requests times
  the maximum is below \<open>2 ^ 53\<close> microseconds (more than 285 years).
\<close>

theorem http_report_within_extremes:
  assumes "unmarshaller um" and "length es < 2 ^ 64" and "s = fold http_step es http_init"
    and "msg \<in> set (fst (collect_http um cm now s))"
    and "of_nat (unat (RequestCount msg)) * Max (Latency msg) < 2 ^ 53"
  shows "Min (Latency msg) \<le> Mean (Latency msg) \<and> Mean (Latency msg) \<le> Max (Latency msg) \<and>
    P50 (Latency msg) = Mean (Latency msg) \<and> P50 (Latency msg) \<le> P90 (Latency msg) \<and>
    P90 (Latency msg) \<le> P95 (Latency msg)"
proof -
  have inv: "latencies_inv (length es) s"
    using latencies_run [OF latencies_init, of es] assms(2,3) by simp
  obtain cg c info where c: "(cg, c) \<in> set (elems (http_metrics_map s))" and msg: "http_message now c info = Some msg"
    using assms(4) by (auto simp: collect_http_entries [OF assms(1)] emit_set)
  have "map_lookup (http_metrics_map s) cg = Some c"
    using c inv by (simp add: latencies_inv_def entry_lookup)
  with inv have "latency_bounded (length es) c" by (auto simp: latencies_inv_def dest: all_entries_lookup)
  from http_message_bounds [OF this msg assms(5)] http_message_percentiles [OF msg] show ?thesis by simp
qed

lemma measured_example:
  obtains c where "map_lookup (http_metrics_map (fold http_step
      [Go_Start (at_time 0) regs0, Go_End (at_time 7000) regs0] http_init)) 1 = Some c"
    and "request_count c = 1" "latency_sum c = 7" "latency_max c = 7" "latency_min c = 7"
  by (simp add: trace_go_http_start_def trace_go_http_end_def http_init_def Let_def map_simps
      map_room_def new_map_def map_lookup_def map_put_def map_update_elem_def lookup_or_init_def
      map_modify_def charge_go_request_def http_metrics_start_def)

lemma measured_message:
  assumes "request_count c = 1" and "latency_max c = 7"
  obtains msg where "http_message now c info = Some msg" and "RequestCount msg = 1" and "Max (Latency msg) = 7"
proof -
  have "float_of 7 = 7" by (simp add: float_of_exact)
  with assms that show ?thesis by (simp add: http_message_def Let_def)
qed

theorem http_report_within_extremes_witness:
  "\<exists>msg :: pb_HTTPMetrics. Min (Latency msg) \<le> Mean (Latency msg) \<and> Mean (Latency msg) \<le> Max (Latency msg) \<and> Max (Latency msg) = 7"
proof -
  let ?s = "fold http_step [Go_Start (at_time 0) regs0, Go_End (at_time 7000) regs0] http_init"
  obtain c where c: "map_lookup (http_metrics_map ?s) 1 = Some c" "request_count c = 1" "latency_max c = 7"
    using measured_example by blast
  obtain info where info: "GetContainerByCgroupID (mapper_of 1) 1 = Some info" using mapper_of_known by blast
  obtain msg where msg: "http_message 0 c info = Some msg" "RequestCount msg = 1" "Max (Latency msg) = 7"
    using measured_message [OF c(2,3)] by blast
  have "(1, c) \<in> set (elems (http_metrics_map ?s))"
    using c(1) by (simp only: map_lookup_def map_of_SomeD)
  then have "msg \<in> set (fst (collect_http binary_read (mapper_of 1) 0 ?s))"
    unfolding collect_http_entries [OF binary.unmarshaller_axioms] emit_set using info msg(1) by auto
  from http_report_within_extremes [OF binary.unmarshaller_axioms _ refl this] msg(2,3)
  have "Min (Latency msg) \<le> Mean (Latency msg) \<and> Mean (Latency msg) \<le> Max (Latency msg)" by simp
  with msg(3) show ?thesis by blast
qed

text \<open>
  The estimated percentiles of the HTTP collector can lie above the maximum: if all requests
  of a cgroup took the same time, the reported 95th percentile is one and a half times that time, and
  larger than the 99th percentile, which is the maximum.
\<close>

theorem equal_latencies_overshoot:
  assumes "http_message now c info = Some msg" and "0 < latency_max c"
    and "unat (latency_sum c) = unat (request_count c) * unat (latency_max c)"
    and "3 * unat (latency_sum c) \<le> 2 ^ 53"
  shows "P95 (Latency msg) = 3 / 2 * P99 (Latency msg) \<and> P99 (Latency msg) < P95 (Latency msg)"
proof -
  let ?r = "unat (request_count c)" and ?l = "unat (latency_max c)"
  have r: "0 < ?r" using assms(1) by (auto simp: http_message_def unat_gt_0 split: if_splits)
  have l: "0 < ?l" using assms(2) by (simp add: word_less_nat_alt)
  have prod: "?l \<le> ?r * ?l" "?r \<le> ?r * ?l" using r l by simp_all
  then have small: "3 * ?l \<le> 2 ^ 53" "?l \<le> 2 ^ 53" "?r \<le> 2 ^ 53" "unat (latency_sum c) \<le> 2 ^ 53"
    using assms(3,4) by linarith+
  have exact: "float_of (latency_max c) = of_nat ?l" "float_of (request_count c) = of_nat ?r"
      "float_of (latency_sum c) = of_nat (unat (latency_sum c))"
    using small by (simp_all add: float_of_exact del: of_nat_unat)
  have avg: "fdiv (of_nat (unat (latency_sum c))) (of_nat ?r) = of_nat ?l"
    using average_between [OF r _ _ small(2), of ?l "unat (latency_sum c)"] assms(3) by simp
  have half: "rnd (3 / 2) = 3 / 2"
    by (rule trans [OF rnd_exact [of 3 _ "- 1"]]) (simp_all add: power_int_def)
  have "rnd (of_nat ?l * 3 / 2) = of_nat ?l * 3 / 2"
    by (rule rnd_exact [of "3 * int ?l" _ "- 1"]) (use small(1) in \<open>simp_all add: power_int_def del: of_nat_unat\<close>)
  then have p95: "P95 (Latency msg) = of_nat ?l * (3 / 2)" and p99: "P99 (Latency msg) = of_nat ?l"
    using assms(1) by (auto simp: http_message_def Let_def exact avg half fmul_def simp del: of_nat_unat split: if_splits)
  have "(of_nat 0 :: rat) < of_nat ?l" using l by (simp only: of_nat_less_iff)
  then show ?thesis unfolding p95 p99 by (simp del: of_nat_unat)
qed

theorem equal_latencies_overshoot_witness:
  "\<exists>c msg. http_message 0 c (the (GetContainerByCgroupID (mapper_of 1) 1)) = Some msg \<and>
     P95 (Latency msg) = 3 / 2 * P99 (Latency msg)"
proof -
  obtain c :: http_metrics where c: "request_count c = 1" "latency_sum c = 7" "latency_max c = 7"
    using measured_example by blast
  obtain msg where msg: "http_message 0 c (the (GetContainerByCgroupID (mapper_of 1) 1)) = Some msg"
    using measured_message [OF c(1,3)] by blast
  have "P95 (Latency msg) = 3 / 2 * P99 (Latency msg)"
    using equal_latencies_overshoot [OF msg] by (simp add: c)
  with msg show ?thesis by blast
qed

text \<open>
  Attribution rests on a hash: the container table is keyed by a hash of the container id, the
  maps by the cgroup ids of the kernel. If no hash of a running container is the id of a cgroup with
  metrics, then after a refresh the HTTP, memory, file and security collectors emit nothing at all,
  and report no error.
\<close>

theorem unhashed_groups_unreported:
  assumes "unmarshaller um" and "RefreshContainerMappings H (Inr pods) cm0 = Inr cm"
    and "\<forall>(p, st) \<in> listed pods. simpleHash (extractContainerID (cs_container_id st)) \<notin>
      map_keys (http_metrics_map hst) \<union> map_keys (memory_metrics_map mst) \<union>
      map_keys (fs_metrics_map fil) \<union> map_keys (security_metrics_map sst)"
  shows "collect_http um cm now hst = ([], False) \<and> collect_memory um cm now mst = ([], False) \<and>
    collect_fs um cm now fil = ([], False) \<and> collect_security um cm now sst = ([], False)"
proof -
  have unknown: "GetContainerByCgroupID cm cg = None"
    if "cg \<in> map_keys (http_metrics_map hst) \<union> map_keys (memory_metrics_map mst) \<union>
      map_keys (fs_metrics_map fil) \<union> map_keys (security_metrics_map sst)" for cg
  proof (rule ccontr)
    assume "GetContainerByCgroupID cm cg \<noteq> None"
    then obtain info where "describes H pods info" and "CgroupID info = cg"
      using tables_entry [OF refresh_tables(1) [OF assms(2)]] by (auto simp: GetContainerByCgroupID_def)
    then obtain p st where "(p, st) \<in> listed pods" and "cg = simpleHash (extractContainerID (cs_container_id st))"
      by (auto simp: describes_def)
    with assms(3) that show False by blast
  qed
  have none: "emit convert cm (elems m, False) = ([], False)"
    if "\<And>cg. cg \<in> map_keys m \<Longrightarrow> GetContainerByCgroupID cm cg = None"
    for convert :: "'m \<Rightarrow> ContainerInfo \<Rightarrow> 'r option" and m :: "(u64, 'm) bpf_map"
  proof -
    have "\<nexists>r. r \<in> set (fst (emit convert cm (elems m, False)))"
      using that by (fastforce simp: emit_set map_keys_def)
    then show ?thesis by (auto simp: prod_eq_iff)
  qed
  show ?thesis
    unfolding collect_http_entries [OF assms(1)] collect_memory_entries [OF assms(1)]
      collect_fs_entries [OF assms(1)] collect_security_entries [OF assms(1)]
    by (intro conjI none unknown) simp_all
qed

theorem unhashed_groups_unreported_witness:
  "\<exists>cm. RefreshContainerMappings host0 (Inr [pod0]) (NewContainerMapper ''n1'') = Inr cm \<and>
     collect_http binary_read cm 0 http_init = ([], False)"
proof -
  obtain cm where cm: "RefreshContainerMappings host0 (Inr [pod0]) (NewContainerMapper ''n1'') = Inr cm"
    by (simp add: RefreshContainerMappings_def)
  from unhashed_groups_unreported [OF binary.unmarshaller_axioms cm, of http_init mem_init fs_init sec_loaded] cm
  show ?thesis by (auto simp: http_init_def mem_init_def fs_init_def sec_loaded_def)
qed

text \<open>
  Property C35. A collection reads what the programs have counted: for each of the eight kinds of values
  that consist of 64-bit counters, unmarshalling the bytes that the program has stored for a value, over
  whatever was in the memory before, gives the collector exactly that value, field by field.
\<close>

theorem metric_values_read_back:
  assumes "unmarshaller um"
  shows "(\<forall>old. length old = size_of memory_metrics_ct \<longrightarrow>
      decoded um MemoryMetrics memory_of_words (stored memory_metrics_ct (memory_words c1) old) = Some c1) \<and>
    (\<forall>old. length old = size_of gc_metrics_ct \<longrightarrow>
      decoded um GCMetrics gc_of_words (stored gc_metrics_ct (gc_words c2) old) = Some c2) \<and>
    (\<forall>old. length old = size_of http_metrics_ct \<longrightarrow>
      decoded um HTTPMetrics http_of_words (stored http_metrics_ct (http_words c3) old) = Some c3) \<and>
    (\<forall>old. length old = size_of fs_metrics_ct \<longrightarrow>
      decoded um FSMetrics fs_of_words (stored fs_metrics_ct (fs_words c4) old) = Some c4) \<and>
    (\<forall>old. length old = size_of db_metrics_ct \<longrightarrow>
      decoded um DatabaseMetrics db_of_words (stored db_metrics_ct (db_words c5) old) = Some c5) \<and>
    (\<forall>old. length old = size_of cache_metrics_ct \<longrightarrow>
      decoded um CacheMetrics cache_of_words (stored cache_metrics_ct (cache_words c6) old) = Some c6) \<and>
    (\<forall>old. length old = size_of go_metrics_ct \<longrightarrow>
      decoded um GoMetrics go_of_words (stored go_metrics_ct (go_words c7) old) = Some c7) \<and>
    (\<forall>old. length old = size_of security_metrics_ct \<longrightarrow>
      decoded um SecurityMetrics security_of_words (stored security_metrics_ct (security_words c8) old) = Some c8)"
  unfolding go_types
  by (intro conjI allI impI memory_value.reads_back gc_value.reads_back http_value.reads_back
      fs_value.reads_back db_value.reads_back cache_value.reads_back go_value.reads_back
      security_value.reads_back assms)

theorem metric_values_read_back_witness:
  "decoded binary_read GCMetrics gc_of_words (stored gc_metrics_ct [1, 2, 3, 4] (replicate 32 0))
     = Some (gc_metrics.make 1 2 3 4)"
proof -
  have "size_of gc_metrics_ct = 32" by (simp add: gc_metrics_ct_def round_up_def)
  moreover have "gc_words (gc_metrics.make 1 2 3 4) = [1, 2, 3, 4]" by (simp add: gc_words_def gc_metrics.make_def)
  ultimately show ?thesis
    using metric_values_read_back [OF binary.unmarshaller_axioms, of _ "gc_metrics.make 1 2 3 4"] by fastforce
qed

text \<open>
  What the file collector estimates is coherent: in every message the estimated percentiles of
  the three latencies are in order around the mean, and, while forty times the number of reads and
  writes fits into 64 bits, the four size classes add up to that number, up to three operations that
  the divisions lose.
\<close>

theorem fs_report_estimates:
  assumes "msg \<in> set (fst (collect_fs um cm now s))"
  shows "in_order (ReadLatency msg) \<and> in_order (WriteLatency msg) \<and> in_order (OpenLatency msg) \<and>
    (unat (ReadOps msg + WriteOps msg) * 40 < 2 ^ 64 \<longrightarrow>
      (\<exists>lost \<le> 3. unat (SmallIo (IoSizes msg)) + unat (MediumIo (IoSizes msg)) + unat (LargeIo (IoSizes msg)) +
         unat (HugeIo (IoSizes msg)) + lost = unat (ReadOps msg + WriteOps msg)))"
proof -
  obtain m info where msg: "fs_message now m info = Some msg"
    using assms by (auto simp: collect_fs_def emit_set)
  have gap: "\<exists>lost \<le> 3. a + lost = b" if "a \<le> b" "b \<le> a + 3" for a b :: nat
    using that by (intro exI [of _ "b - a"]) simp
  show ?thesis
    unfolding fs_message_sizes [OF msg]
    by (intro conjI impI fs_message_latencies [OF msg] gap shares_add_up)
qed

theorem fs_report_estimates_witness:
  "\<exists>msg :: pb_FileSystemMetrics. ReadOps msg = 7 \<and> in_order (ReadLatency msg) \<and>
     unat (SmallIo (IoSizes msg)) + unat (MediumIo (IoSizes msg)) + unat (LargeIo (IoSizes msg)) +
       unat (HugeIo (IoSizes msg)) = 5"
proof -
  let ?c = "fs_metrics_zero\<lparr>read_ops := 7\<rparr>"
  let ?s = "fs_init\<lparr>fs_metrics_map := map_put (new_map 8) 5 ?c\<rparr>"
  obtain info where info: "GetContainerByCgroupID (mapper_of 5) 5 = Some info" using mapper_of_known by blast
  obtain msg where msg: "fs_message 0 ?c info = Some msg" by (simp add: fs_message_def fs_metrics_zero_def Let_def)
  then have fields: "ReadOps msg = 7" "IoSizes msg = estimated_sizes ?c"
    by (auto simp: fs_message_def Let_def fs_metrics_zero_def)
  have "(5, ?c) \<in> set (elems (fs_metrics_map ?s))"
    by (simp add: map_put_def map_update_elem_def new_map_def map_lookup_def map_room_def)
  with msg info have "msg \<in> set (fst (collect_fs binary_read (mapper_of 5) 0 ?s))"
    unfolding collect_fs_entries [OF binary.unmarshaller_axioms] emit_set by auto
  from fs_report_estimates [OF this] have "in_order (ReadLatency msg)" by blast
  moreover have "unat (SmallIo (IoSizes msg)) + unat (MediumIo (IoSizes msg)) + unat (LargeIo (IoSizes msg)) +
      unat (HugeIo (IoSizes msg)) = 5"
    by (simp add: fields estimated_sizes_def fs_metrics_zero_def Let_def)
  ultimately show ?thesis using fields(1) by blast
qed

end
