(* ===== verification/App_Collector.thy ===== *)
theory App_Collector
  imports Reports
begin

text \<open>
  The collector of \<^verbatim>\<open>app_specific.go\<close>: three passes, one over each of the maps of databases, caches and
  the Go collector, fill one table of messages, keyed by control group; the entry of a group is made
  by the first pass that finds something in it, with a window that ends then. Unlike the other
  collectors it does not look the group up among the containers. Go leaves open in which order the
  messages of the table are emitted at last.
\<close>

section \<open>Messages\<close>

record pb_DatabaseMetrics =
  QueryCount :: u64
  AvgQueryTimeUs :: rat
  SlowQueries :: u64
  SlowQueryThresholdUs :: rat
  QueryTypes :: "string \<rightharpoonup> u64"
  DbActiveConnections :: u64
  ConnectionTimeouts :: u64
  Transactions :: u64
  Rollbacks :: u64
  AvgTransactionTimeUs :: rat

record pb_CacheMetrics =
  CacheHits :: u64
  CacheMisses :: u64
  HitRate :: rat
  CacheSets :: u64
  CacheGets :: u64
  CacheDeletes :: u64
  CacheEvictions :: u64
  AvgGetLatencyUs :: rat
  AvgSetLatencyUs :: rat
  CacheSizeBytes :: u64
  CacheUtilization :: rat
  CacheType :: string

record pb_GoMetrics =
  Goroutines :: u64
  GoroutineStackSize :: u64
  GcCycles :: u64
  GcPauseTimeUs :: rat
  HeapSize :: u64
  HeapAlloc :: u64
  HeapIdle :: u64
  ChannelSends :: u64
  ChannelReceives :: u64
  BlockedChannels :: u64

text \<open>A pointer to a message is an option; of the languages only Go is ever filled in.\<close>

record pb_LanguageMetrics =
  LanguageGo :: "pb_GoMetrics option"

record pb_ApplicationMetrics =
  Database :: "pb_DatabaseMetrics option"
  Cache :: "pb_CacheMetrics option"
  Language :: "pb_LanguageMetrics option"
  AppWindow :: "int \<times> int"

type_synonym app_table = "u64 \<rightharpoonup> pb_ApplicationMetrics"

section \<open>Converting the values\<close>

definition database_message :: "db_metrics \<Rightarrow> pb_DatabaseMetrics" where
  "database_message m =
     \<lparr>QueryCount = query_count m, AvgQueryTimeUs = average (query_time_total m) (query_count m),
      SlowQueries = slow_queries m, SlowQueryThresholdUs = 1000000,
      QueryTypes = [''SELECT'' \<mapsto> query_count m * 60 div 100, ''INSERT'' \<mapsto> query_count m * 20 div 100,
        ''UPDATE'' \<mapsto> query_count m * 15 div 100, ''DELETE'' \<mapsto> query_count m * 5 div 100],
      DbActiveConnections = active_connections m, ConnectionTimeouts = connection_timeouts m,
      Transactions = transactions m, Rollbacks = rollbacks m,
      AvgTransactionTimeUs = average (transaction_time_total m) (transactions m)\<rparr>"

definition cache_message :: "cache_metrics \<Rightarrow> pb_CacheMetrics" where
  "cache_message m =
     (let total = cache_hits m + cache_misses m;
          capacity = cache_size_bytes m * 2
      in \<lparr>CacheHits = cache_hits m, CacheMisses = cache_misses m,
        HitRate = (if total > 0 then fmul (fdiv (float_of (cache_hits m)) (float_of total)) 100 else 0),
        CacheSets = cache_sets m, CacheGets = cache_gets m, CacheDeletes = cache_deletes m,
        CacheEvictions = cache_evictions m,
        AvgGetLatencyUs = average (get_latency_total m) (cache_gets m),
        AvgSetLatencyUs = average (set_latency_total m) (cache_sets m),
        CacheSizeBytes = cache_size_bytes m,
        CacheUtilization = (if cache_size_bytes m > 0
          then fmul (fdiv (float_of (cache_size_bytes m)) (float_of capacity)) 100 else 0),
        CacheType = ''redis''\<rparr>)"

definition go_message :: "go_metrics \<Rightarrow> pb_GoMetrics" where
  "go_message m =
     \<lparr>Goroutines = goroutines m, GoroutineStackSize = goroutine_stack_size m, GcCycles = gc_cycles m,
      GcPauseTimeUs = average (gc_pause_time_us m) (gc_cycles m), HeapSize = heap_size m,
      HeapAlloc = heap_alloc m, HeapIdle = heap_idle m, ChannelSends = channel_sends m,
      ChannelReceives = channel_receives m, BlockedChannels = blocked_channels m\<rparr>"

section \<open>The passes\<close>

text \<open>
  \<open>now cg\<close> is the time at which the entry of the group is made: the clock is read once for each.
\<close>

definition get_or_create :: "(u64 \<Rightarrow> int) \<Rightarrow> u64 \<Rightarrow> pb_ApplicationMetrics option \<Rightarrow> pb_ApplicationMetrics" where
  "get_or_create now cg old =
     (case old of
        None \<Rightarrow> \<lparr>Database = None, Cache = None, Language = None, AppWindow = window 15 (now cg)\<rparr>
      | Some a \<Rightarrow> a)"

definition merge_database :: "(u64 \<Rightarrow> int) \<Rightarrow> u64 \<times> db_metrics \<Rightarrow> app_table \<Rightarrow> app_table" where
  "merge_database now = (\<lambda>(cg, m) tab.
     if query_count m = 0 then tab
     else tab(cg \<mapsto> (get_or_create now cg (tab cg))\<lparr>Database := Some (database_message m)\<rparr>))"

definition merge_cache :: "(u64 \<Rightarrow> int) \<Rightarrow> u64 \<times> cache_metrics \<Rightarrow> app_table \<Rightarrow> app_table" where
  "merge_cache now = (\<lambda>(cg, m) tab.
     if cache_gets m = 0 \<and> cache_sets m = 0 then tab
     else tab(cg \<mapsto> (get_or_create now cg (tab cg))\<lparr>Cache := Some (cache_message m)\<rparr>))"

definition merge_go :: "(u64 \<Rightarrow> int) \<Rightarrow> u64 \<times> go_metrics \<Rightarrow> app_table \<Rightarrow> app_table" where
  "merge_go now = (\<lambda>(cg, m) tab.
     if gc_cycles m = 0 then tab
     else
       let a = get_or_create now cg (tab cg);
           lang = (case Language a of None \<Rightarrow> \<lparr>LanguageGo = None\<rparr> | Some l \<Rightarrow> l)
       in tab(cg \<mapsto> a\<lparr>Language := Some (lang\<lparr>LanguageGo := Some (go_message m)\<rparr>)\<rparr>))"

type_synonym unmarshal = "gotype list \<Rightarrow> u8 list \<Rightarrow> u8 list list option"

definition collectDatabaseMetrics :: "unmarshal \<Rightarrow> (u64 \<Rightarrow> int) \<Rightarrow> app_state \<Rightarrow> app_table \<Rightarrow> app_table \<times> bool" where
  "collectDatabaseMetrics um now s tab =
     (let it = iterate (decoded um DatabaseMetrics db_of_words) (raw db_metrics_ct db_words (db_metrics_map s))
      in (fold (merge_database now) (fst it) tab, snd it))"

definition collectCacheMetrics :: "unmarshal \<Rightarrow> (u64 \<Rightarrow> int) \<Rightarrow> app_state \<Rightarrow> app_table \<Rightarrow> app_table \<times> bool" where
  "collectCacheMetrics um now s tab =
     (let it = iterate (decoded um CacheMetrics cache_of_words) (raw cache_metrics_ct cache_words (cache_metrics_map s))
      in (fold (merge_cache now) (fst it) tab, snd it))"

definition collectGoMetrics :: "unmarshal \<Rightarrow> (u64 \<Rightarrow> int) \<Rightarrow> app_state \<Rightarrow> app_table \<Rightarrow> app_table \<times> bool" where
  "collectGoMetrics um now s tab =
     (let it = iterate (decoded um GoMetrics go_of_words) (raw go_metrics_ct go_words (go_metrics_map s))
      in (fold (merge_go now) (fst it) tab, snd it))"

text \<open>An error of a pass is logged, and the next pass goes on with what there is.\<close>

definition collect_app :: "unmarshal \<Rightarrow> (u64 \<Rightarrow> int) \<Rightarrow> app_state \<Rightarrow> app_table" where
  "collect_app um now s =
     fst (collectGoMetrics um now s
       (fst (collectCacheMetrics um now s (fst (collectDatabaseMetrics um now s Map.empty)))))"

section \<open>A pass changes each group once\<close>

text \<open>
  The contract of a pass: an entry changes the message of its own group only, and what it makes of
  it does not depend on the other groups. Over the entries of a map, whose keys are distinct, every
  group is then changed by its own entry alone, in whatever order the entries come.
\<close>

definition change_by :: "('m \<Rightarrow> 'a option \<Rightarrow> 'a option) \<Rightarrow> 'm option \<Rightarrow> 'a option \<Rightarrow> 'a option" where
  "change_by f entry old = (case entry of None \<Rightarrow> old | Some m \<Rightarrow> f m old)"

locale group_pass =
  fixes step :: "'k \<times> 'm \<Rightarrow> ('k \<rightharpoonup> 'a) \<Rightarrow> ('k \<rightharpoonup> 'a)" and upd :: "'k \<Rightarrow> 'm \<Rightarrow> 'a option \<Rightarrow> 'a option"
  assumes step_eq: "step (k, m) tab = tab(k := upd k m (tab k))"
begin

lemma pass_other: "k \<notin> fst ` set es \<Longrightarrow> fold step es tab k = tab k"
proof (induction es arbitrary: tab)
  case (Cons e es)
  obtain k' m where "e = (k', m)" by fastforce
  with Cons show ?case by (simp add: step_eq)
qed simp

lemma pass_own:
  "distinct (map fst es) \<Longrightarrow>
     fold step es tab k = change_by (upd k) (map_of es k) (tab k)"
proof (induction es arbitrary: tab)
  case (Cons e es)
  obtain k' m where e: "e = (k', m)" by fastforce
  show ?case
  proof (cases "k' = k")
    case True
    then have "k \<notin> fst ` set es" using Cons.prems e by force
    then show ?thesis by (simp add: e True step_eq pass_other change_by_def)
  next
    case False
    with Cons show ?thesis by (simp add: e step_eq)
  qed
qed (simp add: change_by_def)

end

definition set_database :: "(u64 \<Rightarrow> int) \<Rightarrow> u64 \<Rightarrow> db_metrics \<Rightarrow> pb_ApplicationMetrics option \<Rightarrow> pb_ApplicationMetrics option" where
  "set_database now cg m old =
     (if query_count m = 0 then old
      else Some ((get_or_create now cg old)\<lparr>Database := Some (database_message m)\<rparr>))"

definition set_cache :: "(u64 \<Rightarrow> int) \<Rightarrow> u64 \<Rightarrow> cache_metrics \<Rightarrow> pb_ApplicationMetrics option \<Rightarrow> pb_ApplicationMetrics option" where
  "set_cache now cg m old =
     (if cache_gets m = 0 \<and> cache_sets m = 0 then old
      else Some ((get_or_create now cg old)\<lparr>Cache := Some (cache_message m)\<rparr>))"

definition set_go :: "(u64 \<Rightarrow> int) \<Rightarrow> u64 \<Rightarrow> go_metrics \<Rightarrow> pb_ApplicationMetrics option \<Rightarrow> pb_ApplicationMetrics option" where
  "set_go now cg m old =
     (if gc_cycles m = 0 then old
      else
        let a = get_or_create now cg old;
            lang = (case Language a of None \<Rightarrow> \<lparr>LanguageGo = None\<rparr> | Some l \<Rightarrow> l)
        in Some (a\<lparr>Language := Some (lang\<lparr>LanguageGo := Some (go_message m)\<rparr>)\<rparr>))"

interpretation database_pass: group_pass "merge_database now" "set_database now" for now
  by unfold_locales (simp add: merge_database_def set_database_def)

interpretation cache_pass: group_pass "merge_cache now" "set_cache now" for now
  by unfold_locales (simp add: merge_cache_def set_cache_def)

interpretation go_pass: group_pass "merge_go now" "set_go now" for now
  by unfold_locales (simp add: merge_go_def set_go_def Let_def)

text \<open>A collection, group by group.\<close>

lemma collect_app_group:
  assumes "unmarshaller um" and "map_wf (db_metrics_map s)" and "map_wf (cache_metrics_map s)"
    and "map_wf (go_metrics_map s)"
  shows "collect_app um now s cg =
    change_by (set_go now cg) (map_lookup (go_metrics_map s) cg)
      (change_by (set_cache now cg) (map_lookup (cache_metrics_map s) cg)
        (change_by (set_database now cg) (map_lookup (db_metrics_map s) cg) None))"
  using assms(2-4)
  by (simp add: collect_app_def collectDatabaseMetrics_def collectCacheMetrics_def collectGoMetrics_def
      DatabaseMetrics_def CacheMetrics_def GoMetrics_def db_value.iterate_raw [OF assms(1)]
      cache_value.iterate_raw [OF assms(1)] go_value.iterate_raw [OF assms(1)] map_wf_def map_lookup_def
      database_pass.pass_own cache_pass.pass_own go_pass.pass_own)

section \<open>What the events say\<close>

text \<open>
  The messages as functions of the events of a group: its queries, its cache operations and its
  collections. Everything else in them is constant.
\<close>

definition database_report :: "app_event list \<Rightarrow> pb_DatabaseMetrics option" where
  "database_report q =
     (let n = how_many q
      in if n = 0 then None
         else Some \<lparr>QueryCount = n, AvgQueryTimeUs = average (time_total q) n,
           SlowQueries = how_many (slow q), SlowQueryThresholdUs = 1000000,
           QueryTypes = [''SELECT'' \<mapsto> n * 60 div 100, ''INSERT'' \<mapsto> n * 20 div 100,
             ''UPDATE'' \<mapsto> n * 15 div 100, ''DELETE'' \<mapsto> n * 5 div 100],
           DbActiveConnections = 0, ConnectionTimeouts = 0, Transactions = 0, Rollbacks = 0,
           AvgTransactionTimeUs = 0\<rparr>)"

definition cache_report :: "app_event list \<Rightarrow> pb_CacheMetrics option" where
  "cache_report g =
     (let n = how_many g; h = how_many (hits g)
      in if n = 0 then None
         else Some \<lparr>CacheHits = h, CacheMisses = n - h, HitRate = fmul (fdiv (float_of h) (float_of n)) 100,
           CacheSets = 0, CacheGets = n, CacheDeletes = 0, CacheEvictions = 0,
           AvgGetLatencyUs = average (time_total g) n, AvgSetLatencyUs = 0, CacheSizeBytes = 0,
           CacheUtilization = 0, CacheType = ''redis''\<rparr>)"

definition go_report :: "app_event list \<Rightarrow> pb_GoMetrics option" where
  "go_report c =
     (if how_many c = 0 then None
      else Some \<lparr>Goroutines = 0, GoroutineStackSize = 0, GcCycles = how_many c,
        GcPauseTimeUs = average (time_total c) (how_many c), HeapSize = 0, HeapAlloc = 0, HeapIdle = 0,
        ChannelSends = 0, ChannelReceives = 0, BlockedChannels = 0\<rparr>)"

definition app_report ::
  "int \<Rightarrow> app_event list \<Rightarrow> app_event list \<Rightarrow> app_event list \<Rightarrow> pb_ApplicationMetrics option" where
  "app_report now q g c =
     (if how_many q = 0 \<and> how_many g = 0 \<and> how_many c = 0 then None
      else Some \<lparr>Database = database_report q, Cache = cache_report g,
        Language = map_option (\<lambda>m. \<lparr>LanguageGo = Some m\<rparr>) (go_report c), AppWindow = window 15 now\<rparr>)"

lemma set_database_report:
  assumes "map_total query_count m cg = how_many q" and "map_total query_time_total m cg = time_total q"
    and "map_total slow_queries m cg = how_many (slow q)" and "all_entries db_entry_ok m"
  shows "change_by (set_database now cg) (map_lookup m cg) None =
    app_report (now cg) q [] []"
  using assms
  by (auto simp: change_by_def set_database_def database_message_def app_report_def database_report_def
      cache_report_def go_report_def get_or_create_def map_total_def Let_def db_entry_ok_def average_def
      dest!: all_entries_lookup split: option.splits)

lemma set_cache_report:
  assumes "map_total cache_gets m cg = how_many g" and "map_total get_latency_total m cg = time_total g"
    and "map_total cache_hits m cg = how_many (hits g)" and "all_entries cache_entry_ok m"
  shows "change_by (set_cache now cg) (map_lookup m cg) (app_report (now cg) q [] []) =
    app_report (now cg) q g []"
proof (cases "map_lookup m cg")
  case None
  then have "how_many g = 0" using assms(1) by (simp add: map_total_def)
  with None show ?thesis by (simp add: change_by_def app_report_def cache_report_def)
next
  case (Some v)
  then have v: "cache_entry_ok v" "cache_gets v = how_many g" "get_latency_total v = time_total g"
      "cache_hits v = how_many (hits g)"
    using assms by (auto simp: map_total_def dest: all_entries_lookup)
  then have "cache_misses v = how_many g - how_many (hits g)" by (auto simp: cache_entry_ok_def)
  with Some v show ?thesis
    by (auto simp: change_by_def set_cache_def cache_message_def app_report_def database_report_def cache_report_def
        go_report_def get_or_create_def Let_def cache_entry_ok_def average_def word_gt_0)
qed

lemma set_go_report:
  assumes "map_total gc_cycles m cg = how_many c" and "map_total gc_pause_time_us m cg = time_total c"
    and "all_entries go_entry_ok m"
  shows "change_by (set_go now cg) (map_lookup m cg) (app_report (now cg) q g []) =
    app_report (now cg) q g c"
proof (cases "map_lookup m cg")
  case None
  then have "how_many c = 0" using assms(1) by (simp add: map_total_def)
  with None show ?thesis by (simp add: change_by_def app_report_def go_report_def)
next
  case (Some v)
  then have v: "go_entry_ok v" "gc_cycles v = how_many c" "gc_pause_time_us v = time_total c"
    using assms by (auto simp: map_total_def dest: all_entries_lookup)
  with Some show ?thesis
    by (auto simp: change_by_def set_go_def go_message_def app_report_def database_report_def
        cache_report_def go_report_def get_or_create_def Let_def go_entry_ok_def)
qed

section \<open>Properties\<close>

text \<open>
  Property C8. What the application collector reports is a function of the events alone: over any run in which
  no event is dropped, with at most 10000 cgroups, the message of a cgroup is the one that its query,
  cache and collection events determine, and there is none exactly if it has no events (modulo \<open>2 ^ 64\<close>).
  Whether the group belongs to a container plays no part in it; connections, transactions, sets,
  evictions, sizes, goroutines, heap and channels are always reported as zero.
\<close>

theorem application_report_of_events:
  assumes "unmarshaller um" and "finite K" and "card K \<le> 10000" and "list_all (heard K) es"
    and "s = fold app_step es app_init"
  shows "collect_app um now s cg = app_report (now cg) (events_of 0 cg (app_events s))
    (events_of 1 cg (app_events s)) (events_of 2 cg (app_events s))"
proof -
  have fit: "app_fit K s"
    unfolding assms(5) by (rule app_log.run_inv [OF assms(4) app_fit_init [OF assms(2,3)]])
  have inv: "app_inv s"
    unfolding assms(5) by (rule app_machine.run_inv [OF _ app_inv_init]) (simp add: list_all_iff)
  have wf: "map_wf (db_metrics_map s)" "map_wf (cache_metrics_map s)" "map_wf (go_metrics_map s)"
    using fit by (simp_all add: app_fit_def fits_def)
  have ok: "all_entries db_entry_ok (db_metrics_map s)" "all_entries cache_entry_ok (cache_metrics_map s)"
      "all_entries go_entry_ok (go_metrics_map s)"
    using inv by (simp_all add: app_inv_def)
  have "db_explained s cg" "cache_explained s cg" "go_explained s cg"
    using fit by (simp_all add: app_fit_def)
  then show ?thesis
    unfolding collect_app_group [OF assms(1) wf]
    by (simp add: db_explained_def cache_explained_def go_explained_def Let_def set_database_report
        set_cache_report set_go_report ok)
qed

theorem application_report_of_events_witness:
  "\<exists>msg d. collect_app binary_read (\<lambda>_. 0) (fold app_step
       [Db_Start (thread_at 7 0) regs0, Db_End (thread_at 7 2000000000) regs0] app_init) 0 = Some msg \<and>
     Database msg = Some d \<and> QueryCount d = 1 \<and> SlowQueries d = 1 \<and> Cache msg = None"
proof -
  let ?es = "[Db_Start (thread_at 7 0) regs0, Db_End (thread_at 7 2000000000) regs0]"
  let ?s = "fold app_step ?es app_init"
  have events: "app_events ?s = [app_event0\<lparr>App_Specific.ev_timestamp := 2000000000, App_Specific.ev_cgroup_id := 0, App_Specific.ev_pid := pid_of 7,
      App_Specific.ev_event_type := 0, App_Specific.ev_duration_us := 2000000, App_Specific.ev_value := 0,
      App_Specific.ev_details := read_str (App_Specific.ev_details app_event0) (bytes_of ''database_query_completed'')\<rparr>]"
    by (simp add: app_handlers Let_def map_simps emit_app_def ringbuf_emit_def)
  have "collect_app binary_read (\<lambda>_. 0) ?s 0 = app_report 0 (events_of 0 0 (app_events ?s))
      (events_of 1 0 (app_events ?s)) (events_of 2 0 (app_events ?s))"
    by (rule application_report_of_events [OF binary.unmarshaller_axioms, of "{0}" ?es]) (simp_all add: heard_def)
  then show ?thesis
    unfolding events by (simp add: events_of_def app_report_def database_report_def cache_report_def)
qed

end
