(* ===== verification/Rps.thy ===== *)
theory Rps
  imports Bpf_Env Schedules
begin

text \<open>
  \<^verbatim>\<open>src/watcher/internal/ebpf/bpf/rps/rps.bpf.c\<close> and the poller of \<^verbatim>\<open>rps.go\<close>: requests per
  second, counted as TCP connections that reach ESTABLISHED, per cgroup. Sequentially the counter
  is exact (a counting machine). Interleaved with other CPUs and with the poller, which prints a
  counter and then resets it, the program never over-counts, but it can lose connections: the
  insertion of a first count is not atomic with the lookup, unlike in \<open>Uprobe\<close>.
\<close>

section \<open>The program\<close>

definition rps_init :: "(u64, u64) bpf_map" where
  "rps_init = new_map 16384"

definition establishes :: "trace_event_raw_inet_sock_set_state \<Rightarrow> bool" where
  "establishes ctx \<longleftrightarrow>
     is_newstate ctx = tcp_code TCP_ESTABLISHED \<and>
     (is_oldstate ctx = tcp_code TCP_SYN_SENT \<or> is_oldstate ctx = tcp_code TCP_SYN_RECV)"

definition trace_sock_state ::
  "'ev kenv \<Rightarrow> trace_event_raw_inet_sock_set_state \<Rightarrow> (u64, u64) bpf_map \<Rightarrow> (u64, u64) bpf_map"
where
  "trace_sock_state E ctx m =
     (if establishes ctx then
        let cgid = cgroup E in
        case map_lookup m cgid of
          None \<Rightarrow> map_put m cgid 1
        | Some _ \<Rightarrow> map_modify m cgid (\<lambda>v. v + 1)
      else m)"

section \<open>Sequential runs\<close>

type_synonym 'ev sock_event = "'ev kenv \<times> trace_event_raw_inet_sock_set_state"

definition rps_step :: "'ev sock_event \<Rightarrow> (u64, u64) bpf_map \<Rightarrow> (u64, u64) bpf_map" where
  "rps_step e m = trace_sock_state (fst e) (snd e) m"

definition counted_as :: "u64 \<Rightarrow> 'ev sock_event \<Rightarrow> bool" where
  "counted_as cg e \<longleftrightarrow> establishes (snd e) \<and> cgroup (fst e) = cg"

definition count_of :: "(u64, u64) bpf_map \<Rightarrow> u64 \<Rightarrow> u64" where
  "count_of m cg = (case map_lookup m cg of None \<Rightarrow> 0 | Some v \<Rightarrow> v)"

lemma fits_trace_sock_state: "fits K m \<Longrightarrow> cgroup E \<in> K \<Longrightarrow> fits K (trace_sock_state E ctx m)"
  by (auto simp: trace_sock_state_def Let_def fits_ops split: option.split)

lemma count_trace_sock_state:
  "fits K m \<Longrightarrow> cgroup E \<in> K \<Longrightarrow>
     count_of (trace_sock_state E ctx m) cg =
       count_of m cg + (if establishes ctx \<and> cgroup E = cg then 1 else 0)"
  using fits_room [of K m "cgroup E"]
  by (auto simp: count_of_def trace_sock_state_def Let_def map_simps split: option.splits)

interpretation rps_machine: counting_machine rps_step "\<lambda>e. cgroup (fst e) \<in> K" "fits K"
    "\<lambda>e. if counted_as cg e then 1 else 0" "\<lambda>m. count_of m cg" for K cg
  by unfold_locales
    (auto simp: rps_step_def counted_as_def fits_trace_sock_state count_trace_sock_state)

section \<open>Interleaved invocations and the poller\<close>

datatype sock_pc = Lookup u64 | Insert u64 | Add u64 | Finished u64

text \<open>
  The poller of \<^verbatim>\<open>rps.go\<close> is between two map entries, or has printed the count of one and
  is about to store zero.
\<close>

datatype poller = Polling | Printed u64

record rps_sys =
  rps :: "(u64, u64) bpf_map"
  calls :: "sock_pc list"
  poll :: poller
  reported :: "u64 \<Rightarrow> nat"

definition rps_sys_init :: rps_sys where
  "rps_sys_init = \<lparr>rps = rps_init, calls = [], poll = Polling, reported = (\<lambda>_. 0)\<rparr>"

fun sock_exec :: "(u64, u64) bpf_map \<Rightarrow> sock_pc \<Rightarrow> (u64, u64) bpf_map \<times> sock_pc" where
  "sock_exec m (Lookup cg) = (m, if map_lookup m cg = None then Insert cg else Add cg)"
| "sock_exec m (Insert cg) = (map_put m cg 1, Finished cg)"
| "sock_exec m (Add cg) = (map_modify m cg (\<lambda>v. v + 1), Finished cg)"
| "sock_exec m (Finished cg) = (m, Finished cg)"

datatype rps_action = Arrive u64 | Move nat | Print u64 | Reset

fun rps_act :: "rps_action \<Rightarrow> rps_sys \<Rightarrow> rps_sys" where
  "rps_act (Arrive cg) s = s\<lparr>calls := calls s @ [Lookup cg]\<rparr>"
| "rps_act (Move i) s =
     (if i < length (calls s) then
        let r = sock_exec (rps s) (calls s ! i)
        in s\<lparr>rps := fst r, calls := (calls s)[i := snd r]\<rparr>
      else s)"
| "rps_act (Print cg) s =
     (case (poll s, map_lookup (rps s) cg) of
        (Polling, Some c) \<Rightarrow>
          s\<lparr>poll := Printed cg, reported := (reported s)(cg := reported s cg + unat c)\<rparr>
      | _ \<Rightarrow> s)"
| "rps_act Reset s =
     (case poll s of
        Polling \<Rightarrow> s
      | Printed cg \<Rightarrow> s\<lparr>rps := map_put (rps s) cg 0, poll := Polling\<rparr>)"

definition finished :: "rps_sys \<Rightarrow> u64 \<Rightarrow> nat" where
  "finished s cg = count_list (calls s) (Finished cg)"

text \<open>
  Printed counts and the live counter together never exceed the finished connections; while
  the poller is about to reset an entry, the printed count alone covers it.
\<close>

definition live :: "rps_sys \<Rightarrow> u64 \<Rightarrow> nat" where
  "live s cg = (if poll s = Printed cg then 0 else unat (count_of (rps s) cg))"

definition rps_inv :: "rps_sys \<Rightarrow> bool" where
  "rps_inv s \<longleftrightarrow>
     (\<forall>cg. reported s cg + live s cg \<le> finished s cg) \<and>
     (\<forall>cg. poll s = Printed cg \<longrightarrow> map_lookup (rps s) cg \<noteq> None)"

lemma rps_invI:
  "(\<And>cg. reported s cg + live s cg \<le> finished s cg) \<Longrightarrow>
   (\<And>cg. poll s = Printed cg \<Longrightarrow> map_lookup (rps s) cg \<noteq> None) \<Longrightarrow> rps_inv s"
  by (simp add: rps_inv_def)

lemma rps_invD:
  "rps_inv s \<Longrightarrow> reported s cg + live s cg \<le> finished s cg"
  "rps_inv s \<Longrightarrow> poll s = Printed cg \<Longrightarrow> map_lookup (rps s) cg \<noteq> None"
  by (simp_all add: rps_inv_def)

lemma finished_move:
  "i < length (calls s) \<Longrightarrow> \<forall>c. calls s ! i \<noteq> Finished c \<Longrightarrow>
     finished (s\<lparr>rps := m, calls := (calls s)[i := pc]\<rparr>) cg =
       finished s cg + (if pc = Finished cg then 1 else 0)"
  by (simp add: finished_def count_list_replace)

lemma count_sock_exec_le:
  "unat (count_of (fst (sock_exec m pc)) cg) \<le>
     unat (count_of m cg) + (if snd (sock_exec m pc) = Finished cg then 1 else 0)"
proof (cases pc)
  case (Add c)
  have "unat (v + 1) \<le> unat v + 1" for v :: u64
    by (metis unat_1 unat_plus_simple le_refl nat_le_linear trans_le_add2 unat_word_ariths(1) mod_less_eq_dividend)
  with Add show ?thesis
    by (auto simp: count_of_def map_simps split: option.split)
qed (auto simp: count_of_def map_simps split: option.split)

lemma sock_exec_keeps_keys:
  "map_lookup m cg \<noteq> None \<Longrightarrow> map_lookup (fst (sock_exec m pc)) cg \<noteq> None"
  by (cases pc) (auto simp: map_simps)

lemma rps_inv_move:
  assumes inv: "rps_inv s" and i: "i < length (calls s)"
  shows "rps_inv (rps_act (Move i) s)"
proof (cases "\<exists>c. calls s ! i = Finished c")
  case True
  then obtain c where c: "calls s ! i = Finished c" ..
  then have "(calls s)[i := Finished c] = calls s" by (simp add: list_update_same_conv i)
  with inv c i show ?thesis by (simp add: Let_def)
next
  case False
  let ?r = "sock_exec (rps s) (calls s ! i)"
  let ?t = "s\<lparr>rps := fst ?r, calls := (calls s)[i := snd ?r]\<rparr>"
  have t: "rps_act (Move i) s = ?t" using i by (simp add: Let_def)
  show ?thesis
    unfolding t
  proof (rule rps_invI)
    fix cg
    have "live ?t cg \<le> live s cg + (if snd ?r = Finished cg then 1 else 0)"
      using count_sock_exec_le [of "rps s" "calls s ! i" cg] by (simp add: live_def)
    moreover have "finished ?t cg = finished s cg + (if snd ?r = Finished cg then 1 else 0)"
      using False i by (intro finished_move) auto
    ultimately show "reported ?t cg + live ?t cg \<le> finished ?t cg"
      using rps_invD(1) [OF inv, of cg] by simp
  next
    fix cg
    assume "poll ?t = Printed cg"
    with inv show "map_lookup (rps ?t) cg \<noteq> None"
      by (simp add: rps_invD sock_exec_keeps_keys)
  qed
qed

lemma rps_inv_print:
  assumes inv: "rps_inv s" and p: "poll s = Polling" and c: "map_lookup (rps s) cg = Some c"
  shows "rps_inv (s\<lparr>poll := Printed cg, reported := (reported s)(cg := reported s cg + unat c)\<rparr>)"
proof (rule rps_invI)
  fix cg'
  show "reported (s\<lparr>poll := Printed cg, reported := (reported s)(cg := reported s cg + unat c)\<rparr>) cg'
      + live (s\<lparr>poll := Printed cg, reported := (reported s)(cg := reported s cg + unat c)\<rparr>) cg'
      \<le> finished (s\<lparr>poll := Printed cg, reported := (reported s)(cg := reported s cg + unat c)\<rparr>) cg'"
    using rps_invD(1) [OF inv, of cg'] p c by (auto simp: live_def finished_def count_of_def)
qed (use c in auto)

lemma rps_inv_reset:
  assumes inv: "rps_inv s" and p: "poll s = Printed cg"
  shows "rps_inv (s\<lparr>rps := map_put (rps s) cg 0, poll := Polling\<rparr>)"
proof (rule rps_invI)
  fix cg'
  show "reported (s\<lparr>rps := map_put (rps s) cg 0, poll := Polling\<rparr>) cg'
      + live (s\<lparr>rps := map_put (rps s) cg 0, poll := Polling\<rparr>) cg'
      \<le> finished (s\<lparr>rps := map_put (rps s) cg 0, poll := Polling\<rparr>) cg'"
    using rps_invD(1) [OF inv, of cg'] rps_invD(2) [OF inv p] p
    by (auto simp: live_def finished_def count_of_def map_simps)
qed simp

lemma rps_inv_act: "rps_inv s \<Longrightarrow> rps_inv (rps_act a s)"
proof (induction a s rule: rps_act.induct)
  case (1 cg s)
  have "live (rps_act (Arrive cg) s) = live s" and "finished (rps_act (Arrive cg) s) = finished s"
    by (simp_all add: live_def finished_def fun_eq_iff)
  with 1 show ?case by (simp add: rps_inv_def)
next
  case (2 i s)
  then show ?case
    by (cases "i < length (calls s)") (auto intro: rps_inv_move simp del: rps_act.simps(2), simp)
next
  case (3 cg s)
  then show ?case by (auto intro: rps_inv_print split: poller.split option.split)
next
  case (4 s)
  then show ?case by (auto intro: rps_inv_reset split: poller.split)
qed

interpretation rps_system: event_machine rps_act "\<lambda>_. True" rps_inv
  by unfold_locales (rule rps_inv_act)

lemma rps_inv_init: "rps_inv rps_sys_init"
  by (simp add: rps_inv_def rps_sys_init_def rps_init_def finished_def count_of_def live_def)

section \<open>Every invocation ends\<close>

fun sock_left :: "sock_pc \<Rightarrow> nat" where
  "sock_left (Lookup cg) = 2"
| "sock_left (Insert cg) = 1"
| "sock_left (Add cg) = 1"
| "sock_left (Finished cg) = 0"

interpretation sock_steps: stepwise sock_exec sock_left
proof
  show "0 < sock_left p \<Longrightarrow> sock_left (snd (sock_exec m p)) < sock_left p" for p m by (cases p) auto
  show "sock_left p = 0 \<Longrightarrow> sock_exec m p = (m, p)" for p m by (cases p) auto
qed

text \<open>The steps of a schedule that some unfinished invocation takes, and the arrivals.\<close>

fun sock_busy :: "rps_action list \<Rightarrow> rps_sys \<Rightarrow> nat" where
  "sock_busy [] s = 0"
| "sock_busy (a # acts) s =
     (case a of Move i \<Rightarrow> if i < length (calls s) \<and> 0 < sock_left (calls s ! i) then 1 else 0 | _ \<Rightarrow> 0) +
     sock_busy acts (rps_act a s)"

definition arrivals :: "rps_action list \<Rightarrow> nat" where
  "arrivals acts = length (filter (\<lambda>a. \<exists>cg. a = Arrive cg) acts)"

definition sock_work :: "rps_sys \<Rightarrow> nat" where
  "sock_work s = sum_list (map sock_left (calls s))"

lemma work_act:
  "sock_work (rps_act a s) +
     (case a of Move i \<Rightarrow> if i < length (calls s) \<and> 0 < sock_left (calls s ! i) then 1 else 0 | _ \<Rightarrow> 0)
     \<le> sock_work s + 2 * arrivals [a]"
proof (cases a)
  case (Move i)
  show ?thesis
  proof (cases "i < length (calls s)")
    case True
    with sock_steps.busy_step [of i "(rps s, calls s)"] Move show ?thesis
      by (simp add: sock_work_def arrivals_def Let_def move_at_def)
  qed (simp add: Move)
qed (auto simp: sock_work_def arrivals_def split: poller.split option.split)

lemma busy_work: "sock_busy acts s + sock_work (fold rps_act acts s) \<le> sock_work s + 2 * arrivals acts"
proof (induction acts arbitrary: s)
  case (Cons a acts)
  have "arrivals (a # acts) = arrivals [a] + arrivals acts" by (simp add: arrivals_def)
  with Cons [of "rps_act a s"] work_act [of a s] show ?case by simp
qed simp

text \<open>Two first connections of cgroup 5 whose invocations overlap.\<close>

definition lost_update_schedule :: "rps_action list" where
  "lost_update_schedule = [Arrive 5, Arrive 5, Move 0, Move 1, Move 0, Move 1]"

definition sock_ctx :: "tcp_state \<Rightarrow> tcp_state \<Rightarrow> trace_event_raw_inet_sock_set_state" where
  "sock_ctx old new = \<lparr>is_ent = entry0, is_skaddr = 0, is_oldstate = tcp_code old,
     is_newstate = tcp_code new, is_sport = 0, is_dport = 80, is_family = 2, is_protocol = 6,
     is_saddr = [], is_daddr = [], is_saddr_v6 = [], is_daddr_v6 = []\<rparr>"

section \<open>Properties\<close>

text \<open>
  Invocations that do not overlap count exactly: after any sequence of socket events
  of at most 16384 cgroups, a cgroup's counter is the number of its transitions from SYN_SENT or
  SYN_RECV to ESTABLISHED, modulo \<open>2 ^ 64\<close>; all other transitions are ignored.
\<close>

theorem rps_sequential_count:
  assumes "finite K" and "card K \<le> 16384" and "list_all (\<lambda>e. cgroup (fst e) \<in> K) es"
  shows "count_of (fold rps_step es rps_init) cg = of_nat (length (filter (counted_as cg) es))"
proof -
  have "fits K rps_init" using assms(1,2) by (simp add: rps_init_def fits_new)
  then have "count_of (fold rps_step es rps_init) cg =
      count_of rps_init cg + sum_list (map (\<lambda>e. if counted_as cg e then 1 else 0) es)"
    by (rule rps_machine.run_counter [OF assms(3)])
  then show ?thesis
    by (simp add: sum_list_indicator count_of_def rps_init_def)
qed

theorem rps_sequential_count_witness:
  "count_of (fold rps_step
     [(env0 :: unit kenv, sock_ctx TCP_SYN_SENT TCP_ESTABLISHED),
      (env0, sock_ctx TCP_ESTABLISHED TCP_FIN_WAIT1),
      (env0, sock_ctx TCP_SYN_RECV TCP_ESTABLISHED)] rps_init) 1 = 2"
  using rps_sequential_count [of "{1}"
      "[(env0 :: unit kenv, sock_ctx TCP_SYN_SENT TCP_ESTABLISHED),
        (env0, sock_ctx TCP_ESTABLISHED TCP_FIN_WAIT1),
        (env0, sock_ctx TCP_SYN_RECV TCP_ESTABLISHED)]" 1]
  by (simp add: env0_def counted_as_def establishes_def sock_ctx_def)

text \<open>
  Property C30. Under every interleaving of the program on several CPUs with the poller's
  print-and-reset, what the poller has printed for a cgroup, together with the counter that is
  still live, never exceeds the number of connections whose invocation has finished.
\<close>

theorem rps_never_overcounts:
  "reported (fold rps_act acts rps_sys_init) cg + live (fold rps_act acts rps_sys_init) cg
     \<le> finished (fold rps_act acts rps_sys_init) cg"
  by (rule rps_invD(1)) (rule rps_system.run_inv [OF _ rps_inv_init], simp add: list_all_iff)

text \<open>
  It can under-count: there is a schedule of two first connections of one cgroup
  in which both invocations finish and the counter is 1, because the second insertion overwrites
  the first. The program of \<open>Uprobe\<close> excludes this with \<open>BPF_NOEXIST\<close>.
\<close>

theorem rps_loses_updates:
  "finished (fold rps_act lost_update_schedule rps_sys_init) 5 = 2 \<and>
   count_of (rps (fold rps_act lost_update_schedule rps_sys_init)) 5 = 1"
  by (simp add: lost_update_schedule_def rps_sys_init_def rps_init_def new_map_def Let_def
      map_lookup_def map_put_def map_update_elem_def map_room_def finished_def count_of_def)

text \<open>
  The program ends under every scheduler: however the invocations and the poller are
  interleaved, \<open>n\<close> connections take at most \<open>2 * n\<close> steps of unfinished invocations together,
  including what the invocations that are still unfinished may need.
\<close>

theorem connections_end:
  "sock_busy acts rps_sys_init + sock_work (fold rps_act acts rps_sys_init) \<le> 2 * arrivals acts"
  using busy_work [of acts rps_sys_init] by (simp add: sock_work_def rps_sys_init_def)

end
