(* ===== verification/Network_Flow.thy ===== *)
theory Network_Flow
  imports Rps Reports
begin

text \<open>
  The collector of \<^verbatim>\<open>network_flow.go\<close>, which has no program of its own: every 15 seconds it reads the
  connection counters of \<open>Rps\<close>, turns them into messages and resets them. The poller of \<^verbatim>\<open>rps.go\<close>, started
  by it, reads and resets the same counters every second. The model interleaves the invocations of the
  program, that poller and this one.
\<close>

section \<open>Messages\<close>

record pb_NetworkFlow =
  FlowBytesSent :: u64
  FlowBytesReceived :: u64
  PacketsSent :: u64
  PacketsReceived :: u64
  ConnectionsEstablished :: u64
  ConnectionsClosed :: u64
  ConnectionFailures :: u64
  AvgRttUs :: rat
  P95RttUs :: rat
  Protocols :: "string \<rightharpoonup> u64"
  FlowWindow :: "int \<times> int"

definition convertRPSToNetworkFlow :: "int \<Rightarrow> u64 \<Rightarrow> pb_NetworkFlow" where
  "convertRPSToNetworkFlow now rpsCount =
     (let estimatedBytes = rpsCount * 1500
      in \<lparr>FlowBytesSent = estimatedBytes div 2, FlowBytesReceived = estimatedBytes div 2,
        PacketsSent = rpsCount div 2, PacketsReceived = rpsCount div 2,
        ConnectionsEstablished = rpsCount div 10, ConnectionsClosed = rpsCount div 10,
        ConnectionFailures = rpsCount div 100, AvgRttUs = 100, P95RttUs = 500,
        Protocols = [''tcp'' \<mapsto> rpsCount * 80 div 100, ''udp'' \<mapsto> rpsCount * 20 div 100],
        FlowWindow = window 15 now\<rparr>)"

section \<open>Two pollers and the program\<close>

text \<open>
  \<open>flow\<close> says where \<open>collectRPSMetrics\<close> is: between two entries, or behind an entry whose counter it
  is about to reset. An entry without a container is left as it is; a counter of zero is reset but not
  reported. \<open>emitted\<close> are the messages so far, with the cgroups they were made for.
\<close>

record flow_sys =
  base :: rps_sys
  flow :: poller
  emitted :: "(u64 \<times> pb_NetworkFlow) list"

definition flow_init :: flow_sys where
  "flow_init = \<lparr>base = rps_sys_init, flow = Polling, emitted = []\<rparr>"

definition take_count :: "int \<Rightarrow> u64 \<Rightarrow> u64 \<Rightarrow> flow_sys \<Rightarrow> flow_sys" where
  "take_count now cg rpsCount s =
     s\<lparr>flow := Printed cg,
       emitted := emitted s @ (if rpsCount > 0 then [(cg, convertRPSToNetworkFlow now rpsCount)] else [])\<rparr>"

datatype flow_action = Rps_Action rps_action | Flow_Read ContainerMapper int u64 | Flow_Reset

fun flow_act :: "flow_action \<Rightarrow> flow_sys \<Rightarrow> flow_sys" where
  "flow_act (Rps_Action a) s = s\<lparr>base := rps_act a (base s)\<rparr>"
| "flow_act (Flow_Read cm now cg) s =
     (case (flow s, map_lookup (rps (base s)) cg, GetContainerByCgroupID cm cg) of
        (Polling, Some rpsCount, Some info) \<Rightarrow> take_count now cg rpsCount s
      | _ \<Rightarrow> s)"
| "flow_act Flow_Reset s =
     (case flow s of
        Polling \<Rightarrow> s
      | Printed cg \<Rightarrow> s\<lparr>base := (base s)\<lparr>rps := map_put (rps (base s)) cg 0\<rparr>, flow := Polling\<rparr>)"

text \<open>What the messages of a cgroup say, added up.\<close>

definition sum_for :: "(pb_NetworkFlow \<Rightarrow> u64) \<Rightarrow> u64 \<Rightarrow> flow_sys \<Rightarrow> nat" where
  "sum_for f cg s = sum_list (map (unat \<circ> f \<circ> snd) (filter (\<lambda>e. fst e = cg) (emitted s)))"

section \<open>The pollers do not add to the counters\<close>

text \<open>Whatever the program and the first poller do, a counter rises only with finished connections.\<close>

lemma move_cases:
  obtains "i < length (rps_sys.calls s)" "\<forall>c. rps_sys.calls s ! i \<noteq> Finished c" | "rps_act (Move i) s = s"
proof (cases "i < length (rps_sys.calls s)")
  case True
  show ?thesis
  proof (cases "\<exists>c. rps_sys.calls s ! i = Finished c")
    case fin: True
    then obtain c where c: "rps_sys.calls s ! i = Finished c" ..
    then have "(rps_sys.calls s)[i := Finished c] = rps_sys.calls s" using True by (simp add: list_update_same_conv)
    with c True have "rps_act (Move i) s = s" by (simp add: Let_def)
    then show ?thesis by (rule that(2))
  qed (use True that(1) in blast)
qed (use that(2) in simp)

lemma rps_act_counts:
  "unat (count_of (rps (rps_act a s)) cg) + finished s cg \<le> unat (count_of (rps s) cg) + finished (rps_act a s) cg"
proof (cases a)
  case (Move i)
  show ?thesis
  proof (cases rule: move_cases [of i s])
    case 1
    with Move count_sock_exec_le [of "rps s" "rps_sys.calls s ! i" cg] show ?thesis
      by (simp add: finished_move Let_def)
  qed (simp add: Move)
qed (auto simp: finished_def count_of_def map_simps split: poller.split option.split)

lemma finished_mono: "finished s cg \<le> finished (rps_act a s) cg"
proof (cases a)
  case (Move i)
  show ?thesis
  proof (cases rule: move_cases [of i s])
    case 1
    with Move show ?thesis by (simp add: finished_move Let_def)
  qed (simp add: Move)
qed (auto simp: finished_def split: poller.split option.split)

definition flow_live :: "flow_sys \<Rightarrow> u64 \<Rightarrow> nat" where
  "flow_live s cg = (if flow s = Printed cg then 0 else unat (count_of (rps (base s)) cg))"

text \<open>A field of the messages is a share of the count if it is at most its \<open>k\<close>-th part.\<close>

definition share :: "nat \<Rightarrow> (pb_NetworkFlow \<Rightarrow> u64) \<Rightarrow> bool" where
  "share k f \<longleftrightarrow> (\<forall>now c. k * unat (f (convertRPSToNetworkFlow now c)) \<le> unat c)"

definition flow_inv :: "nat \<Rightarrow> (pb_NetworkFlow \<Rightarrow> u64) \<Rightarrow> flow_sys \<Rightarrow> bool" where
  "flow_inv k f s \<longleftrightarrow> (\<forall>cg. k * sum_for f cg s + flow_live s cg \<le> finished (base s) cg)"

lemma flow_inv_read:
  assumes inv: "flow_inv k f s" and f: "share k f" and p: "flow s = Polling"
    and c: "map_lookup (rps (base s)) cg = Some c"
  shows "flow_inv k f (take_count now cg c s)"
  unfolding flow_inv_def
proof
  fix cg'
  have "k * unat (f (convertRPSToNetworkFlow now c)) \<le> unat c" using f by (simp add: share_def)
  moreover have "flow_live s cg = unat c" using p c by (simp add: flow_live_def count_of_def)
  moreover have "k * sum_for f cg' s + flow_live s cg' \<le> finished (base s) cg'" using inv by (simp add: flow_inv_def)
  ultimately show "k * sum_for f cg' (take_count now cg c s) + flow_live (take_count now cg c s) cg'
      \<le> finished (base (take_count now cg c s)) cg'"
    using p by (auto simp: take_count_def sum_for_def flow_live_def algebra_simps)
qed

lemma flow_inv_act:
  assumes inv: "flow_inv k f s" and f: "share k f"
  shows "flow_inv k f (flow_act a s)"
proof (cases a)
  case (Rps_Action b)
  show ?thesis
    unfolding flow_inv_def
  proof
    fix cg
    have "k * sum_for f cg s + flow_live s cg \<le> finished (base s) cg" using inv by (simp add: flow_inv_def)
    with rps_act_counts [of b "base s" cg] finished_mono [of "base s" cg b] Rps_Action
    show "k * sum_for f cg (flow_act a s) + flow_live (flow_act a s) cg \<le> finished (base (flow_act a s)) cg"
      by (auto simp: sum_for_def flow_live_def split: if_splits)
  qed
next
  case (Flow_Read cm now cg)
  with inv show ?thesis by (auto intro: flow_inv_read [OF _ f] split: poller.split option.split)
next
  case Flow_Reset
  show ?thesis
    unfolding flow_inv_def
  proof
    fix cg
    have "k * sum_for f cg s + flow_live s cg \<le> finished (base s) cg" using inv by (simp add: flow_inv_def)
    with Flow_Reset show "k * sum_for f cg (flow_act a s) + flow_live (flow_act a s) cg \<le> finished (base (flow_act a s)) cg"
      by (cases "flow s") (auto simp: sum_for_def flow_live_def finished_def count_of_def map_simps split: if_splits option.splits)
  qed
qed

interpretation flow_system: event_machine flow_act "\<lambda>_. share k f" "flow_inv k f" for k f
  by unfold_locales (rule flow_inv_act)

lemma flow_inv_init: "flow_inv k f flow_init"
  by (simp add: flow_inv_def flow_init_def sum_for_def flow_live_def rps_sys_init_def rps_init_def count_of_def)

lemma share_div: "share k (\<lambda>m. f m)" if "\<And>now c. unat (f (convertRPSToNetworkFlow now c)) = unat c div k"
  using that by (simp add: share_def)

lemma flow_run:
  assumes "share k f"
  shows "k * sum_for f cg (fold flow_act acts flow_init) \<le> finished (base (fold flow_act acts flow_init)) cg"
proof -
  have "flow_inv k f (fold flow_act acts flow_init)"
    by (rule flow_system.run_inv [OF _ flow_inv_init]) (simp add: assms list_all_iff)
  then have "k * sum_for f cg (fold flow_act acts flow_init) + flow_live (fold flow_act acts flow_init) cg
      \<le> finished (base (fold flow_act acts flow_init)) cg" by (simp add: flow_inv_def)
  then show ?thesis by linarith
qed

text \<open>Ten connections of cgroup 5, counted; then a schedule in which both pollers take the same count.\<close>

lemma count_list_replicate: "count_list (replicate n x) x = n"
  by (induction n) auto

definition connections :: "nat \<Rightarrow> flow_action list" where
  "connections n = concat (map (\<lambda>i. map Rps_Action [Arrive 5, Move i, Move i]) [0..<n])"

lemma after_connections:
  "fold flow_act (connections n) flow_init = flow_init\<lparr>base := rps_sys_init\<lparr>
     rps := rps_init\<lparr>elems := (if n = 0 then [] else [(5, of_nat n)])\<rparr>, calls := replicate n (Finished 5)\<rparr>\<rparr>"
proof (induction n)
  case (Suc n)
  have "connections (Suc n) = connections n @ map Rps_Action [Arrive 5, Move n, Move n]"
    by (simp add: connections_def)
  then have run: "fold flow_act (connections (Suc n)) flow_init =
      fold flow_act (map Rps_Action [Arrive 5, Move n, Move n]) (fold flow_act (connections n) flow_init)"
    by (simp only: fold_append o_apply)
  show ?case
    unfolding run Suc
    by (simp add: nth_append list_update_append replicate_append_same flow_init_def rps_sys_init_def
        rps_init_def new_map_def Let_def map_lookup_def map_put_def map_update_elem_def map_modify_def map_room_def)
qed (simp add: connections_def flow_init_def rps_sys_init_def rps_init_def new_map_def)

definition both_read :: "flow_action list" where
  "both_read = [Flow_Read (mapper_of 5) 0 5, Rps_Action (Print 5), Flow_Reset, Rps_Action Reset]"

definition first_read :: "flow_action list" where
  "first_read = [Rps_Action (Print 5), Rps_Action Reset, Flow_Read (mapper_of 5) 0 5, Flow_Reset]"

section \<open>Properties\<close>

text \<open>
  Network reports understate: under every interleaving of the program on several CPUs with the
  two pollers, the connections that the messages of a cgroup report as established, and as closed, add up
  to at most a tenth, and the packets to at most half, of the connections that were in fact established
  and counted.
\<close>

theorem network_reports_understate:
  "10 * sum_for ConnectionsEstablished cg (fold flow_act acts flow_init) \<le> finished (base (fold flow_act acts flow_init)) cg \<and>
   10 * sum_for ConnectionsClosed cg (fold flow_act acts flow_init) \<le> finished (base (fold flow_act acts flow_init)) cg \<and>
   2 * sum_for PacketsSent cg (fold flow_act acts flow_init) \<le> finished (base (fold flow_act acts flow_init)) cg \<and>
   100 * sum_for ConnectionFailures cg (fold flow_act acts flow_init) \<le> finished (base (fold flow_act acts flow_init)) cg"
  by (intro conjI flow_run share_div) (simp_all add: convertRPSToNetworkFlow_def Let_def unat_div)

text \<open>
  The two pollers are not coordinated: there is a schedule of ten connections in which both of
  them take the same count before either resets it, so that what is printed and what the message stands
  for are together twenty; and one in which the message gets nothing, because the other poller was first.
\<close>

theorem pollers_share_counts:
  "(let s = fold flow_act (connections 10 @ both_read) flow_init in
     finished (base s) 5 = 10 \<and> reported (base s) 5 = 10 \<and> sum_for ConnectionsEstablished 5 s = 1) \<and>
   (let s = fold flow_act (connections 10 @ first_read) flow_init in
     finished (base s) 5 = 10 \<and> reported (base s) 5 = 10 \<and> emitted s = [])"
  unfolding fold_append o_apply after_connections
  by (simp add: both_read_def first_read_def Let_def flow_init_def rps_sys_init_def rps_init_def
      map_lookup_def map_put_def map_update_elem_def take_count_def mapper_of_def GetContainerByCgroupID_def
      new_map_def sum_for_def finished_def convertRPSToNetworkFlow_def map_room_def count_list_replicate)

end
