(* ===== verification/Sender.thy ===== *)
theory Sender
  imports App_Collector Network_Flow "HOL-Library.Sublist"
begin

text \<open>
  From the collectors to the backend: the handlers of \<^verbatim>\<open>ebpf.go\<close> wrap every message and put it
  into a channel, or drop it if the channel is full; \<^verbatim>\<open>sender.go\<close> takes the channel out in
  batches, once a minute, and calls the backend with them. The collectors, the ticker, the receiving
  loop and the answers of the backend interleave; each is an event of the model.
\<close>

section \<open>The wrapped message\<close>

text \<open>\<open>EBPFMetrics\<close> of \<^verbatim>\<open>ebpf.proto\<close>; the metadata are the idempotency key and the version.\<close>

record EBPFMetrics =
  ContainerId :: string
  PodNameOf :: string
  PodUid :: string
  NamespaceOf :: string
  NodeNameOf :: string
  AppNameOf :: string
  AppVersionOf :: string
  ServiceNameOf :: string
  CgroupIdOf :: u64
  Http :: "pb_HTTPMetrics option"
  MemoryPatterns :: "pb_MemoryPatterns option"
  CpuPatterns :: "pb_CPUPatterns option"
  NetworkFlow :: "pb_NetworkFlow option"
  Filesystem :: "pb_FileSystemMetrics option"
  Application :: "pb_ApplicationMetrics option"
  Security :: "pb_SecurityMetrics option"
  Apikey :: "string option"
  Metadata :: "(string \<times> string) option"

text \<open>The structure literal with only the name of the node.\<close>

definition from_node :: "string \<Rightarrow> EBPFMetrics" where
  "from_node node = \<lparr>ContainerId = '''', PodNameOf = '''', PodUid = '''', NamespaceOf = '''',
     NodeNameOf = node, AppNameOf = '''', AppVersionOf = '''', ServiceNameOf = '''', CgroupIdOf = 0,
     Http = None, MemoryPatterns = None, CpuPatterns = None, NetworkFlow = None, Filesystem = None,
     Application = None, Security = None, Apikey = None, Metadata = None\<rparr>"

section \<open>The channel\<close>

record 'a channel =
  pending :: "'a list"
  capacity :: nat

text \<open>\<open>select { case ch <- x: default: }\<close>\<close>

definition try_send :: "'a \<Rightarrow> 'a channel \<Rightarrow> 'a channel" where
  "try_send x c = (if length (pending c) < capacity c then c\<lparr>pending := pending c @ [x]\<rparr> else c)"

section \<open>The handlers\<close>

text \<open>A message is a pointer; \<open>None\<close> is nil.\<close>

definition HandleHTTPMetrics where
  "HandleHTTPMetrics node msg ch =
     (case msg of None \<Rightarrow> ch | Some m \<Rightarrow> try_send ((from_node node)\<lparr>Http := Some m\<rparr>) ch)"

definition HandleMemoryMetrics where
  "HandleMemoryMetrics node msg ch =
     (case msg of None \<Rightarrow> ch | Some m \<Rightarrow> try_send ((from_node node)\<lparr>MemoryPatterns := Some m\<rparr>) ch)"

definition HandleCPUMetrics where
  "HandleCPUMetrics node msg ch =
     (case msg of None \<Rightarrow> ch | Some m \<Rightarrow> try_send ((from_node node)\<lparr>CpuPatterns := Some m\<rparr>) ch)"

definition HandleNetworkMetrics where
  "HandleNetworkMetrics node msg ch =
     (case msg of None \<Rightarrow> ch | Some m \<Rightarrow> try_send ((from_node node)\<lparr>NetworkFlow := Some m\<rparr>) ch)"

definition HandleFileSystemMetrics where
  "HandleFileSystemMetrics node msg ch =
     (case msg of None \<Rightarrow> ch | Some m \<Rightarrow> try_send ((from_node node)\<lparr>Filesystem := Some m\<rparr>) ch)"

definition HandleApplicationMetrics where
  "HandleApplicationMetrics node msg ch =
     (case msg of None \<Rightarrow> ch | Some m \<Rightarrow> try_send ((from_node node)\<lparr>Application := Some m\<rparr>) ch)"

definition HandleSecurityMetrics where
  "HandleSecurityMetrics node msg ch =
     (case msg of None \<Rightarrow> ch | Some m \<Rightarrow> try_send ((from_node node)\<lparr>Security := Some m\<rparr>) ch)"

datatype report =
  HTTP_Report "pb_HTTPMetrics option"
| Memory_Report "pb_MemoryPatterns option"
| CPU_Report "pb_CPUPatterns option"
| Network_Report "pb_NetworkFlow option"
| FS_Report "pb_FileSystemMetrics option"
| App_Report "pb_ApplicationMetrics option"
| Security_Report "pb_SecurityMetrics option"

text \<open>The registration of the handlers in \<open>NewEbpfCollector\<close>.\<close>

fun handle :: "string \<Rightarrow> report \<Rightarrow> EBPFMetrics channel \<Rightarrow> EBPFMetrics channel" where
  "handle node (HTTP_Report m) ch = HandleHTTPMetrics node m ch"
| "handle node (Memory_Report m) ch = HandleMemoryMetrics node m ch"
| "handle node (CPU_Report m) ch = HandleCPUMetrics node m ch"
| "handle node (Network_Report m) ch = HandleNetworkMetrics node m ch"
| "handle node (FS_Report m) ch = HandleFileSystemMetrics node m ch"
| "handle node (App_Report m) ch = HandleApplicationMetrics node m ch"
| "handle node (Security_Report m) ch = HandleSecurityMetrics node m ch"

section \<open>The sender\<close>

text \<open>
  \<open>sendEBPFMetricsInBatch\<close> waits for its ticker, or collects a batch. \<open>calls\<close> are the calls of
  \<open>CollectEBPFMetrics\<close> so far, each with its batch and whether the backend answered without an error;
  after an error the batch is gone.
\<close>

datatype sender_phase = Waiting | Collecting "EBPFMetrics list"

record sender_sys =
  node_name :: string
  api_key :: string
  batch_size :: nat
  ch :: "EBPFMetrics channel"
  phase :: sender_phase
  collect_calls :: "(EBPFMetrics list \<times> bool) list"

definition New :: "string \<Rightarrow> string \<Rightarrow> sender_sys" where
  "New node key = \<lparr>node_name = node, api_key = key, batch_size = 1000,
     ch = \<lparr>pending = [], capacity = 2 * 200\<rparr>, phase = Waiting, collect_calls = []\<rparr>"

definition WatcherVersion :: string where
  "WatcherVersion = ''v0.0.1''"

definition stamp :: "string \<Rightarrow> string \<Rightarrow> EBPFMetrics \<Rightarrow> EBPFMetrics" where
  "stamp key uuid ev = ev\<lparr>Apikey := Some key, Metadata := Some (uuid, WatcherVersion)\<rparr>"

text \<open>
  \<open>Receive\<close> is one round of the inner loop that gets a message, with the identifier drawn for it. The loop
  ends when no message has come for 100 milliseconds (a message that is there is taken at once, so the
  channel is empty then), or after \<open>batch_size\<close> rounds; \<open>Finish ok\<close> is its end and the call, with the
  answer of the backend.
\<close>

datatype sender_event = Handle report | Tick | Receive string | Finish bool

fun sender_step :: "sender_event \<Rightarrow> sender_sys \<Rightarrow> sender_sys" where
  "sender_step (Handle r) s = s\<lparr>ch := handle (node_name s) r (ch s)\<rparr>"
| "sender_step Tick s = (case phase s of Waiting \<Rightarrow> s\<lparr>phase := Collecting []\<rparr> | Collecting b \<Rightarrow> s)"
| "sender_step (Receive uuid) s =
     (case phase s of
        Waiting \<Rightarrow> s
      | Collecting b \<Rightarrow>
          (case pending (ch s) of
             [] \<Rightarrow> s
           | ev # evs \<Rightarrow>
               if length b < batch_size s
               then s\<lparr>ch := (ch s)\<lparr>pending := evs\<rparr>, phase := Collecting (b @ [stamp (api_key s) uuid ev])\<rparr>
               else s))"
| "sender_step (Finish ok) s =
     (case phase s of
        Waiting \<Rightarrow> s
      | Collecting b \<Rightarrow>
          if pending (ch s) \<noteq> [] \<and> length b < batch_size s then s
          else if b = [] then s\<lparr>phase := Waiting\<rparr>
          else s\<lparr>phase := Waiting, collect_calls := collect_calls s @ [(b, ok)]\<rparr>)"

section \<open>What becomes of a report\<close>

text \<open>The message that a handler wraps a report into, unless it is nil.\<close>

fun wrapped :: "string \<Rightarrow> report \<Rightarrow> EBPFMetrics option" where
  "wrapped node (HTTP_Report m) = map_option (\<lambda>m. (from_node node)\<lparr>Http := Some m\<rparr>) m"
| "wrapped node (Memory_Report m) = map_option (\<lambda>m. (from_node node)\<lparr>MemoryPatterns := Some m\<rparr>) m"
| "wrapped node (CPU_Report m) = map_option (\<lambda>m. (from_node node)\<lparr>CpuPatterns := Some m\<rparr>) m"
| "wrapped node (Network_Report m) = map_option (\<lambda>m. (from_node node)\<lparr>NetworkFlow := Some m\<rparr>) m"
| "wrapped node (FS_Report m) = map_option (\<lambda>m. (from_node node)\<lparr>Filesystem := Some m\<rparr>) m"
| "wrapped node (App_Report m) = map_option (\<lambda>m. (from_node node)\<lparr>Application := Some m\<rparr>) m"
| "wrapped node (Security_Report m) = map_option (\<lambda>m. (from_node node)\<lparr>Security := Some m\<rparr>) m"

lemma handle_wrapped:
  "handle node r c = (case wrapped node r of None \<Rightarrow> c | Some ev \<Rightarrow> try_send ev c)"
  by (cases r) (auto simp: HandleHTTPMetrics_def HandleMemoryMetrics_def HandleCPUMetrics_def
      HandleNetworkMetrics_def HandleFileSystemMetrics_def HandleApplicationMetrics_def
      HandleSecurityMetrics_def split: option.split)

declare handle.simps [simp del]

definition handed :: "string \<Rightarrow> sender_event list \<Rightarrow> EBPFMetrics list" where
  "handed node es = List.map_filter (\<lambda>e. case e of Handle r \<Rightarrow> wrapped node r | _ \<Rightarrow> None) es"

text \<open>The reports that arrive while the channel is full.\<close>

fun dropped :: "sender_event list \<Rightarrow> sender_sys \<Rightarrow> nat" where
  "dropped [] s = 0"
| "dropped (e # es) s =
     (case e of
        Handle r \<Rightarrow> if wrapped (node_name s) r \<noteq> None \<and> capacity (ch s) \<le> length (pending (ch s)) then 1 else 0
      | _ \<Rightarrow> 0) + dropped es (sender_step e s)"

definition batch :: "sender_sys \<Rightarrow> EBPFMetrics list" where
  "batch s = (case phase s of Waiting \<Rightarrow> [] | Collecting b \<Rightarrow> b)"

definition unstamped :: "EBPFMetrics \<Rightarrow> EBPFMetrics" where
  "unstamped ev = ev\<lparr>Apikey := None, Metadata := None\<rparr>"

text \<open>Everything that was not dropped, in the order in which it was handed over.\<close>

definition kept :: "sender_sys \<Rightarrow> EBPFMetrics list" where
  "kept s = map unstamped (concat (map fst (collect_calls s)) @ batch s @ pending (ch s))"

lemma from_node_unstamped: "wrapped node r = Some ev \<Longrightarrow> unstamped ev = ev"
  by (cases r) (auto simp: unstamped_def from_node_def)

lemma unstamped_stamp [simp]: "unstamped (stamp key uuid ev) = unstamped ev"
  by (simp add: unstamped_def stamp_def)

lemma sender_constants [simp]:
  "node_name (sender_step e s) = node_name s" "api_key (sender_step e s) = api_key s"
  "batch_size (sender_step e s) = batch_size s" "capacity (ch (sender_step e s)) = capacity (ch s)"
  by (cases e; simp add: handle_wrapped try_send_def split: sender_phase.split list.split option.split)+

lemma kept_handle:
  "kept (s\<lparr>ch := handle (node_name s) r (ch s)\<rparr>) =
     kept s @ (case wrapped (node_name s) r of
       None \<Rightarrow> [] | Some ev \<Rightarrow> if length (pending (ch s)) < capacity (ch s) then [ev] else [])"
  by (auto simp: kept_def batch_def handle_wrapped try_send_def from_node_unstamped split: option.split)

lemma kept_other: "\<forall>r. e \<noteq> Handle r \<Longrightarrow> kept (sender_step e s) = kept s"
  by (cases e) (auto simp: kept_def batch_def split: sender_phase.split list.split)

lemma handed_simps [simp]:
  "handed node [] = []"
  "handed node (Handle r # es) = (case wrapped node r of None \<Rightarrow> [] | Some ev \<Rightarrow> [ev]) @ handed node es"
  "handed node (Tick # es) = handed node es" "handed node (Receive uuid # es) = handed node es"
  "handed node (Finish ok # es) = handed node es"
  by (simp_all add: handed_def List.map_filter_simps split: option.split)

lemma kept_grows:
  "\<exists>new. kept (fold sender_step es s) = kept s @ new \<and> subseq new (handed (node_name s) es) \<and>
     length (handed (node_name s) es) = length new + dropped es s"
proof (induction es arbitrary: s)
  case (Cons e es)
  obtain new where new: "kept (fold sender_step es (sender_step e s)) = kept (sender_step e s) @ new"
      "subseq new (handed (node_name s) es)"
      "length (handed (node_name s) es) = length new + dropped es (sender_step e s)"
    using Cons [of "sender_step e s"] by auto
  show ?case
  proof (cases "\<exists>r. e = Handle r")
    case True
    then obtain r where e: "e = Handle r" ..
    show ?thesis
    proof (cases "wrapped (node_name s) r")
      case None
      with e new show ?thesis by (auto simp: kept_handle)
    next
      case (Some ev)
      show ?thesis
      proof (cases "length (pending (ch s)) < capacity (ch s)")
        case True
        with e new Some show ?thesis by (intro exI [of _ "ev # new"]) (simp add: kept_handle)
      next
        case False
        with e new Some show ?thesis by (intro exI [of _ new]) (simp add: kept_handle list_emb_Cons)
      qed
    qed
  next
    case False
    then have "handed (node_name s) (e # es) = handed (node_name s) es" "dropped (e # es) s = dropped es (sender_step e s)"
      by (cases e; simp)+
    with new False show ?thesis by (auto simp: kept_other simp del: dropped.simps)
  qed
qed (simp add: handed_def List.map_filter_def)

section \<open>Bounds\<close>

text \<open>A message of this node for the backend: no container, one kind of metrics, the key and the metadata.\<close>

definition categories :: "EBPFMetrics \<Rightarrow> nat" where
  "categories ev = length (filter id [Http ev \<noteq> None, MemoryPatterns ev \<noteq> None, CpuPatterns ev \<noteq> None,
     NetworkFlow ev \<noteq> None, Filesystem ev \<noteq> None, Application ev \<noteq> None, Security ev \<noteq> None])"

definition anonymous :: "string \<Rightarrow> EBPFMetrics \<Rightarrow> bool" where
  "anonymous node ev \<longleftrightarrow> NodeNameOf ev = node \<and> ContainerId ev = '''' \<and> PodNameOf ev = '''' \<and> PodUid ev = '''' \<and>
     NamespaceOf ev = '''' \<and> AppNameOf ev = '''' \<and> AppVersionOf ev = '''' \<and> ServiceNameOf ev = '''' \<and>
     CgroupIdOf ev = 0 \<and> categories ev = 1"

definition stamped :: "string \<Rightarrow> EBPFMetrics \<Rightarrow> bool" where
  "stamped key ev \<longleftrightarrow> Apikey ev = Some key \<and> (\<exists>uuid. Metadata ev = Some (uuid, WatcherVersion))"

lemma anonymous_literals:
  "anonymous node ((from_node node)\<lparr>Http := Some a\<rparr>)" "anonymous node ((from_node node)\<lparr>MemoryPatterns := Some b\<rparr>)"
  "anonymous node ((from_node node)\<lparr>CpuPatterns := Some c\<rparr>)" "anonymous node ((from_node node)\<lparr>NetworkFlow := Some d\<rparr>)"
  "anonymous node ((from_node node)\<lparr>Filesystem := Some e\<rparr>)" "anonymous node ((from_node node)\<lparr>Application := Some f\<rparr>)"
  "anonymous node ((from_node node)\<lparr>Security := Some g\<rparr>)"
  by (simp_all add: anonymous_def from_node_def categories_def)

lemma wrapped_anonymous: "wrapped node r = Some ev \<Longrightarrow> anonymous node ev"
  by (cases r) (auto intro: anonymous_literals)

lemma categories_stamp [simp]: "categories (stamp key uuid ev) = categories ev"
  by (simp add: categories_def stamp_def del: filter.simps)

lemma stamp_simps [simp]: "anonymous node (stamp key uuid ev) = anonymous node ev" "stamped key (stamp key uuid ev)"
  by (simp_all add: anonymous_def stamped_def, simp_all add: stamp_def)

definition outgoing :: "string \<Rightarrow> string \<Rightarrow> EBPFMetrics \<Rightarrow> bool" where
  "outgoing node key ev \<longleftrightarrow> anonymous node ev \<and> stamped key ev"

definition sender_inv :: "sender_sys \<Rightarrow> bool" where
  "sender_inv s \<longleftrightarrow> capacity (ch s) = 400 \<and> batch_size s = 1000 \<and> length (pending (ch s)) \<le> 400 \<and>
     length (batch s) \<le> 1000 \<and> list_all (anonymous (node_name s)) (pending (ch s)) \<and>
     list_all (outgoing (node_name s) (api_key s)) (batch s) \<and>
     list_all (\<lambda>(b, ok). b \<noteq> [] \<and> length b \<le> 1000 \<and> list_all (outgoing (node_name s) (api_key s)) b) (collect_calls s)"

lemma sender_inv_New: "sender_inv (New node key)"
  by (simp add: sender_inv_def New_def batch_def)

lemma sender_inv_step: "sender_inv s \<Longrightarrow> sender_inv (sender_step e s)"
proof (cases e)
  case (Handle r)
  moreover assume "sender_inv s"
  ultimately show ?thesis
    using wrapped_anonymous [of "node_name s" r]
    by (auto simp: sender_inv_def handle_wrapped try_send_def batch_def outgoing_def split: option.split)
next
  case (Receive uuid)
  moreover assume "sender_inv s"
  ultimately show ?thesis
    by (auto simp: sender_inv_def batch_def outgoing_def split: sender_phase.split list.split)
qed (auto simp: sender_inv_def batch_def outgoing_def split: sender_phase.split list.split)

interpretation sender_machine: event_machine sender_step "\<lambda>_. True" sender_inv
  by unfold_locales (rule sender_inv_step)

lemma sender_run: "sender_inv (fold sender_step es (New node key))"
  by (rule sender_machine.run_inv [OF _ sender_inv_New]) (simp add: list_all_iff)

lemma constants_run [simp]:
  "node_name (fold sender_step es s) = node_name s" "api_key (fold sender_step es s) = api_key s"
  by (induction es arbitrary: s) simp_all

section \<open>A minute without reports\<close>

lemma receive_all:
  assumes "phase s = Collecting b" and "length uuids = length (pending (ch s))"
    and "length b + length (pending (ch s)) \<le> batch_size s"
  shows "fold sender_step (map Receive uuids) s =
    s\<lparr>ch := (ch s)\<lparr>pending := []\<rparr>, phase := Collecting (b @ map2 (stamp (api_key s)) uuids (pending (ch s)))\<rparr>"
  using assms
proof (induction uuids arbitrary: s b)
  case (Cons uuid uuids)
  then obtain ev evs where ev: "pending (ch s) = ev # evs" by (cases "pending (ch s)") auto
  let ?t = "sender_step (Receive uuid) s"
  have t: "?t = s\<lparr>ch := (ch s)\<lparr>pending := evs\<rparr>, phase := Collecting (b @ [stamp (api_key s) uuid ev])\<rparr>"
    using Cons.prems ev by simp
  have "fold sender_step (map Receive uuids) ?t = ?t\<lparr>ch := (ch ?t)\<lparr>pending := []\<rparr>,
      phase := Collecting ((b @ [stamp (api_key s) uuid ev]) @ map2 (stamp (api_key ?t)) uuids (pending (ch ?t)))\<rparr>"
    by (rule Cons.IH) (use Cons.prems ev in \<open>simp_all add: t\<close>)
  then show ?case by (simp add: t ev del: sender_step.simps)
qed simp

lemma quiet_minute:
  assumes "sender_inv s" and "phase s = Waiting" and "length uuids = length (pending (ch s))"
  shows "fold sender_step (Tick # map Receive uuids @ [Finish ok]) s =
    s\<lparr>ch := (ch s)\<lparr>pending := []\<rparr>, collect_calls := collect_calls s @
      (if pending (ch s) = [] then [] else [(map2 (stamp (api_key s)) uuids (pending (ch s)), ok)])\<rparr>"
proof -
  let ?t = "s\<lparr>phase := Collecting []\<rparr>"
  have "length (pending (ch s)) \<le> batch_size s" using assms(1) by (simp add: sender_inv_def)
  then have run: "fold sender_step (map Receive uuids) ?t = ?t\<lparr>ch := (ch s)\<lparr>pending := []\<rparr>,
      phase := Collecting (map2 (stamp (api_key s)) uuids (pending (ch s)))\<rparr>"
    using receive_all [of ?t "[]" uuids] assms(3) by simp
  have "map2 (stamp (api_key s)) uuids (pending (ch s)) = [] \<longleftrightarrow> pending (ch s) = []"
    using assms(3) by (cases uuids; cases "pending (ch s)") auto
  moreover have "fold sender_step (Tick # map Receive uuids @ [Finish ok]) s =
      sender_step (Finish ok) (fold sender_step (map Receive uuids) ?t)"
    using assms(2) by simp
  ultimately show ?thesis
    unfolding run using assms(2) by simp
qed

text \<open>A report for the examples.\<close>

definition network_report :: report where
  "network_report = Network_Report (Some (convertRPSToNetworkFlow 0 10))"

section \<open>Properties\<close>



text \<open>
  What the backend gets: in every call the batch is neither empty nor larger than 1000, and
  every message in it has the node, the key of the API, the metadata and exactly one kind of metrics,
  but neither container, pod, namespace, application nor cgroup: those fields are never filled in.
  At most 400 reports ever wait.
\<close>

theorem batches_well_formed:
  assumes "s = fold sender_step es (New node key)"
  shows "length (pending (ch s)) \<le> 400 \<and>
    (\<forall>(b, ok) \<in> set (collect_calls s). b \<noteq> [] \<and> length b \<le> 1000 \<and>
       (\<forall>ev \<in> set b. anonymous node ev \<and> stamped key ev))"
proof -
  have "sender_inv s" unfolding assms by (rule sender_run)
  moreover have "node_name s = node" "api_key s = key" by (simp_all add: assms New_def)
  ultimately show ?thesis
    by (auto simp: sender_inv_def list_all_iff outgoing_def)
qed

theorem batches_well_formed_witness:
  "let s = fold sender_step [Handle network_report, Tick, Receive ''u'', Finish False] (New ''n'' ''k'')
   in \<exists>ev. collect_calls s = [([ev], False)] \<and> anonymous ''n'' ev \<and> stamped ''k'' ev"
proof -
  let ?s = "fold sender_step [Handle network_report, Tick, Receive ''u'', Finish False] (New ''n'' ''k'')"
  obtain ev where "collect_calls ?s = [([ev], False)]"
    by (simp add: New_def network_report_def handle_wrapped try_send_def)
  moreover from this batches_well_formed [OF refl,
      of "[Handle network_report, Tick, Receive ''u'', Finish False]" "''n''" "''k''"]
  have "anonymous ''n'' ev \<and> stamped ''k'' ev" by (simp del: fold_simps)
  ultimately show ?thesis unfolding Let_def by blast
qed

text \<open>
  Property C34. A minute delivers everything: in every reachable state in which the sender waits for its
  ticker, a tick followed by one receipt for each waiting report, with no reports coming in, empties
  the channel and makes one call with all of them in order, stamped; without reports there is no call.
\<close>

theorem quiet_minute_delivers:
  assumes "s = fold sender_step es (New node key)" and "phase s = Waiting"
    and "length uuids = length (pending (ch s))"
    and "t = fold sender_step (Tick # map Receive uuids @ [Finish ok]) s"
  shows "pending (ch t) = [] \<and> phase t = Waiting \<and> collect_calls t = collect_calls s @
    (if pending (ch s) = [] then [] else [(map2 (stamp key) uuids (pending (ch s)), ok)])"
proof -
  have "sender_inv s" unfolding assms(1) by (rule sender_run)
  moreover have "api_key s = key" by (simp add: assms(1) New_def)
  ultimately show ?thesis
    unfolding assms(4) using quiet_minute [OF _ assms(2,3), of ok] assms(2) by simp
qed

theorem quiet_minute_delivers_witness:
  "\<exists>ev. collect_calls (fold sender_step [Tick, Receive ''u'', Finish True]
     (fold sender_step [Handle network_report] (New ''n'' ''k''))) = [([ev], True)]"
proof -
  let ?s = "fold sender_step [Handle network_report] (New ''n'' ''k'')"
  obtain ev where s: "phase ?s = Waiting" "pending (ch ?s) = [ev]" "collect_calls ?s = []"
    by (simp add: New_def network_report_def handle_wrapped try_send_def)
  from quiet_minute_delivers [OF refl s(1), where uuids = "[''u'']" and ok = True, OF _ refl] s(2,3)
  show ?thesis by simp
qed

end
