(* ===== verification/Pipeline.thy ===== *)
theory Pipeline
  imports Watcher Sender
begin

text \<open>
  The node as a whole: the programs in the kernel, the container table, the collectors, and the way to
  the backend. Kernel events, refreshes of the table, the rounds of the collectors' loops, the two
  pollers of the connection counters and the sender interleave in any order; each is a step here.
  What the theories of the parts prove holds for every run of the whole.
\<close>

section \<open>The state and the steps\<close>

text \<open>
  A round of a collector's loop handles one message: the message for the entry that the iteration is
  at, made of what is in the map then. Which entry this is depends on what happened since the
  iteration began (an entry can be skipped or met twice when the map changes meanwhile), so any is
  possible here, and a collection of \<open>Collectors\<close> or \<open>App_Collector\<close> is one of the possible sequences of
  rounds. \<open>Read_HTTP\<close> is a round of the reader of the ring buffer.
\<close>

record node_sys =
  kernel :: watcher
  flows :: flow_sys
  containers :: ContainerMapper
  http_position :: nat
  link :: sender_sys

definition node_init :: "string \<Rightarrow> string \<Rightarrow> node_sys" where
  "node_init node key = \<lparr>kernel = watcher_init, flows = flow_init, containers = NewContainerMapper node,
     http_position = 0, link = New node key\<rparr>"

datatype round =
  Visit_HTTP int nat | Visit_Memory int nat | Visit_CPU int nat | Visit_FS int nat
| Visit_Security int nat | Visit_App "u64 \<Rightarrow> int" u64 | Visit_Flow int u64 | Read_HTTP int

datatype node_event =
  Kernel kevent
| Sockets rps_action
| Refresh host "string + pod list"
| Round round
| Flow_Clear
| Minute
| Next_Message string
| Answer bool

text \<open>The message at a position of a collection, if there is one.\<close>

definition message_at :: "('m option \<Rightarrow> report) \<Rightarrow> 'm list \<times> bool \<Rightarrow> nat \<Rightarrow> report list" where
  "message_at wrap c i = (if i < length (fst c) then [wrap (Some (fst c ! i))] else [])"

text \<open>What a round hands to its handler.\<close>

fun handed_over :: "unmarshal \<Rightarrow> round \<Rightarrow> node_sys \<Rightarrow> report list" where
  "handed_over um (Visit_HTTP now i) s =
     message_at HTTP_Report (collect_http um (containers s) now (w_http (kernel s))) i"
| "handed_over um (Visit_Memory now i) s =
     message_at Memory_Report (collect_memory um (containers s) now (w_mem (kernel s))) i"
| "handed_over um (Visit_CPU now i) s =
     message_at CPU_Report (collect_cpu um (containers s) now (w_cpu (kernel s))) i"
| "handed_over um (Visit_FS now i) s =
     message_at FS_Report (collect_fs um (containers s) now (w_fs (kernel s))) i"
| "handed_over um (Visit_Security now i) s =
     message_at Security_Report (collect_security um (containers s) now (w_sec (kernel s))) i"
| "handed_over um (Visit_App now cg) s =
     (case collect_app um now (w_app (kernel s)) cg of None \<Rightarrow> [] | Some m \<Rightarrow> [App_Report (Some m)])"
| "handed_over um (Visit_Flow now cg) s =
     map (Network_Report \<circ> Some \<circ> snd) (drop (length (emitted (flows s)))
       (emitted (flow_act (Flow_Read (containers s) now cg) (flows s))))"
| "handed_over um (Read_HTTP now) s =
     (if http_position s < length (http_events (w_http (kernel s)))
      then [HTTP_Report (http_event_message (containers s) now (http_events (w_http (kernel s)) ! http_position s))]
      else [])"

text \<open>What an event means for each part.\<close>

fun kernel_events :: "node_event \<Rightarrow> kevent list" where
  "kernel_events (Kernel e) = [e]"
| "kernel_events _ = []"

fun flow_actions :: "node_event \<Rightarrow> node_sys \<Rightarrow> flow_action list" where
  "flow_actions (Sockets a) s = [Rps_Action a]"
| "flow_actions (Round (Visit_Flow now cg)) s = [Flow_Read (containers s) now cg]"
| "flow_actions Flow_Clear s = [Flow_Reset]"
| "flow_actions _ s = []"

fun sender_events :: "unmarshal \<Rightarrow> node_event \<Rightarrow> node_sys \<Rightarrow> sender_event list" where
  "sender_events um (Round v) s = map Handle (handed_over um v s)"
| "sender_events um Minute s = [Tick]"
| "sender_events um (Next_Message uuid) s = [Receive uuid]"
| "sender_events um (Answer ok) s = [Finish ok]"
| "sender_events um _ s = []"

fun refreshed :: "node_event \<Rightarrow> ContainerMapper \<Rightarrow> ContainerMapper" where
  "refreshed (Refresh H pods) cm = (case RefreshContainerMappings H pods cm of Inl err \<Rightarrow> cm | Inr cm' \<Rightarrow> cm')"
| "refreshed _ cm = cm"

definition node_step :: "unmarshal \<Rightarrow> node_event \<Rightarrow> node_sys \<Rightarrow> node_sys" where
  "node_step um e s = \<lparr>kernel = fold watcher_step (kernel_events e) (kernel s),
     flows = fold flow_act (flow_actions e s) (flows s), containers = refreshed e (containers s),
     http_position = (case e of
        Round (Read_HTTP now) \<Rightarrow> min (Suc (http_position s)) (length (http_events (w_http (kernel s))))
      | _ \<Rightarrow> http_position s),
     link = fold sender_step (sender_events um e s) (link s)\<rparr>"

abbreviation node_run :: "unmarshal \<Rightarrow> node_event list \<Rightarrow> node_sys \<Rightarrow> node_sys" where
  "node_run um es s \<equiv> fold (node_step um) es s"

lemma node_step_parts [simp]:
  "containers (node_step um e s) = refreshed e (containers s)"
  "flows (node_step um e s) = fold flow_act (flow_actions e s) (flows s)"
  "link (node_step um e s) = fold sender_step (sender_events um e s) (link s)"
  by (simp_all add: node_step_def)

section \<open>The parts inside the whole\<close>

interpretation kernel_part: part "node_step um" kernel watcher_step kernel_events for um
  by unfold_locales (simp add: node_step_def)

text \<open>
  The events of a part that depend on the rest of the state: \<open>trace\<close> collects them along a run.
\<close>

fun trace :: "('e \<Rightarrow> 's \<Rightarrow> 's) \<Rightarrow> ('e \<Rightarrow> 's \<Rightarrow> 'a list) \<Rightarrow> 'e list \<Rightarrow> 's \<Rightarrow> 'a list" where
  "trace step acts [] s = []"
| "trace step acts (e # es) s = acts e s @ trace step acts es (step e s)"

locale driven_part =
  fixes whole :: "'e \<Rightarrow> 'w \<Rightarrow> 'w" and here :: "'w \<Rightarrow> 's" and step :: "'a \<Rightarrow> 's \<Rightarrow> 's"
    and acts :: "'e \<Rightarrow> 'w \<Rightarrow> 'a list"
  assumes here_driven: "here (whole e w) = fold step (acts e w) (here w)"
begin

lemma here_run: "here (fold whole es w) = fold step (trace whole acts es w) (here w)"
  by (induction es arbitrary: w) (simp_all add: here_driven)

lemma traced:
  assumes "a \<in> set (trace whole acts es w)"
  obtains es1 e es2 where "es = es1 @ e # es2" and "a \<in> set (acts e (fold whole es1 w))"
  using assms
proof (induction es arbitrary: w thesis)
  case (Cons x es)
  show ?case
  proof (cases "a \<in> set (acts x w)")
    case True
    then show ?thesis using Cons.prems(1) [of "[]"] by simp
  next
    case False
    then have "a \<in> set (trace whole acts es (whole x w))" using Cons.prems(2) by simp
    then obtain es1 e es2 where "es = es1 @ e # es2" and "a \<in> set (acts e (fold whole es1 (whole x w)))"
      using Cons.IH by blast
    then show ?thesis using Cons.prems(1) [of "x # es1" e es2] by simp
  qed
qed simp

end

interpretation flow_part: driven_part "node_step um" flows flow_act flow_actions for um
  by unfold_locales (simp add: node_step_def)

interpretation link_part: driven_part "node_step um" link sender_step "sender_events um" for um
  by unfold_locales (simp add: node_step_def)

section \<open>Where a message comes from\<close>

text \<open>All messages that the backend has been sent, or that are still on their way.\<close>

definition messages :: "node_sys \<Rightarrow> EBPFMetrics list" where
  "messages s = concat (map fst (collect_calls (link s))) @ batch (link s) @ pending (ch (link s))"

lemma link_init: "node_name (link (node_init node key)) = node" "kept (link (node_init node key)) = []"
  by (simp_all add: node_init_def New_def kept_def batch_def)

lemma messages_kept: "map unstamped (messages s) = kept (link s)"
  unfolding messages_def kept_def ..

lemma messages_handed:
  "subseq (map unstamped (messages (node_run um es (node_init node key))))
     (handed node (trace (node_step um) (sender_events um) es (node_init node key)))"
  unfolding messages_kept link_part.here_run
  using kept_grows [of "trace (node_step um) (sender_events um) es (node_init node key)" "link (node_init node key)"]
  by (simp only: link_init append_Nil) blast

lemma handed_set: "ev \<in> set (handed node es) \<longleftrightarrow> (\<exists>r. Handle r \<in> set es \<and> wrapped node r = Some ev)"
proof (induction es)
  case (Cons e es)
  then show ?case by (cases e) (auto split: option.splits)
qed simp

lemma subseq_member: "subseq xs ys \<Longrightarrow> x \<in> set xs \<Longrightarrow> x \<in> set ys"
  by (induction rule: list_emb.induct) auto

lemma message_origin:
  assumes "ev \<in> set (messages (node_run um es (node_init node key)))"
  obtains es1 v es2 r where "es = es1 @ Round v # es2"
    and "r \<in> set (handed_over um v (node_run um es1 (node_init node key)))" and "wrapped node r = Some (unstamped ev)"
proof -
  let ?tr = "trace (node_step um) (sender_events um) es (node_init node key)"
  have "unstamped ev \<in> set (map unstamped (messages (node_run um es (node_init node key))))" using assms by simp
  then have "unstamped ev \<in> set (handed node ?tr)"
    by (rule subseq_member [OF messages_handed])
  then obtain r where r: "Handle r \<in> set ?tr" "wrapped node r = Some (unstamped ev)"
    unfolding handed_set by blast
  obtain es1 e es2 where e: "es = es1 @ e # es2" "Handle r \<in> set (sender_events um e (node_run um es1 (node_init node key)))"
    using link_part.traced [OF r(1)] by blast
  from e(2) obtain v where "e = Round v" "r \<in> set (handed_over um v (node_run um es1 (node_init node key)))"
    by (cases e) auto
  with e(1) r(2) that show ?thesis by blast
qed

lemma wrapped_kinds:
  assumes "wrapped node r = Some e"
  shows "Http e = (case r of HTTP_Report m \<Rightarrow> m | _ \<Rightarrow> None)"
    and "CpuPatterns e = (case r of CPU_Report m \<Rightarrow> m | _ \<Rightarrow> None)"
    and "Security e = (case r of Security_Report m \<Rightarrow> m | _ \<Rightarrow> None)"
    and "NetworkFlow e = (case r of Network_Report m \<Rightarrow> m | _ \<Rightarrow> None)"
  using assms by (cases r; auto simp: from_node_def)+

lemma unstamped_kinds [simp]:
  "Http (unstamped ev) = Http ev" "CpuPatterns (unstamped ev) = CpuPatterns ev"
  "Security (unstamped ev) = Security ev" "NetworkFlow (unstamped ev) = NetworkFlow ev"
  by (simp_all add: unstamped_def)

section \<open>What never comes\<close>

text \<open>
  The probes on \<open>ServeHTTP\<close> are attached by \<open>AttachGoHTTPUprobes\<close>, which is never called; so on a node
  that runs the program as it is, no kernel event serves them.
\<close>

fun serves :: "kevent \<Rightarrow> bool" where
  "serves (Serve_Entry S regs) = True"
| "serves (Serve_Return S regs) = True"
| "serves _ = False"

lemma unserved_attached: "\<not> serves e \<Longrightarrow> list_all attached (http_hooks e)"
  by (cases e) auto

interpretation http_kept: part_inv watcher_step w_http http_step http_hooks attached unmeasured
  by unfold_locales

interpretation node_unmeasured: part_inv "node_step um" kernel watcher_step kernel_events
    "\<lambda>e. list_all attached (http_hooks e)" "\<lambda>w. unmeasured (w_http w)" for um
  by unfold_locales

lemma run_unmeasured:
  assumes "list_all (\<lambda>e. list_all (\<lambda>k. \<not> serves k) (kernel_events e)) es"
  shows "unmeasured (w_http (kernel (node_run um es (node_init node key))))"
proof (rule node_unmeasured.lift.run_inv)
  show "list_all (\<lambda>e. list_all (\<lambda>k. list_all attached (http_hooks k)) (kernel_events e)) es"
    using assms unserved_attached by (auto simp: list_all_iff)
  show "unmeasured (w_http (kernel (node_init node key)))"
    by (simp add: node_init_def unmeasured_init)
qed

lemma unmeasured_silent:
  assumes "unmarshaller um" and "unmeasured (w_http (kernel s))"
  shows "HTTP_Report m \<notin> set (handed_over um v s)"
proof -
  have "elems (http_metrics_map (w_http (kernel s))) = []" "http_events (w_http (kernel s)) = []"
    using assms(2) by (auto simp: unmeasured_def map_keys_def)
  then show ?thesis
    by (cases v) (auto simp: collect_http_entries [OF assms(1)] emit_def List.map_filter_def message_at_def
        split: option.splits if_splits)
qed

lemma cpu_silent: "unmarshaller um \<Longrightarrow> CPU_Report m \<notin> set (handed_over um v s)"
  by (cases v) (auto simp: collect_cpu_def iterate_cpu emit_def List.map_filter_def message_at_def
      split: option.splits if_splits)

section \<open>The container table\<close>

lemma table_described:
  "GetContainerByCgroupID (containers (node_run um es (node_init node key))) cg = Some info \<Longrightarrow>
     \<exists>H pods. Refresh H (Inr pods) \<in> set es \<and> describes H pods info \<and> CgroupID info = cg"
proof (induction es rule: rev_induct)
  case Nil
  then show ?case by (simp add: node_init_def NewContainerMapper_def GetContainerByCgroupID_def)
next
  case (snoc e es)
  let ?cm = "containers (node_run um es (node_init node key))"
  show ?case
  proof (cases "refreshed e ?cm = ?cm")
    case True
    then have "GetContainerByCgroupID ?cm cg = Some info" using snoc.prems by simp
    with snoc.IH show ?thesis by auto
  next
    case False
    then obtain H pods where e: "e = Refresh H pods" by (cases e) auto
    with False obtain l where l: "pods = Inr l" by (cases pods) (auto simp: RefreshContainerMappings_def)
    obtain cm' where cm': "RefreshContainerMappings H (Inr l) ?cm = Inr cm'"
      by (simp add: RefreshContainerMappings_def)
    then have "cgroupToContainer cm' cg = Some info"
      using snoc.prems by (simp add: e l GetContainerByCgroupID_def)
    with tables_entry [OF refresh_tables(1) [OF cm']] have "describes H l info \<and> CgroupID info = cg" by blast
    with e l show ?thesis by auto
  qed
qed

section \<open>System calls of the node\<close>

definition node_calls :: "syscall_class \<Rightarrow> u64 \<Rightarrow> node_event list \<Rightarrow> nat" where
  "node_calls c cg es = length (filter (Security_Monitor.calls (syscall_allowlist sec_init) c cg)
     (concat (map sec_hooks (concat (map kernel_events es)))))"

definition groups_in :: "u64 set \<Rightarrow> node_event list \<Rightarrow> bool" where
  "groups_in K es \<longleftrightarrow> finite K \<and> card K \<le> 10000 \<and>
     list_all (\<lambda>e. list_all (\<lambda>h. get_cgroup_id (sec_env h) \<in> K) (sec_hooks e)) (concat (map kernel_events es))"

lemma node_counts:
  assumes "groups_in K es"
  shows "map_total (class_counter c) (security_metrics_map (w_sec (kernel (node_run um es (node_init node key))))) cg =
    of_nat (node_calls c cg es)"
  using calls_in_whole [of K "concat (map kernel_events es)" c cg] assms
  by (simp add: groups_in_def node_calls_def kernel_part.here_run node_init_def)

lemma node_sec_wf:
  assumes "groups_in K es"
  shows "map_wf (security_metrics_map (w_sec (kernel (node_run um es (node_init node key)))))"
proof -
  have "fits_sec K (syscall_allowlist sec_init) (w_sec (fold watcher_step (concat (map kernel_events es)) watcher_init))"
    by (rule sec_counted.lift.run_inv) (use assms fits_sec_init in \<open>auto simp: groups_in_def\<close>)
  then show ?thesis by (simp add: kernel_part.here_run node_init_def fits_sec_def fits_def)
qed

lemma groups_in_prefix: "groups_in K (es1 @ es2) \<Longrightarrow> groups_in K es1"
  by (simp add: groups_in_def)

section \<open>Connections of the node\<close>

text \<open>What messages say of established connections, and how many were established.\<close>

definition connections_in :: "EBPFMetrics list \<Rightarrow> nat" where
  "connections_in evs = sum_list (map (\<lambda>ev. case NetworkFlow ev of None \<Rightarrow> 0 | Some m \<Rightarrow> unat (ConnectionsEstablished m)) evs)"

definition established :: "rps_sys \<Rightarrow> nat" where
  "established s = length (filter (\<lambda>pc. case pc of Finished cg \<Rightarrow> True | _ \<Rightarrow> False) (rps_sys.calls s))"

lemma connections_in_append [simp]: "connections_in (xs @ ys) = connections_in xs + connections_in ys"
  by (simp add: connections_in_def)

lemma connections_in_subseq: "subseq xs ys \<Longrightarrow> connections_in xs \<le> connections_in ys"
  by (induction rule: list_emb.induct) (auto simp: connections_in_def)

lemma connections_in_unstamped: "connections_in (map unstamped evs) = connections_in evs"
  by (simp add: connections_in_def comp_def)

definition emitted_connections :: "flow_sys \<Rightarrow> nat" where
  "emitted_connections s = sum_list (map (unat \<circ> ConnectionsEstablished \<circ> snd) (emitted s))"

lemma network_handed:
  "connections_in (handed node (map (Handle \<circ> (Network_Report \<circ> Some \<circ> snd)) xs)) =
     sum_list (map (unat \<circ> ConnectionsEstablished \<circ> snd) xs)"
  by (induction xs) (simp_all add: connections_in_def from_node_def)

lemma handed_no_network:
  "\<forall>r \<in> set rs. \<forall>m. r \<noteq> Network_Report m \<Longrightarrow> connections_in (handed node (map Handle rs)) = 0"
proof (induction rs)
  case (Cons r rs)
  then show ?case by (cases r) (auto simp: connections_in_def from_node_def split: option.split)
qed (simp add: connections_in_def)

lemma other_rounds: "Network_Report m \<in> set (handed_over um v s) \<Longrightarrow> \<exists>now cg. v = Visit_Flow now cg"
  by (cases v) (auto simp: message_at_def split: option.splits if_splits)

lemma emitted_extends:
  "emitted (flow_act a s) = emitted s @ drop (length (emitted s)) (emitted (flow_act a s))"
  by (cases a) (auto simp: take_count_def split: poller.split option.split)

lemma emitted_elsewhere: "(\<forall>cm now cg. a \<noteq> Flow_Read cm now cg) \<Longrightarrow> emitted (flow_act a s) = emitted s"
  by (cases a) (auto split: poller.split)

lemma node_connections_step:
  "connections_in (handed node (sender_events um e s)) + emitted_connections (flows s) =
     emitted_connections (flows (node_step um e s))"
proof (cases "\<exists>now cg. e = Round (Visit_Flow now cg)")
  case True
  then obtain now cg where e: "e = Round (Visit_Flow now cg)" by blast
  let ?f = "flow_act (Flow_Read (containers s) now cg) (flows s)"
  have "emitted_connections ?f = emitted_connections (flows s) +
      sum_list (map (unat \<circ> ConnectionsEstablished \<circ> snd) (drop (length (emitted (flows s))) (emitted ?f)))"
    unfolding emitted_connections_def by (subst emitted_extends) simp
  then show ?thesis
    unfolding e by (simp add: network_handed del: flow_act.simps)
next
  case False
  then have "emitted (flows (node_step um e s)) = emitted (flows s)"
    by (cases "(e, s)" rule: flow_actions.cases) (auto simp: emitted_elsewhere simp del: flow_act.simps)
  moreover have "connections_in (handed node (sender_events um e s)) = 0"
  proof (cases e)
    case (Round v)
    with False other_rounds [of _ um v s] have "\<forall>r \<in> set (handed_over um v s). \<forall>m. r \<noteq> Network_Report m" by blast
    with Round show ?thesis by (simp add: handed_no_network)
  qed (simp_all add: connections_in_def)
  ultimately show ?thesis by (simp add: emitted_connections_def)
qed

lemma handed_append [simp]: "handed node (xs @ ys) = handed node xs @ handed node ys"
proof (induction xs)
  case (Cons x xs)
  then show ?case by (cases x) (auto split: option.split)
qed simp

lemma node_connections_run:
  "connections_in (handed node (trace (node_step um) (sender_events um) es s)) + emitted_connections (flows s) =
     emitted_connections (flows (node_run um es s))"
proof (induction es arbitrary: s)
  case (Cons e es)
  show ?case
    using Cons.IH [of "node_step um e s"] node_connections_step [of node um e s] by simp
qed (simp add: connections_in_def)

lemma sum_list_by_key:
  fixes g :: "'a \<times> 'b \<Rightarrow> nat"
  shows "finite S \<Longrightarrow> fst ` set es \<subseteq> S \<Longrightarrow>
     sum_list (map g es) = (\<Sum>k\<in>S. sum_list (map g (filter (\<lambda>e. fst e = k) es)))"
proof (induction es)
  case (Cons e es)
  have "(\<Sum>k\<in>S. sum_list (map g (filter (\<lambda>x. fst x = k) (e # es)))) =
      (\<Sum>k\<in>S. (if k = fst e then g e else 0) + sum_list (map g (filter (\<lambda>e. fst e = k) es)))"
    by (rule sum.cong) auto
  also have "\<dots> = g e + (\<Sum>k\<in>S. sum_list (map g (filter (\<lambda>e. fst e = k) es)))"
    using Cons.prems by (simp add: sum.distrib)
  finally show ?case using Cons by simp
qed simp

lemma finished_of_groups:
  "finite S \<Longrightarrow> (\<Sum>cg\<in>S. count_list pcs (Finished cg)) \<le> length (filter (\<lambda>pc. case pc of Finished cg \<Rightarrow> True | _ \<Rightarrow> False) pcs)"
proof (induction pcs)
  case (Cons pc pcs)
  have "(\<Sum>cg\<in>S. count_list (pc # pcs) (Finished cg)) =
      (\<Sum>cg\<in>S. (if pc = Finished cg then 1 else 0) + count_list pcs (Finished cg))"
    by (rule sum.cong) auto
  also have "\<dots> = (\<Sum>cg\<in>S. if pc = Finished cg then 1 else 0) + (\<Sum>cg\<in>S. count_list pcs (Finished cg))"
    by (rule sum.distrib)
  finally show ?case using Cons by (cases pc) auto
qed simp

lemma emitted_bound: "10 * emitted_connections (fold flow_act acts flow_init) \<le> established (base (fold flow_act acts flow_init))"
proof -
  let ?s = "fold flow_act acts flow_init"
  let ?S = "fst ` set (emitted ?s)"
  have share: "share 10 ConnectionsEstablished"
    by (rule share_div) (simp add: convertRPSToNetworkFlow_def Let_def unat_div)
  have "emitted_connections ?s = (\<Sum>cg\<in>?S. sum_for ConnectionsEstablished cg ?s)"
    unfolding emitted_connections_def sum_for_def by (rule sum_list_by_key) simp_all
  then have "10 * emitted_connections ?s = (\<Sum>cg\<in>?S. 10 * sum_for ConnectionsEstablished cg ?s)"
    by (simp add: sum_distrib_left)
  also have "\<dots> \<le> (\<Sum>cg\<in>?S. finished (base ?s) cg)" by (rule sum_mono) (rule flow_run [OF share])
  also have "\<dots> \<le> established (base ?s)"
    unfolding finished_def established_def by (rule finished_of_groups) simp
  finally show ?thesis .
qed

section \<open>Sending what there is\<close>

text \<open>One round of the security collector and one minute of the sender.\<close>

definition report_and_send :: "int \<Rightarrow> nat \<Rightarrow> string list \<Rightarrow> bool \<Rightarrow> node_event list" where
  "report_and_send now i uuids ok = Round (Visit_Security now i) # Minute # map Next_Message uuids @ [Answer ok]"

lemma sending_link:
  "link (node_run um (Minute # map Next_Message uuids @ [Answer ok]) s) =
     fold sender_step (Tick # map Receive uuids @ [Finish ok]) (link s)"
proof -
  have "link (node_run um (map Next_Message uuids) t) = fold sender_step (map Receive uuids) (link t)" for t
    by (induction uuids arbitrary: t) simp_all
  then show ?thesis by simp
qed

lemma link_inv: "sender_inv (link (node_run um es (node_init node key)))"
  unfolding link_part.here_run by (simp add: node_init_def sender_run)

lemma link_key: "api_key (link (node_run um es (node_init node key))) = key"
    "node_name (link (node_run um es (node_init node key))) = node"
  unfolding link_part.here_run by (simp_all add: node_init_def New_def)

lemma round_sends:
  assumes "phase (link s) = Waiting" and "sender_inv (link s)" and "length (pending (ch (link s))) < 400"
    and "handed_over um v s = [r]" and "wrapped (node_name (link s)) r = Some ev"
    and "length uuids = Suc (length (pending (ch (link s))))"
  shows "collect_calls (link (node_run um (Round v # Minute # map Next_Message uuids @ [Answer ok]) s)) =
    collect_calls (link s) @ [(map2 (stamp (api_key (link s))) uuids (pending (ch (link s)) @ [ev]), ok)]"
proof -
  let ?l = "sender_step (Handle r) (link s)"
  have l: "?l = link (node_step um (Round v) s)" using assms(4) by simp
  have "capacity (ch (link s)) = 400" using assms(2) by (simp add: sender_inv_def)
  then have p: "pending (ch ?l) = pending (ch (link s)) @ [ev]" "phase ?l = Waiting"
      "collect_calls ?l = collect_calls (link s)"
    using assms(1,3,5) by (simp_all add: handle_wrapped try_send_def)
  have "collect_calls (fold sender_step (Tick # map Receive uuids @ [Finish ok]) ?l) =
      collect_calls ?l @ [(map2 (stamp (api_key ?l)) uuids (pending (ch ?l)), ok)]"
    using quiet_minute [OF sender_inv_step [OF assms(2)], of "Handle r" uuids ok] p assms(6)
    by (simp del: sender_step.simps fold_simps)
  then show ?thesis
    using sending_link [of um uuids ok "node_step um (Round v) s"] p
    by (simp add: l del: sender_step.simps fold_simps(2))
qed

lemma stamped_last:
  assumes "length uuids = Suc (length evs)"
  obtains uuid where "stamp key uuid ev \<in> set (map2 (stamp key) uuids (evs @ [ev]))"
proof
  show "stamp key (uuids ! length evs) ev \<in> set (map2 (stamp key) uuids (evs @ [ev]))"
    using assms by (auto simp: set_conv_nth intro!: exI [of _ "length evs"])
qed

section \<open>The messages of the security monitor\<close>

lemma security_rounds:
  "Security_Report (Some m) \<in> set (handed_over um v s) \<Longrightarrow>
     \<exists>now. m \<in> set (fst (collect_security um (containers s) now (w_sec (kernel s))))"
  by (cases v) (auto simp: message_at_def split: option.splits if_splits intro: nth_mem)

text \<open>A message tells the counts at the time of its round, and an entry of the container table is behind it.\<close>

lemma security_message_counts:
  assumes "unmarshaller um" and "groups_in K es" and "s = node_run um es (node_init node key)"
    and "m \<in> set (fst (collect_security um (containers s) now (w_sec (kernel s))))"
  obtains cg info where "GetContainerByCgroupID (containers s) cg = Some info"
    and "TotalSyscalls m = of_nat (node_calls Any_Call cg es)"
    and "SuspiciousPatterns m = of_nat (node_calls Suspicious_Call cg es)"
    and "PrivilegeEscalationAttempts m = of_nat (node_calls Escalation cg es)" and "SyscallCounts m = Map.empty"
proof -
  let ?M = "security_metrics_map (w_sec (kernel s))"
  obtain cg c info where c: "(cg, c) \<in> set (elems ?M)" and info: "GetContainerByCgroupID (containers s) cg = Some info"
    and msg: "security_message (getSyscallCounts um (w_sec (kernel s))) now c info = Some m"
    using assms(4) by (auto simp: collect_security_entries [OF assms(1)] emit_set)
  have "map_lookup ?M cg = Some c"
    using c node_sec_wf [OF assms(2), of um node key] by (simp add: assms(3) entry_lookup)
  then have count: "class_counter k c = of_nat (node_calls k cg es)" for k
    using node_counts [OF assms(2), of k um node key cg] by (simp add: assms(3) map_total_def)
  have fields: "TotalSyscalls m = total_syscalls c" "SuspiciousPatterns m = suspicious_syscalls c"
      "PrivilegeEscalationAttempts m = privilege_escalation_attempts c"
      "SyscallCounts m = getSyscallCounts um (w_sec (kernel s))"
    using msg by (auto simp: security_message_def Let_def split: if_splits)
  show ?thesis
    using that [OF info] fields count [of Any_Call] count [of Suspicious_Call] count [of Escalation]
    by (simp add: class_counter.simps getSyscallCounts_empty [OF assms(1)])
qed

text \<open>Conversely, a group with a container and a call has a round that hands its message over.\<close>

lemma security_round:
  assumes "unmarshaller um" and "groups_in K es" and "s = node_run um es (node_init node key)"
    and "GetContainerByCgroupID (containers s) cg = Some info"
    and "0 < node_calls Any_Call cg es" and "node_calls Any_Call cg es \<le> 2 ^ 53"
  obtains i m where "handed_over um (Visit_Security now i) s = [Security_Report (Some m)]"
    and "TotalSyscalls m = of_nat (node_calls Any_Call cg es)"
    and "SuspiciousPatterns m = of_nat (node_calls Suspicious_Call cg es)"
    and "PrivilegeEscalationAttempts m = of_nat (node_calls Escalation cg es)"
proof -
  have "map_total (class_counter c) (security_metrics_map (w_sec (kernel s))) cg = of_nat (node_calls c cg es)" for c
    unfolding assms(3) by (rule node_counts [OF assms(2)])
  from security_counters_reported [OF assms(1,4) this assms(5,6), of now]
  obtain m where m: "m \<in> set (fst (collect_security um (containers s) now (w_sec (kernel s))))"
      "TotalSyscalls m = of_nat (node_calls Any_Call cg es)"
      "SuspiciousPatterns m = of_nat (node_calls Suspicious_Call cg es)"
      "PrivilegeEscalationAttempts m = of_nat (node_calls Escalation cg es)" by blast
  then obtain i where "i < length (fst (collect_security um (containers s) now (w_sec (kernel s))))"
      "fst (collect_security um (containers s) now (w_sec (kernel s))) ! i = m"
    by (auto simp: in_set_conv_nth)
  then have "handed_over um (Visit_Security now i) s = [Security_Report (Some m)]"
    by (simp add: message_at_def)
  from that [OF this m(2-4)] show ?thesis .
qed

section \<open>A node for the examples\<close>

text \<open>A pod is found, one of its threads makes a system call.\<close>

definition group_ab :: u64 where
  "group_ab = simpleHash ''ab''"

definition scene_ab :: scene where
  "scene_ab = (scene_of 7 2000 [])\<lparr>task := (task (scene_of 7 2000 []))\<lparr>kmem :=
     kheap0\<lparr>h_kernfs_id := (\<lambda>_. Some group_ab)\<rparr>\<rparr>\<rparr>"

definition first_call :: "node_event list" where
  "first_call = [Refresh host0 (Inr [pod0]), Kernel (Enter scene_ab (call_of 0) 0 True)]"

lemma first_call_group: "get_cgroup_id (task scene_ab) = group_ab"
  by (simp add: scene_ab_def get_cgroup_id_def core_read_def)

lemma first_call_in: "groups_in {group_ab} first_call"
  by (simp add: groups_in_def first_call_def call_of_def nr_openat_def first_call_group Let_def)

lemma first_call_counted: "node_calls Any_Call group_ab first_call = 1"
  by (simp add: node_calls_def first_call_def call_of_def nr_openat_def first_call_group Let_def)

lemma first_call_known:
  obtains info where "GetContainerByCgroupID (containers (node_run um first_call (node_init ''n1'' ''key''))) group_ab = Some info"
proof -
  let ?cm0 = "NewContainerMapper ''n1''"
  obtain cm where cm: "RefreshContainerMappings host0 (Inr [pod0]) ?cm0 = Inr cm"
    by (simp add: RefreshContainerMappings_def)
  have "(pod0, \<lparr>cs_container_id = ''containerd://ab'', cs_running = Some 7\<rparr>) \<in> listed [pod0]"
    by (simp add: listed_def pod0_def)
  from refresh_tables(2) [OF cm this] have "containerToCgroup cm ''ab'' \<noteq> None"
    by (simp add: extract_runtime_prefix)
  then have "cgroupToContainer cm group_ab \<noteq> None"
    using refresh_tables(1) [OF cm] by (auto simp: tables_ok_def group_ab_def)
  then show ?thesis
    using that cm by (auto simp: first_call_def node_init_def GetContainerByCgroupID_def)
qed

text \<open>A round of the security collector then puts the first message on its way.\<close>

lemma first_message:
  obtains i m where "messages (node_run binary_read (first_call @ [Round (Visit_Security 5 i)]) (node_init ''n1'' ''key'')) =
    [(from_node ''n1'')\<lparr>Security := Some m\<rparr>]"
proof -
  let ?s = "node_run binary_read first_call (node_init ''n1'' ''key'')"
  obtain info where info: "GetContainerByCgroupID (containers ?s) group_ab = Some info"
    using first_call_known by blast
  have "0 < node_calls Any_Call group_ab first_call" "node_calls Any_Call group_ab first_call \<le> 2 ^ 53"
    by (simp_all add: first_call_counted)
  then obtain i m where m: "handed_over binary_read (Visit_Security 5 i) ?s = [Security_Report (Some m)]"
    using security_round [OF binary.unmarshaller_axioms first_call_in refl info] by metis
  have "link ?s = New ''n1'' ''key''" by (simp add: first_call_def node_init_def)
  then have "messages (node_run binary_read (first_call @ [Round (Visit_Security 5 i)]) (node_init ''n1'' ''key'')) =
      [(from_node ''n1'')\<lparr>Security := Some m\<rparr>]"
    using m by (simp add: messages_def New_def batch_def handle_wrapped try_send_def del: handed_over.simps)
  then show ?thesis by (rule that)
qed

section \<open>Properties\<close>

text \<open>
  Property C5. What the backend learns about system calls is true: in every run of the node, every
  message about security that the backend has got, in whatever batch, or that is on its way, tells the exact
  numbers of system calls, of suspicious ones and of escalations that some group had made at some
  moment of the run; and the id of that group is the hash of a container that was listed as running by a
  refresh before that moment. The table of single calls in it is always empty.
\<close>

theorem security_messages_true:
  assumes "unmarshaller um" and "groups_in K es" and "s = node_run um es (node_init node key)"
    and "ev \<in> set (messages s)" and "Security ev = Some m"
  shows "\<exists>es1 es2 H pods info. es = es1 @ es2 \<and> Refresh H (Inr pods) \<in> set es1 \<and> describes H pods info \<and>
    TotalSyscalls m = of_nat (node_calls Any_Call (CgroupID info) es1) \<and>
    SuspiciousPatterns m = of_nat (node_calls Suspicious_Call (CgroupID info) es1) \<and>
    PrivilegeEscalationAttempts m = of_nat (node_calls Escalation (CgroupID info) es1) \<and>
    SyscallCounts m = Map.empty"
proof -
  obtain es1 v es2 r where es: "es = es1 @ Round v # es2"
    and r: "r \<in> set (handed_over um v (node_run um es1 (node_init node key)))" "wrapped node r = Some (unstamped ev)"
    using message_origin [OF assms(4) [unfolded assms(3)]] by blast
  have "r = Security_Report (Some m)"
    using wrapped_kinds(3) [OF r(2)] assms(5) by (cases r) auto
  then obtain now where "m \<in> set (fst (collect_security um (containers (node_run um es1 (node_init node key))) now
      (w_sec (kernel (node_run um es1 (node_init node key))))))"
    using security_rounds r(1) by blast
  from security_message_counts [OF assms(1) groups_in_prefix [OF assms(2) [unfolded es]] refl this]
  obtain cg info where info: "GetContainerByCgroupID (containers (node_run um es1 (node_init node key))) cg = Some info"
    and counts: "TotalSyscalls m = of_nat (node_calls Any_Call cg es1)"
      "SuspiciousPatterns m = of_nat (node_calls Suspicious_Call cg es1)"
      "PrivilegeEscalationAttempts m = of_nat (node_calls Escalation cg es1)" "SyscallCounts m = Map.empty" by blast
  from table_described [OF info] obtain H pods
    where "Refresh H (Inr pods) \<in> set es1" "describes H pods info" "CgroupID info = cg" by blast
  with es counts show ?thesis by blast
qed

theorem security_messages_true_witness:
  "\<exists>i m. messages (node_run binary_read (first_call @ [Round (Visit_Security 5 i)]) (node_init ''n1'' ''key'')) =
       [(from_node ''n1'')\<lparr>Security := Some m\<rparr>] \<and> SyscallCounts m = Map.empty"
proof -
  obtain i m where msgs: "messages (node_run binary_read (first_call @ [Round (Visit_Security 5 i)])
      (node_init ''n1'' ''key'')) = [(from_node ''n1'')\<lparr>Security := Some m\<rparr>]" by (rule first_message)
  have groups: "groups_in {group_ab} (first_call @ [Round (Visit_Security 5 i)])"
    using first_call_in by (simp add: groups_in_def)
  have on_way: "(from_node ''n1'')\<lparr>Security := Some m\<rparr> \<in>
      set (messages (node_run binary_read (first_call @ [Round (Visit_Security 5 i)]) (node_init ''n1'' ''key'')))"
    unfolding msgs by simp
  have "Security ((from_node ''n1'')\<lparr>Security := Some m\<rparr>) = Some m" by simp
  from security_messages_true [OF binary.unmarshaller_axioms groups refl on_way this]
  have "SyscallCounts m = Map.empty" by blast
  with msgs show ?thesis by blast
qed

text \<open>
  Property C6. And it can learn them: in every reachable state in which the sender waits for its ticker and the
  channel is not full, for every group that is in the container table and has made a call, there is
  a round of the security collector after which one minute of the sender makes one call of the backend, and in its
  batch is a message, stamped with the key, with exactly the numbers of the calls of that group so far.
\<close>

theorem security_counts_sent:
  assumes "unmarshaller um" and "groups_in K es" and "s = node_run um es (node_init node key)"
    and "phase (link s) = Waiting" and "length (pending (ch (link s))) < 400"
    and "GetContainerByCgroupID (containers s) cg = Some info"
    and "0 < node_calls Any_Call cg es" and "node_calls Any_Call cg es \<le> 2 ^ 53"
    and "length uuids = Suc (length (pending (ch (link s))))"
  shows "\<exists>i b ev m. collect_calls (link (node_run um (report_and_send now i uuids ok) s)) =
      collect_calls (link s) @ [(b, ok)] \<and> ev \<in> set b \<and> Apikey ev = Some key \<and> Security ev = Some m \<and>
    TotalSyscalls m = of_nat (node_calls Any_Call cg es) \<and>
    SuspiciousPatterns m = of_nat (node_calls Suspicious_Call cg es) \<and>
    PrivilegeEscalationAttempts m = of_nat (node_calls Escalation cg es)"
proof -
  obtain i m where round: "handed_over um (Visit_Security now i) s = [Security_Report (Some m)]"
    and counts: "TotalSyscalls m = of_nat (node_calls Any_Call cg es)"
      "SuspiciousPatterns m = of_nat (node_calls Suspicious_Call cg es)"
      "PrivilegeEscalationAttempts m = of_nat (node_calls Escalation cg es)"
    using security_round [OF assms(1-3,6-8)] by blast
  let ?ev = "(from_node node)\<lparr>Security := Some m\<rparr>"
  have "sender_inv (link s)" "api_key (link s) = key" "node_name (link s) = node"
    by (simp_all add: assms(3) link_inv link_key)
  then have sent: "collect_calls (link (node_run um (report_and_send now i uuids ok) s)) =
      collect_calls (link s) @ [(map2 (stamp key) uuids (pending (ch (link s)) @ [?ev]), ok)]"
    unfolding report_and_send_def using round_sends [OF assms(4) _ assms(5) round _ assms(9), of ?ev ok] by simp
  obtain uuid where "stamp key uuid ?ev \<in> set (map2 (stamp key) uuids (pending (ch (link s)) @ [?ev]))"
    using stamped_last [OF assms(9)] by blast
  moreover have "Apikey (stamp key uuid ?ev) = Some key" "Security (stamp key uuid ?ev) = Some m"
    by (simp_all add: stamp_def)
  ultimately show ?thesis using sent counts by blast
qed

theorem security_counts_sent_witness:
  "\<exists>i b ev m. collect_calls (link (node_run binary_read (first_call @ report_and_send 5 i [''u''] True)
       (node_init ''n1'' ''key''))) = [(b, True)] \<and> ev \<in> set b \<and> Security ev = Some m \<and> TotalSyscalls m = 1"
proof -
  let ?s = "node_run binary_read first_call (node_init ''n1'' ''key'')"
  obtain info where info: "GetContainerByCgroupID (containers ?s) group_ab = Some info"
    using first_call_known by blast
  have link: "link ?s = New ''n1'' ''key''" by (simp add: first_call_def node_init_def)
  from security_counts_sent [OF binary.unmarshaller_axioms first_call_in refl _ _ info, of "[''u'']" 5 True]
  have "\<exists>i b ev m. collect_calls (link (node_run binary_read (report_and_send 5 i [''u''] True) ?s)) = [(b, True)] \<and>
      ev \<in> set b \<and> Security ev = Some m \<and> TotalSyscalls m = 1"
    by (simp add: link first_call_counted New_def) blast
  then show ?thesis by (simp only: fold_append o_apply)
qed

text \<open>
  Property C11. Of seven kinds of metrics two never leave the node: as long as nobody attaches the probes on
  \<open>ServeHTTP\<close>, which the program itself never does, no message of any run has metrics of HTTP requests,
  neither from the map nor from the ring buffer, or of the CPU.
\<close>

theorem no_http_no_cpu:
  assumes "unmarshaller um" and "list_all (\<lambda>e. list_all (\<lambda>k. \<not> serves k) (kernel_events e)) es"
    and "s = node_run um es (node_init node key)" and "ev \<in> set (messages s)"
  shows "Http ev = None \<and> CpuPatterns ev = None"
proof -
  obtain es1 v es2 r where es: "es = es1 @ Round v # es2"
    and r: "r \<in> set (handed_over um v (node_run um es1 (node_init node key)))" "wrapped node r = Some (unstamped ev)"
    using message_origin [OF assms(4) [unfolded assms(3)]] by blast
  have "unmeasured (w_http (kernel (node_run um es1 (node_init node key))))"
    using assms(2) by (intro run_unmeasured) (simp add: es)
  from unmeasured_silent [OF assms(1) this] cpu_silent [OF assms(1)] r(1)
  have "\<forall>m. r \<noteq> HTTP_Report m" "\<forall>m. r \<noteq> CPU_Report m" by blast+
  then show ?thesis using wrapped_kinds(1,2) [OF r(2)] by (cases r) auto
qed

theorem no_http_no_cpu_witness:
  "\<exists>i ev. messages (node_run binary_read (first_call @ [Round (Visit_Security 5 i)]) (node_init ''n1'' ''key'')) = [ev] \<and>
     Http ev = None \<and> CpuPatterns ev = None"
proof -
  obtain i m where msgs: "messages (node_run binary_read (first_call @ [Round (Visit_Security 5 i)])
      (node_init ''n1'' ''key'')) = [(from_node ''n1'')\<lparr>Security := Some m\<rparr>]" by (rule first_message)
  have "list_all (\<lambda>e. list_all (\<lambda>k. \<not> serves k) (kernel_events e)) (first_call @ [Round (Visit_Security 5 i)])"
    by (simp add: first_call_def)
  moreover have "(from_node ''n1'')\<lparr>Security := Some m\<rparr> \<in>
      set (messages (node_run binary_read (first_call @ [Round (Visit_Security 5 i)]) (node_init ''n1'' ''key'')))"
    unfolding msgs by simp
  ultimately have "Http ((from_node ''n1'')\<lparr>Security := Some m\<rparr>) = None \<and>
      CpuPatterns ((from_node ''n1'')\<lparr>Security := Some m\<rparr>) = None"
    by (rule no_http_no_cpu [OF binary.unmarshaller_axioms _ refl])
  with msgs show ?thesis by blast
qed

text \<open>
  Property C31. Over all control groups together, and whatever the two pollers, the collectors and the sender do,
  the established connections that all messages to the backend report add up to at most a tenth of
  the connections established on the node.
\<close>

theorem backend_sees_tenth:
  "10 * connections_in (messages (node_run um es (node_init node key)))
     \<le> established (base (flows (node_run um es (node_init node key))))"
proof -
  let ?s = "node_run um es (node_init node key)"
  let ?tr = "trace (node_step um) (sender_events um) es (node_init node key)"
  have "connections_in (messages ?s) \<le> connections_in (handed node ?tr)"
    using connections_in_subseq [OF messages_handed] unfolding connections_in_unstamped .
  also have "\<dots> \<le> emitted_connections (flows ?s)"
    using node_connections_run [of node um es "node_init node key"] by simp
  finally have "10 * connections_in (messages ?s) \<le> 10 * emitted_connections (flows ?s)" by simp
  also have "\<dots> \<le> established (base (flows ?s))"
    unfolding flow_part.here_run by (simp add: node_init_def emitted_bound)
  finally show ?thesis .
qed

end
