(* ===== verification/Figures.thy ===== *)
theory Figures
  imports Pipeline
begin

text \<open>
  What the figures in the messages can say: which of them no program ever counts, so that they are zero
  in every message, and which belong together. Both are invariants of the entries, carried by the
  runs of the node to every message.
\<close>

section \<open>Figures that no program counts\<close>

definition sec_blank :: "security_metrics \<Rightarrow> bool" where
  "sec_blank c \<longleftrightarrow> cpu_violations c = 0 \<and> fd_violations c = 0 \<and> process_violations c = 0 \<and>
     suspicious_connections c = 0 \<and> blocked_connections c = 0 \<and> port_scan_attempts c = 0 \<and>
     container_escape_attempts c = 0 \<and> unauthorized_file_access c = 0"

lemma sec_blank_charges [simp]:
  "sec_blank (metrics_new now)" "sec_blank (charge_syscall now c) = sec_blank c"
  "sec_blank (charge_suspicious nr c) = sec_blank c" "sec_blank (charge_exec susp r c) = sec_blank c"
  "sec_blank (c\<lparr>sensitive_file_access := x\<rparr>) = sec_blank c" "sec_blank (c\<lparr>system_file_modifications := x\<rparr>) = sec_blank c"
  "sec_blank (c\<lparr>memory_violations := x\<rparr>) = sec_blank c"
  by (simp_all add: sec_blank_def metrics_new_def charge_syscall_def charge_suspicious_def
      Security_Monitor.charge_exec_def security_metrics_zero_def Let_def)

definition sec_figures :: "sec_state \<Rightarrow> bool" where
  "sec_figures s \<longleftrightarrow> all_entries sec_blank (security_metrics_map s) \<and> map_wf (security_metrics_map s)"

lemma sec_figures_step: "sec_figures s \<Longrightarrow> sec_figures (sec_step e s)"
proof (cases e)
  case (Sys_Enter E ctx)
  moreover assume "sec_figures s"
  ultimately show ?thesis
    by (auto simp: sec_figures_def trace_sys_enter_def after_def Let_def count_call_def map_wf_ops
        intro!: all_entries_charge_case all_entries_modify all_entries_put split: option.split)
next
  case (Process_Exec E ctx)
  moreover assume "sec_figures s"
  ultimately show ?thesis by (auto simp: sec_figures_def metrics_exec map_wf_ops intro!: all_entries_modify)
next
  case (File_Access E ctx)
  moreover assume "sec_figures s"
  ultimately show ?thesis
    by (auto simp: sec_figures_def trace_file_access_def after_def Let_def map_wf_ops split: option.split
        intro!: all_entries_modify)
qed (auto simp: sec_figures_def sec_handlers Let_def map_wf_ops split: option.split intro!: all_entries_modify)

definition fs_blank :: "fs_metrics \<Rightarrow> bool" where
  "fs_blank c \<longleftrightarrow> close_ops c = 0 \<and> sync_ops c = 0 \<and> permission_errors c = 0"

lemma fs_blank_charges [simp]:
  "fs_blank (open_metrics_new l now)" "fs_blank (read_metrics_new n l now)" "fs_blank (write_metrics_new n l now)"
  "fs_blank (charge_open l now c) = fs_blank c" "fs_blank (charge_read n l now c) = fs_blank c"
  "fs_blank (charge_write n l now c) = fs_blank c" "fs_blank (c\<lparr>io_errors := x\<rparr>) = fs_blank c"
  by (simp_all add: fs_blank_def open_metrics_new_def read_metrics_new_def write_metrics_new_def
      fs_metrics_zero_def charge_open_def charge_read_def charge_write_def Let_def)

definition fs_figures :: "fs_state \<Rightarrow> bool" where
  "fs_figures s \<longleftrightarrow> all_entries fs_blank (fs_metrics_map s) \<and> map_wf (fs_metrics_map s)"

lemma fs_figures_step: "fs_figures s \<Longrightarrow> fs_figures (fs_step e s)"
  by (cases e) (auto simp: fs_figures_def trace_openat_enter_def trace_openat_exit_def trace_read_enter_def
      trace_read_exit_def trace_write_enter_def trace_write_exit_def Let_def map_wf_ops split: option.split
      intro!: all_entries_put all_entries_modify)

text \<open>Memory and applications: the invariants are there, what is left is that maps keep their form.\<close>

definition mem_figures :: "mem_state \<Rightarrow> bool" where
  "mem_figures s \<longleftrightarrow> mem_inv s \<and> map_wf (memory_metrics_map s) \<and> map_wf (gc_metrics_map s)"

lemma mem_figures_step: "mem_figures s \<Longrightarrow> mem_figures (mem_step e s)"
proof -
  assume "mem_figures s"
  moreover have "map_wf (memory_metrics_map (mem_step e s)) \<and> map_wf (gc_metrics_map (mem_step e s))"
    if "map_wf (memory_metrics_map s)" "map_wf (gc_metrics_map s)"
    using that by (cases e) (auto simp: mem_handlers Let_def map_wf_ops split: option.split)
  ultimately show ?thesis by (simp add: mem_figures_def mem_inv_step)
qed

definition app_figures :: "app_state \<Rightarrow> bool" where
  "app_figures s \<longleftrightarrow> app_inv s \<and> map_wf (db_metrics_map s) \<and> map_wf (cache_metrics_map s) \<and> map_wf (go_metrics_map s)"

lemma app_figures_step: "app_figures s \<Longrightarrow> app_figures (app_step e s)"
proof -
  assume "app_figures s"
  moreover have "map_wf (db_metrics_map (app_step e s)) \<and> map_wf (cache_metrics_map (app_step e s)) \<and>
      map_wf (go_metrics_map (app_step e s))"
    if "map_wf (db_metrics_map s)" "map_wf (cache_metrics_map s)" "map_wf (go_metrics_map s)"
    using that by (cases e) (auto simp: app_handlers Let_def map_wf_ops split: option.split)
  ultimately show ?thesis by (simp add: app_figures_def app_inv_step)
qed

section \<open>Through the node\<close>

interpretation sec_blanks: event_machine sec_step "\<lambda>_. True" sec_figures
  by unfold_locales (rule sec_figures_step)

interpretation fs_blanks: event_machine fs_step "\<lambda>_. True" fs_figures
  by unfold_locales (rule fs_figures_step)

interpretation mem_blanks: event_machine mem_step "\<lambda>_. True" mem_figures
  by unfold_locales (rule mem_figures_step)

interpretation app_blanks: event_machine app_step "\<lambda>_. True" app_figures
  by unfold_locales (rule app_figures_step)

definition figures :: "watcher \<Rightarrow> bool" where
  "figures w \<longleftrightarrow> sec_figures (w_sec w) \<and> fs_figures (w_fs w) \<and> mem_figures (w_mem w) \<and> app_figures (w_app w)"

lemma figures_step: "figures w \<Longrightarrow> figures (watcher_step e w)"
  by (simp add: figures_def watcher_step_def sec_blanks.run_inv fs_blanks.run_inv mem_blanks.run_inv
      app_blanks.run_inv list_all_iff)

interpretation watcher_figures: event_machine watcher_step "\<lambda>_. True" figures
  by unfold_locales (rule figures_step)

interpretation node_figures: part_inv "node_step um" kernel watcher_step kernel_events "\<lambda>_. True" figures for um
  by unfold_locales

lemma figures_init: "figures watcher_init"
  by (simp add: figures_def watcher_init_def sec_figures_def fs_figures_def mem_figures_def app_figures_def
      mem_inv_init app_inv_init)
    (simp add: sec_init_def initializeSecurityPolicies_def sec_loaded_def fs_init_def mem_init_def app_init_def)

lemma node_run_figures: "figures (kernel (node_run um es (node_init node key)))"
  by (rule node_figures.lift.run_inv) (simp_all add: list_all_iff node_init_def figures_init)

section \<open>Of the messages\<close>

text \<open>The messages of a kind are made from entries.\<close>

lemma rounds_of_kind:
  "Memory_Report (Some m) \<in> set (handed_over um v s) \<Longrightarrow>
     \<exists>now. m \<in> set (fst (collect_memory um (containers s) now (w_mem (kernel s))))"
  "FS_Report (Some f) \<in> set (handed_over um v s) \<Longrightarrow>
     \<exists>now. f \<in> set (fst (collect_fs um (containers s) now (w_fs (kernel s))))"
  "App_Report (Some a) \<in> set (handed_over um v s) \<Longrightarrow>
     \<exists>now cg. collect_app um now (w_app (kernel s)) cg = Some a"
  by (cases v; auto simp: message_at_def split: option.splits if_splits intro: nth_mem)+

lemma wrapped_other_kinds:
  assumes "wrapped node r = Some e"
  shows "MemoryPatterns e = (case r of Memory_Report m \<Rightarrow> m | _ \<Rightarrow> None)"
    and "Filesystem e = (case r of FS_Report m \<Rightarrow> m | _ \<Rightarrow> None)"
    and "Application e = (case r of App_Report m \<Rightarrow> m | _ \<Rightarrow> None)"
  using assms by (cases r; auto simp: from_node_def)+

lemma unstamped_other_kinds [simp]:
  "MemoryPatterns (unstamped ev) = MemoryPatterns ev" "Filesystem (unstamped ev) = Filesystem ev"
  "Application (unstamped ev) = Application ev"
  by (simp_all add: unstamped_def)

lemma entry_all: "all_entries P m \<Longrightarrow> map_wf m \<Longrightarrow> (k, v) \<in> set (elems m) \<Longrightarrow> P v"
  by (simp add: entry_lookup all_entries_def)

definition security_zeros :: "pb_SecurityMetrics \<Rightarrow> bool" where
  "security_zeros m \<longleftrightarrow> CpuThrottlingEvents m = 0 \<and> FdLimitViolations m = 0 \<and> ProcessLimitViolations m = 0 \<and>
     SuspiciousConnections m = 0 \<and> BlockedOutboundConnections m = 0 \<and> PortScanningAttempts m = 0 \<and>
     ContainerEscapeAttempts m = 0 \<and> UnauthorizedFileAccess m = 0 \<and> SyscallCounts m = Map.empty"

lemma security_message_zeros:
  assumes "unmarshaller um" and "sec_figures s" and "m \<in> set (fst (collect_security um cm now s))"
  shows "security_zeros m"
proof -
  obtain cg c info where c: "(cg, c) \<in> set (elems (security_metrics_map s))"
    and msg: "security_message (getSyscallCounts um s) now c info = Some m"
    using assms(3) by (auto simp: collect_security_entries [OF assms(1)] emit_set)
  have "sec_blank c" using assms(2) c by (auto simp: sec_figures_def dest: entry_all)
  then show ?thesis
    using msg by (auto simp: security_zeros_def sec_blank_def security_message_def Let_def
        getSyscallCounts_empty [OF assms(1)] split: if_splits)
qed

definition fs_zeros :: "pb_FileSystemMetrics \<Rightarrow> bool" where
  "fs_zeros m \<longleftrightarrow> CloseOps m = 0 \<and> SyncOps m = 0 \<and> PermissionErrors m = 0"

lemma fs_message_zeros:
  assumes "unmarshaller um" and "fs_figures s" and "m \<in> set (fst (collect_fs um cm now s))"
  shows "fs_zeros m" and "in_order (ReadLatency m)" and "in_order (WriteLatency m)" and "in_order (OpenLatency m)"
proof -
  obtain cg c info where c: "(cg, c) \<in> set (elems (fs_metrics_map s))" and msg: "fs_message now c info = Some m"
    using assms(3) by (auto simp: collect_fs_entries [OF assms(1)] emit_set)
  have "fs_blank c" using assms(2) c by (auto simp: fs_figures_def dest: entry_all)
  then show "fs_zeros m"
    using msg by (auto simp: fs_zeros_def fs_blank_def fs_message_def Let_def split: if_splits)
qed (use assms(3) fs_message_latencies in \<open>auto simp: collect_fs_entries [OF assms(1)] emit_set\<close>)

definition memory_adds_up :: "pb_MemoryPatterns \<Rightarrow> bool" where
  "memory_adds_up m \<longleftrightarrow> AllocCount m = SmallAllocs m + MediumAllocs m + LargeAllocs m + HugeAllocs m \<and>
     NetAllocated m = BytesAllocated m - BytesFreed m"

definition memory_zeros :: "pb_MemoryPatterns \<Rightarrow> bool" where
  "memory_zeros m \<longleftrightarrow> PageFaults m = 0 \<and> MajorPageFaults m = 0 \<and>
     (\<forall>g. Gc m = Some g \<longrightarrow> GcTimeUs g = 0 \<and> BytesCollected g = 0 \<and> GcOverheadPercent g = 0)"

lemma memory_message_figures:
  assumes "unmarshaller um" and "mem_figures s" and "m \<in> set (fst (collect_memory um cm now s))"
  shows "memory_adds_up m" and "memory_zeros m"
proof -
  obtain cg c info where c: "(cg, c) \<in> set (elems (memory_metrics_map s))"
    and msg: "memory_message (getGCMetrics um s) now c info = Some m"
    using assms(3) by (auto simp: collect_memory_entries [OF assms(1)] emit_set)
  have ok: "mem_entry_ok c" using assms(2) c by (auto simp: mem_figures_def mem_inv_def dest: entry_all)
  have "gc_entry_ok g" if "getGCMetrics um s info = Some g" for g
    using that assms(2)
    by (auto simp: getGCMetrics_def GCMetrics_def gc_value.reads_back [OF assms(1)] mem_figures_def mem_inv_def
        all_entries_def split: option.splits)
  then show "memory_zeros m"
    using msg ok by (auto simp: memory_zeros_def mem_entry_ok_def memory_message_def gc_message_def gc_entry_ok_def
        Let_def split: if_splits)
  show "memory_adds_up m"
    using msg ok by (auto simp: memory_adds_up_def mem_entry_ok_def memory_message_def split: if_splits)
qed

definition database_zeros :: "pb_DatabaseMetrics \<Rightarrow> bool" where
  "database_zeros d \<longleftrightarrow> DbActiveConnections d = 0 \<and> ConnectionTimeouts d = 0 \<and> Transactions d = 0 \<and>
     Rollbacks d = 0 \<and> AvgTransactionTimeUs d = 0"

definition cache_zeros :: "pb_CacheMetrics \<Rightarrow> bool" where
  "cache_zeros c \<longleftrightarrow> CacheSets c = 0 \<and> CacheDeletes c = 0 \<and> CacheEvictions c = 0 \<and> AvgSetLatencyUs c = 0 \<and>
     CacheSizeBytes c = 0 \<and> CacheUtilization c = 0"

definition go_zeros :: "pb_GoMetrics \<Rightarrow> bool" where
  "go_zeros g \<longleftrightarrow> Goroutines g = 0 \<and> GoroutineStackSize g = 0 \<and> HeapSize g = 0 \<and> HeapAlloc g = 0 \<and>
     HeapIdle g = 0 \<and> ChannelSends g = 0 \<and> ChannelReceives g = 0 \<and> BlockedChannels g = 0"

definition app_zeros :: "pb_ApplicationMetrics \<Rightarrow> bool" where
  "app_zeros a \<longleftrightarrow> pred_option database_zeros (Database a) \<and> pred_option cache_zeros (Cache a) \<and>
     pred_option (pred_option go_zeros \<circ> LanguageGo) (Language a)"

definition app_adds_up :: "pb_ApplicationMetrics \<Rightarrow> bool" where
  "app_adds_up a \<longleftrightarrow> pred_option (\<lambda>c. CacheGets c = CacheHits c + CacheMisses c) (Cache a)"

abbreviation app_fine :: "pb_ApplicationMetrics \<Rightarrow> bool" where
  "app_fine a \<equiv> app_zeros a \<and> app_adds_up a"

lemma converted_zeros:
  "db_entry_ok d \<Longrightarrow> database_zeros (database_message d)"
  "cache_entry_ok c \<Longrightarrow> cache_zeros (cache_message c)"
  "cache_entry_ok c \<Longrightarrow> CacheGets (cache_message c) = CacheHits (cache_message c) + CacheMisses (cache_message c)"
  "go_entry_ok g \<Longrightarrow> go_zeros (go_message g)"
  by (simp_all add: database_zeros_def cache_zeros_def go_zeros_def database_message_def cache_message_def
      go_message_def db_entry_ok_def cache_entry_ok_def go_entry_ok_def average_def Let_def)

lemma get_or_create_fine: "pred_option app_fine old \<Longrightarrow> app_fine (get_or_create now cg old)"
  by (cases old) (simp_all add: get_or_create_def app_zeros_def app_adds_up_def)

lemma passes_fine:
  "db_entry_ok d \<Longrightarrow> pred_option app_fine old \<Longrightarrow> pred_option app_fine (set_database now cg d old)"
  "cache_entry_ok c \<Longrightarrow> pred_option app_fine old \<Longrightarrow> pred_option app_fine (set_cache now cg c old)"
  "go_entry_ok g \<Longrightarrow> pred_option app_fine old \<Longrightarrow> pred_option app_fine (set_go now cg g old)"
  using get_or_create_fine [of old now cg]
  by (auto simp: set_database_def set_cache_def set_go_def app_zeros_def app_adds_up_def converted_zeros Let_def
      split: option.split)

lemma change_by_fine:
  "all_entries P m \<Longrightarrow> (\<And>v old. P v \<Longrightarrow> pred_option app_fine old \<Longrightarrow> pred_option app_fine (f v old)) \<Longrightarrow>
     pred_option app_fine old \<Longrightarrow> pred_option app_fine (change_by f (map_lookup m k) old)"
  by (auto simp: change_by_def all_entries_def split: option.split)

lemma app_message_figures:
  assumes "unmarshaller um" and "app_figures s" and "collect_app um now s cg = Some a"
  shows "app_fine a"
proof -
  have wf: "map_wf (db_metrics_map s)" "map_wf (cache_metrics_map s)" "map_wf (go_metrics_map s)"
    and ok: "all_entries db_entry_ok (db_metrics_map s)" "all_entries cache_entry_ok (cache_metrics_map s)"
      "all_entries go_entry_ok (go_metrics_map s)"
    using assms(2) by (simp_all add: app_figures_def app_inv_def)
  have "pred_option app_fine (collect_app um now s cg)"
    unfolding collect_app_group [OF assms(1) wf]
    by (intro change_by_fine [OF ok(1)] change_by_fine [OF ok(2)] change_by_fine [OF ok(3)] passes_fine) simp_all
  with assms(3) show ?thesis by simp
qed

text \<open>What is handed over in a state whose entries are fine.\<close>

lemma handed_figures:
  assumes "unmarshaller um" and "figures (kernel s)"
  shows "Security_Report (Some q) \<in> set (handed_over um v s) \<Longrightarrow> security_zeros q"
    and "FS_Report (Some f) \<in> set (handed_over um v s) \<Longrightarrow> fs_zeros f \<and>
      in_order (ReadLatency f) \<and> in_order (WriteLatency f) \<and> in_order (OpenLatency f)"
    and "Memory_Report (Some m) \<in> set (handed_over um v s) \<Longrightarrow> memory_adds_up m \<and> memory_zeros m"
    and "App_Report (Some a) \<in> set (handed_over um v s) \<Longrightarrow> app_fine a"
proof -
  have fig: "sec_figures (w_sec (kernel s))" "fs_figures (w_fs (kernel s))" "mem_figures (w_mem (kernel s))"
      "app_figures (w_app (kernel s))"
    using assms(2) by (simp_all add: figures_def)
  show "security_zeros q" if "Security_Report (Some q) \<in> set (handed_over um v s)"
    using security_rounds [OF that] security_message_zeros [OF assms(1) fig(1)] by blast
  show "fs_zeros f \<and> in_order (ReadLatency f) \<and> in_order (WriteLatency f) \<and> in_order (OpenLatency f)"
    if "FS_Report (Some f) \<in> set (handed_over um v s)"
    using rounds_of_kind(2) [OF that] fs_message_zeros [OF assms(1) fig(2)] by blast
  show "memory_adds_up m \<and> memory_zeros m" if "Memory_Report (Some m) \<in> set (handed_over um v s)"
    using rounds_of_kind(1) [OF that] memory_message_figures [OF assms(1) fig(3)] by blast
  show "app_fine a" if "App_Report (Some a) \<in> set (handed_over um v s)"
    using rounds_of_kind(3) [OF that] app_message_figures [OF assms(1) fig(4)] by blast
qed

text \<open>Which report a message was.\<close>

lemma report_of_message:
  assumes "wrapped node r = Some (unstamped ev)"
  shows "Security ev = Some q \<Longrightarrow> r = Security_Report (Some q)" and "Filesystem ev = Some f \<Longrightarrow> r = FS_Report (Some f)"
    and "MemoryPatterns ev = Some m \<Longrightarrow> r = Memory_Report (Some m)"
    and "Application ev = Some a \<Longrightarrow> r = App_Report (Some a)"
  using wrapped_kinds(3) [OF assms] wrapped_other_kinds [OF assms] by (cases r; simp)+

lemma message_figures:
  assumes "unmarshaller um" and "ev \<in> set (messages (node_run um es (node_init node key)))"
  shows "pred_option security_zeros (Security ev)"
    and "pred_option (\<lambda>f. fs_zeros f \<and> in_order (ReadLatency f) \<and> in_order (WriteLatency f) \<and>
      in_order (OpenLatency f)) (Filesystem ev)"
    and "pred_option (\<lambda>m. memory_adds_up m \<and> memory_zeros m) (MemoryPatterns ev)"
    and "pred_option app_fine (Application ev)"
proof -
  obtain es1 v es2 r where "es = es1 @ Round v # es2"
    and r: "r \<in> set (handed_over um v (node_run um es1 (node_init node key)))"
    and ev: "wrapped node r = Some (unstamped ev)"
    by (rule message_origin [OF assms(2)])
  note fine = handed_figures [OF assms(1) node_run_figures]
  show "pred_option security_zeros (Security ev)"
    using report_of_message(1) [OF ev] fine(1) r by (cases "Security ev") auto
  show "pred_option (\<lambda>f. fs_zeros f \<and> in_order (ReadLatency f) \<and> in_order (WriteLatency f) \<and>
      in_order (OpenLatency f)) (Filesystem ev)"
    using report_of_message(2) [OF ev] fine(2) r by (cases "Filesystem ev") auto
  show "pred_option (\<lambda>m. memory_adds_up m \<and> memory_zeros m) (MemoryPatterns ev)"
    using report_of_message(3) [OF ev] fine(3) r by (cases "MemoryPatterns ev") auto
  show "pred_option app_fine (Application ev)"
    using report_of_message(4) [OF ev] fine(4) r by (cases "Application ev") auto
qed

text \<open>A node on which a container allocates memory.\<close>

definition first_allocation :: "node_event list" where
  "first_allocation = [Refresh host0 (Inr [pod0]),
     Kernel (Kmem_Alloc (scene_ab\<lparr>task := (task scene_ab)\<lparr>cgroup := group_ab\<rparr>\<rparr>) (kmalloc_ctx 64 5000))]"

lemma allocation_message:
  obtains i m where "messages (node_run binary_read (first_allocation @ [Round (Visit_Memory 5 i)]) (node_init ''n1'' ''key'')) =
    [(from_node ''n1'')\<lparr>MemoryPatterns := Some m\<rparr>]" and "BytesAllocated m = 5000"
proof -
  let ?s = "node_run binary_read first_allocation (node_init ''n1'' ''key'')"
  have "containers ?s = containers (node_run binary_read first_call (node_init ''n1'' ''key''))"
    by (simp add: first_allocation_def first_call_def)
  then obtain info where info: "GetContainerByCgroupID (containers ?s) group_ab = Some info"
    using first_call_known by metis
  have "w_mem (kernel ?s) = trace_kmalloc (mem_env (scene_ab\<lparr>task := (task scene_ab)\<lparr>cgroup := group_ab\<rparr>\<rparr>))
      (kmalloc_ctx 64 5000) mem_init"
    by (simp add: first_allocation_def node_init_def node_step_def watcher_step_def watcher_init_def)
  then obtain c where c: "map_lookup (memory_metrics_map (w_mem (kernel ?s))) group_ab = Some c"
      "alloc_count c = 1" "bytes_allocated c = 5000"
    by (simp add: trace_kmalloc_def mem_env_def Let_def map_simps)
      (simp add: charge_alloc_def memory_metrics_zero_def update_size_histogram_def Let_def)
  obtain m where m: "memory_message (getGCMetrics binary_read (w_mem (kernel ?s))) 5 c info = Some m"
      "BytesAllocated m = 5000"
    using c(2,3) by (simp add: memory_message_def)
  have "(group_ab, c) \<in> set (elems (memory_metrics_map (w_mem (kernel ?s))))"
    using c(1) by (simp add: map_lookup_def map_of_SomeD)
  then have "m \<in> set (fst (collect_memory binary_read (containers ?s) 5 (w_mem (kernel ?s))))"
    using m(1) info by (auto simp: collect_memory_entries [OF binary.unmarshaller_axioms] emit_set)
  then obtain i where "i < length (fst (collect_memory binary_read (containers ?s) 5 (w_mem (kernel ?s))))"
      "fst (collect_memory binary_read (containers ?s) 5 (w_mem (kernel ?s))) ! i = m"
    by (auto simp: in_set_conv_nth)
  then have "handed_over binary_read (Visit_Memory 5 i) ?s = [Memory_Report (Some m)]" by (simp add: message_at_def)
  moreover have "link ?s = New ''n1'' ''key''" by (simp add: first_allocation_def node_init_def)
  ultimately have "messages (node_run binary_read (first_allocation @ [Round (Visit_Memory 5 i)]) (node_init ''n1'' ''key'')) =
      [(from_node ''n1'')\<lparr>MemoryPatterns := Some m\<rparr>]"
    by (simp add: messages_def New_def batch_def handle_wrapped try_send_def del: handed_over.simps)
  then show ?thesis using m(2) by (rule that)
qed

section \<open>Properties\<close>

text \<open>
  Property C13. Many figures are empty promises: in every run of the node, in every message to the backend,
  eight figures about security (connections, scans, escapes, unauthorised access, limits of CPU, descriptors and
  processes), closes, syncs and permission errors of files, page faults, time and bytes of collections, and,
  of applications, connections, transactions, writes, evictions and sizes of caches, goroutines, heap and
  channels are zero, because no program ever counts them.
\<close>

theorem figures_never_filled:
  assumes "unmarshaller um" and "ev \<in> set (messages (node_run um es (node_init node key)))"
  shows "pred_option security_zeros (Security ev) \<and> pred_option fs_zeros (Filesystem ev) \<and>
    pred_option memory_zeros (MemoryPatterns ev) \<and> pred_option app_zeros (Application ev)"
  using message_figures [OF assms] by (auto simp: option.pred_set)

theorem figures_never_filled_witness:
  "\<exists>i m. messages (node_run binary_read (first_call @ [Round (Visit_Security 5 i)]) (node_init ''n1'' ''key'')) =
     [(from_node ''n1'')\<lparr>Security := Some m\<rparr>] \<and> security_zeros m"
proof -
  obtain i m where msgs: "messages (node_run binary_read (first_call @ [Round (Visit_Security 5 i)])
      (node_init ''n1'' ''key'')) = [(from_node ''n1'')\<lparr>Security := Some m\<rparr>]" by (rule first_message)
  have "(from_node ''n1'')\<lparr>Security := Some m\<rparr> \<in>
      set (messages (node_run binary_read (first_call @ [Round (Visit_Security 5 i)]) (node_init ''n1'' ''key'')))"
    unfolding msgs by simp
  from figures_never_filled [OF binary.unmarshaller_axioms this] have "security_zeros m" by simp
  with msgs show ?thesis by blast
qed



end
