(* ===== verification/Attachments.thy ===== *)
theory Attachments
  imports Watcher "HOL-Library.Multiset"
begin

text \<open>
  The life of the collectors: how \<^verbatim>\<open>ebpf.go\<close> and the \<^verbatim>\<open>New*\<close>, \<^verbatim>\<open>Start\<close>, \<^verbatim>\<open>Attach*\<close> and
  \<^verbatim>\<open>Close\<close> methods of the collectors load programs, attach them, open ring buffers and give all that
  back. What the eBPF library and the kernel answer to each request is a parameter, so every failure
  is a branch. The theory says which programs are ever attached, that these are the ones which the
  theory \<open>Watcher\<close> assumes, and that nothing stays open after \<open>Close\<close>.
\<close>

section \<open>Resources\<close>

datatype component = Uprobes | HTTPMetricsCollector | MemoryTracker | CPUTracker | NetworkFlowTracker
| FSTracker | AppSpecificTracker | SecurityMonitor

text \<open>Where a program can be attached; a probe is named by the executable and the symbol.\<close>

datatype attach_point = Tracepoint string string | Raw_Tracepoint string | Kprobe string
| Uprobe string string | Uretprobe string string

text \<open>A place and the name of the C function that is attached there.\<close>

type_synonym site = "attach_point \<times> string"

text \<open>What the process holds in the kernel: loaded objects, links and readers of ring buffers.\<close>

datatype resource = Objects component | Link component site | Reader component

type_synonym world = "resource multiset"

text \<open>
  The answers of the library and of the client of Kubernetes during one call: each may differ from call to
  call, so every operation has answers of its own.
\<close>

record answers =
  memlock_ok :: "component \<Rightarrow> bool"
  load_ok :: "component \<Rightarrow> bool"
  attach_ok :: "site \<Rightarrow> bool"
  open_ok :: "string \<Rightarrow> bool"
  reader_ok :: "component \<Rightarrow> bool"
  close_ok :: "site \<Rightarrow> bool"
  refresh_ok :: bool

datatype failure = Not_Attached site | Not_Opened string | No_Reader component | Not_Loaded component | Not_Refreshed

text \<open>A symbol in an executable, and which pair of programs belongs there.\<close>

record UprobeTarget =
  Binary :: string
  Symbol :: string
  Type :: string

text \<open>
  A collector: the objects are loaded, \<open>links\<close> and \<open>ringbufReader\<close> are the fields of the structure. For the
  flow tracker and the uprobes the objects are those of the program that they wrap. Only the application tracker
  has targets.
\<close>

record tracker =
  component_of :: component
  links :: "site list"
  ringbufReader :: bool
  uprobeTargets :: "UprobeTarget list"

type_synonym held = "tracker \<times> world"

section \<open>Attaching\<close>

definition attach :: "answers \<Rightarrow> site \<Rightarrow> held \<Rightarrow> failure option \<times> held" where
  "attach A x tw =
     (case tw of (t, W) \<Rightarrow>
        if attach_ok A x then (None, t\<lparr>links := links t @ [x]\<rparr>, add_mset (Link (component_of t) x) W)
        else (Some (Not_Attached x), t, W))"

text \<open>One after the other up to the first failure; and all of them, whatever fails.\<close>

fun attach_all :: "answers \<Rightarrow> site list \<Rightarrow> held \<Rightarrow> failure option \<times> held" where
  "attach_all A [] tw = (None, tw)"
| "attach_all A (x # xs) tw =
     (case attach A x tw of (None, tw') \<Rightarrow> attach_all A xs tw' | (Some e, tw') \<Rightarrow> (Some e, tw'))"

definition attach_each :: "answers \<Rightarrow> site list \<Rightarrow> held \<Rightarrow> failure option \<times> held" where
  "attach_each A xs tw = (None, fold (\<lambda>x tw. snd (attach A x tw)) xs tw)"

definition setupRingBuffer :: "answers \<Rightarrow> held \<Rightarrow> failure option \<times> held" where
  "setupRingBuffer A tw =
     (case tw of (t, W) \<Rightarrow>
        if reader_ok A (component_of t)
        then (None, t\<lparr>ringbufReader := True\<rparr>, add_mset (Reader (component_of t)) W)
        else (Some (No_Reader (component_of t)), t, W))"

text \<open>Go on if there was no error; go on with a warning if there was one.\<close>

definition and_then ::
  "('a \<Rightarrow> failure option \<times> 'b) \<Rightarrow> ('b \<Rightarrow> failure option \<times> 'b) \<Rightarrow> 'a \<Rightarrow> failure option \<times> 'b" where
  "and_then f g x = (case f x of (None, y) \<Rightarrow> g y | (Some e, y) \<Rightarrow> (Some e, y))"

definition or_warn :: "('a \<Rightarrow> failure option \<times> 'b) \<Rightarrow> 'a \<Rightarrow> failure option \<times> 'b" where
  "or_warn f x = (None, snd (f x))"

section \<open>The collectors, one by one\<close>

definition attachTracepoints :: "site list" where
  "attachTracepoints =
     [(Tracepoint ''syscalls'' ''sys_enter_write'', ''trace_http_request_start''),
      (Tracepoint ''syscalls'' ''sys_exit_read'', ''trace_http_request_end'')]"

definition attachKernelTracepoints :: "site list" where
  "attachKernelTracepoints =
     [(Tracepoint ''kmem'' ''kmalloc'', ''trace_kmalloc''), (Tracepoint ''kmem'' ''kfree'', ''trace_kfree'')]"

definition attachSchedulerTracepoints :: "site list" where
  "attachSchedulerTracepoints =
     [(Tracepoint ''sched'' ''sched_switch'', ''trace_sched_switch''),
      (Tracepoint ''sched'' ''sched_wakeup'', ''trace_sched_wakeup'')]"

definition attachFileTracepoints :: "site list" where
  "attachFileTracepoints =
     [(Tracepoint ''syscalls'' ''sys_enter_openat'', ''trace_openat_enter''),
      (Tracepoint ''syscalls'' ''sys_exit_openat'', ''trace_openat_exit''),
      (Tracepoint ''syscalls'' ''sys_enter_read'', ''trace_read_enter''),
      (Tracepoint ''syscalls'' ''sys_exit_read'', ''trace_read_exit''),
      (Tracepoint ''syscalls'' ''sys_enter_write'', ''trace_write_enter''),
      (Tracepoint ''syscalls'' ''sys_exit_write'', ''trace_write_exit'')]"

definition attachRawTracepoints :: "site list" where
  "attachRawTracepoints = [(Raw_Tracepoint ''sys_enter'', ''trace_sys_enter'')]"

definition attachProcessTracepoints :: "site list" where
  "attachProcessTracepoints =
     [(Tracepoint ''sched'' ''sched_process_exec'', ''trace_process_exec''),
      (Tracepoint ''syscalls'' ''sys_enter_openat'', ''trace_file_access'')]"

definition attachNetworkKprobes :: "site list" where
  "attachNetworkKprobes = [(Kprobe ''tcp_connect'', ''trace_tcp_connect'')]"

definition attachResourceTracepoints :: "site list" where
  "attachResourceTracepoints =
     [(Tracepoint ''vmscan'' ''mm_vmscan_memcg_softlimit_reclaim_begin'', ''trace_memory_pressure''),
      (Tracepoint ''oom'' ''oom_score_adj_update'', ''trace_oom_event'')]"

text \<open>Probes in executables.\<close>

definition AttachGoHTTPUprobes :: "answers \<Rightarrow> string \<Rightarrow> held \<Rightarrow> failure option \<times> held" where
  "AttachGoHTTPUprobes A path tw =
     (if \<not> open_ok A path then (Some (Not_Opened path), tw)
      else attach_all A [(Uprobe path ''net/http.(*ServeMux).ServeHTTP'', ''trace_go_http_start''),
        (Uretprobe path ''net/http.(*ServeMux).ServeHTTP'', ''trace_go_http_end'')] tw)"

definition AttachUserSpaceUprobes :: "answers \<Rightarrow> string \<Rightarrow> held \<Rightarrow> failure option \<times> held" where
  "AttachUserSpaceUprobes A path tw =
     (if \<not> open_ok A path then (Some (Not_Opened path), tw)
      else attach_all A [(Uprobe path ''malloc'', ''trace_malloc''), (Uretprobe path ''malloc'', ''trace_malloc_ret''),
        (Uprobe path ''free'', ''trace_free'')] tw)"

definition AttachGoGCUprobes :: "answers \<Rightarrow> string \<Rightarrow> held \<Rightarrow> failure option \<times> held" where
  "AttachGoGCUprobes A path tw =
     (if \<not> open_ok A path then (Some (Not_Opened path), tw)
      else attach_all A [(Uprobe path ''runtime.GC'', ''trace_go_gc_start'')] tw)"

definition common_targets :: "UprobeTarget list" where
  "common_targets =
     [\<lparr>Binary = ''/usr/bin/postgres'', Symbol = ''exec_simple_query'', Type = ''database''\<rparr>,
      \<lparr>Binary = ''/usr/bin/mysqld'', Symbol = ''mysql_execute_command'', Type = ''database''\<rparr>,
      \<lparr>Binary = ''/usr/bin/redis-server'', Symbol = ''lookupCommand'', Type = ''cache''\<rparr>,
      \<lparr>Binary = ''/usr/bin/memcached'', Symbol = ''process_get_command'', Type = ''cache''\<rparr>,
      \<lparr>Binary = ''/usr/local/go/bin/go'', Symbol = ''runtime.GC'', Type = ''gc''\<rparr>,
      \<lparr>Binary = [], Symbol = ''runtime.GC'', Type = ''gc''\<rparr>]"

definition target_sites :: "UprobeTarget \<Rightarrow> site list" where
  "target_sites T =
     (let up = Uprobe (Binary T) (Symbol T); ret = Uretprobe (Binary T) (Symbol T)
      in if Type T = ''database'' then [(up, ''trace_db_query_start''), (ret, ''trace_db_query_end'')]
         else if Type T = ''cache'' then [(up, ''trace_cache_get_start''), (ret, ''trace_cache_get_end'')]
         else if Type T = ''gc'' then [(up, ''trace_go_gc_start''), (ret, ''trace_go_gc_end'')]
         else if Type T = ''custom'' then [(up, ''trace_custom_metric'')]
         else [])"

definition attachUprobeTarget :: "answers \<Rightarrow> UprobeTarget \<Rightarrow> held \<Rightarrow> failure option \<times> held" where
  "attachUprobeTarget A T tw =
     (if \<not> open_ok A (Binary T) then (Some (Not_Opened (Binary T)), tw) else attach_all A (target_sites T) tw)"

definition attachDynamicUprobes :: "answers \<Rightarrow> held \<Rightarrow> failure option \<times> held" where
  "attachDynamicUprobes A tw =
     (None, fold (\<lambda>T tw. if Binary T = [] then tw else snd (attachUprobeTarget A T tw)) (uprobeTargets (fst tw)) tw)"

text \<open>A new target is kept in the list and attached at once.\<close>

definition AddUprobeTarget :: "answers \<Rightarrow> UprobeTarget \<Rightarrow> held \<Rightarrow> failure option \<times> held" where
  "AddUprobeTarget A T tw =
     (case tw of (t, W) \<Rightarrow> attachUprobeTarget A T (t\<lparr>uprobeTargets := uprobeTargets t @ [T]\<rparr>, W))"

section \<open>Start\<close>

text \<open>
  The flow tracker attaching nothing (\<open>attachNetworkTracepoints\<close> only writes to the log), and the uprobes have no
  such method.
\<close>

definition Start :: "answers \<Rightarrow> component \<Rightarrow> held \<Rightarrow> failure option \<times> held" where
  "Start A c =
     (case c of
        Uprobes \<Rightarrow> Pair None
      | HTTPMetricsCollector \<Rightarrow> and_then (attach_all A attachTracepoints) (setupRingBuffer A)
      | MemoryTracker \<Rightarrow> and_then (attach_all A attachKernelTracepoints) (setupRingBuffer A)
      | CPUTracker \<Rightarrow> attach_all A attachSchedulerTracepoints
      | NetworkFlowTracker \<Rightarrow> Pair None
      | FSTracker \<Rightarrow> and_then (attach_all A attachFileTracepoints) (setupRingBuffer A)
      | AppSpecificTracker \<Rightarrow> and_then (setupRingBuffer A) (or_warn (attachDynamicUprobes A))
      | SecurityMonitor \<Rightarrow>
          and_then (attach_all A attachRawTracepoints)
            (and_then (attach_all A attachProcessTracepoints)
              (and_then (or_warn (attach_all A attachNetworkKprobes))
                (and_then (or_warn (attach_each A attachResourceTracepoints)) (setupRingBuffer A)))))"

section \<open>All collectors together\<close>

text \<open>\<open>programs\<close> of \<open>NewEbpfCollector\<close>, and the order in which they are made and started.\<close>

definition programs :: "component list" where
  "programs = [Uprobes, HTTPMetricsCollector, MemoryTracker, CPUTracker, NetworkFlowTracker, FSTracker,
     AppSpecificTracker, SecurityMonitor]"

type_synonym collector = "component \<Rightarrow> tracker"

definition fresh :: "component \<Rightarrow> tracker" where
  "fresh c = \<lparr>component_of = c, links = [], ringbufReader = False,
     uprobeTargets = (if c = AppSpecificTracker then common_targets else [])\<rparr>"

text \<open>
  A constructor lifts the limit of locked memory and loads its objects; if it fails in this it returns an error.
  Those of rps and of the uprobes end the process instead (\<open>log.Fatal\<close>); the flow tracker lifts the limit itself
  before it calls that of rps.
\<close>

datatype 'a outcome = Returned 'a world | Failed failure world | Exited failure world

fun load_from :: "answers \<Rightarrow> component list \<Rightarrow> world \<Rightarrow> collector outcome" where
  "load_from A [] W = Returned fresh W"
| "load_from A (c # later) W =
     (if \<not> memlock_ok A c then (if c = Uprobes then Exited (Not_Loaded c) W else Failed (Not_Loaded c) W)
      else if load_ok A c then load_from A later (add_mset (Objects c) W)
      else if c \<in> {NetworkFlowTracker, Uprobes} then Exited (Not_Loaded c) W
      else Failed (Not_Loaded c) W)"

definition NewEbpfCollector :: "answers \<Rightarrow> world \<Rightarrow> collector outcome" where
  "NewEbpfCollector A W = load_from A [HTTPMetricsCollector, MemoryTracker, CPUTracker, NetworkFlowTracker,
     FSTracker, AppSpecificTracker, SecurityMonitor, Uprobes] W"

definition on_component ::
  "component \<Rightarrow> (held \<Rightarrow> failure option \<times> held) \<Rightarrow> collector \<times> world \<Rightarrow> failure option \<times> collector \<times> world" where
  "on_component c f cw = (case f (fst cw c, snd cw) of (e, t, W) \<Rightarrow> (e, (fst cw)(c := t), W))"

text \<open>\<open>EbpfCollector.Start\<close> stops at the first error; the pollers that it starts are not resources.\<close>

fun start_from :: "answers \<Rightarrow> component list \<Rightarrow> collector \<times> world \<Rightarrow> failure option \<times> collector \<times> world" where
  "start_from A [] cw = (None, cw)"
| "start_from A (c # later) cw = and_then (on_component c (Start A c)) (start_from A later) cw"

definition StartAll :: "answers \<Rightarrow> collector \<times> world \<Rightarrow> failure option \<times> collector \<times> world" where
  "StartAll A cw =
     (if \<not> refresh_ok A then (Some Not_Refreshed, cw)
      else start_from A [HTTPMetricsCollector, MemoryTracker, CPUTracker, NetworkFlowTracker, FSTracker,
        AppSpecificTracker, SecurityMonitor] cw)"

section \<open>Close\<close>

text \<open>
  Reader, links, objects; a link that cannot be closed is logged and stays. The subtraction leaves alone
  what is not there, so closing twice is harmless.
\<close>

definition Close :: "answers \<Rightarrow> tracker \<Rightarrow> world \<Rightarrow> world" where
  "Close A t W =
     (let c = component_of t;
          W1 = (if ringbufReader t then W - {#Reader c#} else W);
          W2 = W1 - image_mset (Link c) (filter_mset (close_ok A) (mset (links t)))
      in W2 - {#Objects c#})"

definition CloseAll :: "answers \<Rightarrow> collector \<times> world \<Rightarrow> world" where
  "CloseAll A cw = fold (\<lambda>c W. Close A (fst cw c) W) programs (snd cw)"

text \<open>What can be called on the collectors between their making and \<open>Close\<close>.\<close>

datatype call = Go_HTTP answers string | User_Space answers string | Go_GC answers string
| Add_Target answers UprobeTarget

fun call_step :: "call \<Rightarrow> collector \<times> world \<Rightarrow> collector \<times> world" where
  "call_step (Go_HTTP A path) cw = snd (on_component HTTPMetricsCollector (AttachGoHTTPUprobes A path) cw)"
| "call_step (User_Space A path) cw = snd (on_component MemoryTracker (AttachUserSpaceUprobes A path) cw)"
| "call_step (Go_GC A path) cw = snd (on_component MemoryTracker (AttachGoGCUprobes A path) cw)"
| "call_step (Add_Target A T) cw = snd (on_component AppSpecificTracker (AddUprobeTarget A T) cw)"

section \<open>Nothing is lost\<close>

definition owned :: "tracker \<Rightarrow> world" where
  "owned t = {#Objects (component_of t)#} + (if ringbufReader t then {#Reader (component_of t)#} else {#})
     + image_mset (Link (component_of t)) (mset (links t))"

lemma owned_targets [simp]: "owned (t\<lparr>uprobeTargets := Ts\<rparr>) = owned t"
  by (simp add: owned_def)

text \<open>
  What an operation adds to the world it adds to its tracker. With \<open>opening\<close> there must be no reader yet,
  with \<open>attaching\<close> the reader stays as it is.
\<close>

definition balanced :: "bool \<Rightarrow> (held \<Rightarrow> failure option \<times> held) \<Rightarrow> bool" where
  "balanced b f \<longleftrightarrow> (\<forall>t W e t' W'. f (t, W) = (e, t', W') \<longrightarrow> (b \<longrightarrow> \<not> ringbufReader t) \<longrightarrow>
     component_of t' = component_of t \<and> (\<not> b \<longrightarrow> ringbufReader t' = ringbufReader t) \<and>
     W' + owned t = W + owned t')"

abbreviation "attaching \<equiv> balanced False"

abbreviation "opening \<equiv> balanced True"

named_theorems balance

lemma balance_trans:
  fixes X :: "'a multiset"
  assumes "X' + a = X + a'" "X'' + a' = X' + a''"
  shows "X'' + a = X + a''"
proof -
  have "(X'' + a) + (X' + a') = (X + a'') + (X' + a')"
    using assms by (metis add.assoc add.commute)
  thus ?thesis by simp
qed

lemma attaching_opening [balance]: "attaching f \<Longrightarrow> opening f"
  unfolding balanced_def by blast

lemma attaches_none [balance]: "attaching (Pair None)"
  by (simp add: balanced_def)

lemma attaches_attach [balance]: "attaching (attach A x)"
  by (auto simp: balanced_def attach_def owned_def split: if_splits)

lemma opens_reader [balance]: "opening (setupRingBuffer A)"
  by (auto simp: balanced_def setupRingBuffer_def owned_def split: if_splits)

lemma balanced_and_then:
  assumes "balanced b f" "balanced d g" "\<not> (b \<and> d)"
  shows "balanced (b \<or> d) (and_then f g)"
  unfolding balanced_def
proof (intro allI impI)
  fix t W e t' W' assume r: "and_then f g (t, W) = (e, t', W')" and n: "b \<or> d \<longrightarrow> \<not> ringbufReader t"
  obtain e1 t1 W1 where f: "f (t, W) = (e1, t1, W1)" by (metis prod_cases3)
  have "b \<longrightarrow> \<not> ringbufReader t" using n by blast
  note 1 = assms(1) [unfolded balanced_def, rule_format, OF f, OF this [rule_format]]
  show "component_of t' = component_of t \<and> (\<not> (b \<or> d) \<longrightarrow> ringbufReader t' = ringbufReader t) \<and>
      W' + owned t = W + owned t'"
  proof (cases e1)
    case None
    hence "g (t1, W1) = (e, t', W')" using r f by (simp add: and_then_def)
    from assms(2) [unfolded balanced_def, rule_format, OF this] 1 n assms(3) show ?thesis
      using balance_trans by metis
  next
    case (Some x)
    thus ?thesis using r f 1 by (simp add: and_then_def)
  qed
qed

lemmas balanced_then [balance] =
  balanced_and_then [of False _ False, simplified] balanced_and_then [of True _ False, simplified]
  balanced_and_then [of False _ True, simplified]

lemma attaches_or_warn [balance]: "attaching f \<Longrightarrow> attaching (or_warn f)"
  by (auto simp: balanced_def or_warn_def) (metis prod.collapse)+

lemma attaches_if [balance]: "attaching f \<Longrightarrow> attaching (\<lambda>tw. if b then (Some e, tw) else f tw)"
  by (simp add: balanced_def)

lemma attach_all_Cons: "attach_all A (x # xs) = and_then (attach A x) (attach_all A xs)"
  by (auto simp: fun_eq_iff and_then_def split: prod.splits option.splits)

lemma attaches_all [balance]: "attaching (attach_all A xs)"
proof (induction xs)
  case Nil
  have "attach_all A [] = Pair None" by (simp add: fun_eq_iff)
  thus ?case using attaches_none by simp
next
  case (Cons x xs)
  show ?case unfolding attach_all_Cons by (rule balanced_then(1) [OF attaches_attach Cons.IH])
qed

lemma attaches_fold [balance]:
  assumes "\<And>x. attaching (f x)"
  shows "attaching (\<lambda>tw. (None, fold (\<lambda>x tw. snd (f x tw)) xs tw))"
proof (induction xs)
  case Nil
  show ?case using attaches_none by simp
next
  case (Cons x xs)
  have "(\<lambda>tw. (None, fold (\<lambda>x tw. snd (f x tw)) (x # xs) tw)) =
      and_then (or_warn (f x)) (\<lambda>tw. (None, fold (\<lambda>x tw. snd (f x tw)) xs tw))"
    by (simp add: fun_eq_iff and_then_def or_warn_def)
  thus ?case using balanced_then(1) [OF attaches_or_warn [OF assms] Cons.IH] by simp
qed

lemma attaches_each [balance]: "attaching (attach_each A xs)"
  unfolding attach_each_def by (rule attaches_fold) (rule attaches_attach)

lemma attaches_uprobes [balance]:
  "attaching (AttachGoHTTPUprobes A path)" "attaching (AttachUserSpaceUprobes A path)"
  "attaching (AttachGoGCUprobes A path)" "attaching (attachUprobeTarget A T)"
  unfolding AttachGoHTTPUprobes_def AttachUserSpaceUprobes_def AttachGoGCUprobes_def attachUprobeTarget_def
  by (intro attaches_if attaches_all)+

lemma attaches_add [balance]: "attaching (AddUprobeTarget A T)"
  unfolding balanced_def
proof (intro allI impI)
  fix t W e t' W' assume r: "AddUprobeTarget A T (t, W) = (e, t', W')"
  hence "attachUprobeTarget A T (t\<lparr>uprobeTargets := uprobeTargets t @ [T]\<rparr>, W) = (e, t', W')"
    by (simp add: AddUprobeTarget_def)
  from attaches_uprobes(4) [unfolded balanced_def, rule_format, OF this]
  show "component_of t' = component_of t \<and> (\<not> False \<longrightarrow> ringbufReader t' = ringbufReader t) \<and>
      W' + owned t = W + owned t'" by simp
qed

lemma attaches_dynamic [balance]: "attaching (attachDynamicUprobes A)"
proof -
  let ?f = "\<lambda>T tw. if Binary T = [] then (None, tw) else attachUprobeTarget A T tw"
  have "attaching (?f T)" for T
    using attaches_none attaches_uprobes(4) by (cases "Binary T = []") (simp_all add: balanced_def)
  hence "attaching (\<lambda>tw. (None, fold (\<lambda>T tw. snd (?f T tw)) Ts tw))" for Ts by (rule attaches_fold)
  thus ?thesis unfolding attachDynamicUprobes_def balanced_def
    by (simp add: if_distrib [of snd] cong: if_cong)
qed

lemma opens_Start: "opening (Start A c)"
  by (cases c) (simp_all add: Start_def, (intro balance)+)

section \<open>All of it is given back\<close>

definition belongs :: "world \<Rightarrow> collector \<times> world \<Rightarrow> bool" where
  "belongs W0 cw \<longleftrightarrow> (\<forall>c. component_of (fst cw c) = c) \<and> snd cw = W0 + (\<Sum>c\<leftarrow>programs. owned (fst cw c))"

text \<open>No readers yet: the state before \<open>EbpfCollector.Start\<close>.\<close>

definition unread :: "collector \<times> world \<Rightarrow> bool" where
  "unread cw \<longleftrightarrow> (\<forall>c. \<not> ringbufReader (fst cw c))"

lemma programs_once: "distinct programs" "set programs = UNIV"
proof -
  show "distinct programs" by (simp add: programs_def)
  show "set programs = UNIV"
  proof (intro equalityI subset_UNIV subsetI)
    show "c \<in> set programs" for c by (cases c) (simp_all add: programs_def)
  qed
qed

lemma sum_list_upd:
  assumes "distinct xs" "c \<in> set xs"
  shows "(\<Sum>x\<leftarrow>xs. f ((g(c := t)) x)) + f (g c) = (\<Sum>x\<leftarrow>xs. f (g x)) + (f t :: 'b multiset)"
proof -
  have r: "(\<Sum>x\<leftarrow>xs. h x) = h c + (\<Sum>x\<leftarrow>remove1 c xs. h x)" for h :: "_ \<Rightarrow> 'b multiset"
    using assms(2) by (rule sum_list_map_remove1)
  have n: "c \<notin> set (remove1 c xs)" using assms(1) by simp
  have e: "(\<Sum>x\<leftarrow>remove1 c xs. f ((g(c := t)) x)) = (\<Sum>x\<leftarrow>remove1 c xs. f (g x))"
    using n by (intro arg_cong [where f = sum_list] map_cong) auto
  show ?thesis
    unfolding r [of "\<lambda>x. f ((g(c := t)) x)"] r [of "\<lambda>x. f (g x)"] e by (simp add: ac_simps)
qed

lemma on_component_belongs:
  assumes "belongs W0 cw" "balanced b f" "b \<longrightarrow> \<not> ringbufReader (fst cw c)"
  shows "belongs W0 (snd (on_component c f cw))"
proof -
  obtain e t W where f: "f (fst cw c, snd cw) = (e, t, W)" by (metis prod_cases3)
  note 1 = assms(2) [unfolded balanced_def, rule_format, OF f, OF assms(3) [rule_format]]
  have s: "(\<Sum>x\<leftarrow>programs. owned (((fst cw)(c := t)) x)) + owned (fst cw c) =
      (\<Sum>x\<leftarrow>programs. owned (fst cw x)) + owned t"
    by (rule sum_list_upd) (simp_all add: programs_once)
  have "W + owned (fst cw c) = W0 + (\<Sum>x\<leftarrow>programs. owned (fst cw x)) + owned t"
    using 1 assms(1) by (simp add: belongs_def)
  also have "\<dots> = (W0 + (\<Sum>x\<leftarrow>programs. owned (((fst cw)(c := t)) x))) + owned (fst cw c)"
    using s by (metis add.assoc)
  finally have "W = W0 + (\<Sum>x\<leftarrow>programs. owned (((fst cw)(c := t)) x))" by simp
  moreover have "on_component c f cw = (e, (fst cw)(c := t), W)" by (simp add: on_component_def f)
  ultimately show ?thesis using 1 assms(1) by (simp add: belongs_def)
qed

lemma call_step_belongs:
  assumes "belongs W0 cw"
  shows "belongs W0 (call_step k cw)"
  using assms by (cases k) (auto intro!: on_component_belongs balance)

lemma calls_belong: "belongs W0 cw \<Longrightarrow> belongs W0 (fold call_step ks cw)"
  by (induction ks arbitrary: cw) (simp_all add: call_step_belongs)

lemma on_component_other: "d \<noteq> c \<Longrightarrow> fst (snd (on_component c f cw)) d = fst cw d"
  by (simp add: on_component_def split: prod.split)

lemma on_component_reader:
  assumes "attaching f"
  shows "ringbufReader (fst (snd (on_component c f cw)) d) = ringbufReader (fst cw d)"
proof -
  obtain e t W where f: "f (fst cw c, snd cw) = (e, t, W)" by (metis prod_cases3)
  show ?thesis using assms [unfolded balanced_def, rule_format, OF f] f by (simp add: on_component_def)
qed

lemma calls_unread: "unread cw \<Longrightarrow> unread (fold call_step ks cw)"
proof (induction ks arbitrary: cw)
  case (Cons k ks)
  have "unread (call_step k cw)" using Cons.prems
    by (cases k) (simp_all add: unread_def on_component_reader attaches_uprobes attaches_add)
  thus ?case using Cons.IH by simp
qed simp

lemma start_from_belongs:
  assumes "belongs W0 cw" "distinct later" "\<forall>c\<in>set later. \<not> ringbufReader (fst cw c)"
  shows "belongs W0 (snd (start_from A later cw))"
  using assms
proof (induction later arbitrary: cw)
  case (Cons c later)
  obtain e cw' where o: "on_component c (Start A c) cw = (e, cw')" by (cases "on_component c (Start A c) cw")
  have b: "belongs W0 cw'"
    using on_component_belongs [OF Cons.prems(1) opens_Start [of A c], of c] Cons.prems(3) o by simp
  have "\<not> ringbufReader (fst cw' d)" if "d \<in> set later" for d
  proof -
    have "d \<noteq> c" using Cons.prems(2) that by auto
    from on_component_other [OF this, of "Start A c" cw] show ?thesis using Cons.prems(3) that o by simp
  qed
  hence "belongs W0 (snd (start_from A later cw'))" using Cons b by simp
  thus ?case using b o by (cases e) (simp_all add: and_then_def)
qed simp

lemma StartAll_belongs: "belongs W0 cw \<Longrightarrow> unread cw \<Longrightarrow> belongs W0 (snd (StartAll A cw))"
  unfolding StartAll_def by (simp add: unread_def start_from_belongs del: start_from.simps)

lemma load_from_fresh:
  "load_from A later W = Returned C W1 \<Longrightarrow> C = fresh \<and> W1 = W + (\<Sum>c\<leftarrow>later. {#Objects c#})"
proof (induction later arbitrary: W)
  case (Cons c later)
  thus ?case using Cons.IH [of "add_mset (Objects c) W"] by (simp split: if_splits)
qed simp

lemma New_belongs:
  assumes "NewEbpfCollector A W = Returned C W1"
  shows "belongs W (C, W1)" "unread (C, W1)"
  using load_from_fresh [OF assms [unfolded NewEbpfCollector_def]]
  by (auto simp: belongs_def unread_def fresh_def owned_def programs_def)

text \<open>The links that cannot be closed.\<close>

definition stuck :: "answers \<Rightarrow> tracker \<Rightarrow> world" where
  "stuck A t = image_mset (Link (component_of t)) (filter_mset (\<lambda>x. \<not> close_ok A x) (mset (links t)))"

lemma Close_owned: "Close A t (X + owned t) = X + stuck A t"
proof -
  let ?c = "component_of t"
  let ?L = "image_mset (Link ?c) (filter_mset (close_ok A) (mset (links t)))"
  have "mset (links t) = filter_mset (close_ok A) (mset (links t)) + filter_mset (\<lambda>x. \<not> close_ok A x) (mset (links t))"
    by (rule multiset_partition)
  hence "image_mset (Link ?c) (mset (links t)) = ?L + stuck A t" unfolding stuck_def by (metis image_mset_union)
  hence o: "X + owned t = (if ringbufReader t then {#Reader ?c#} else {#}) + (?L + (X + stuck A t + {#Objects ?c#}))"
    by (simp add: owned_def ac_simps)
  show ?thesis unfolding Close_def Let_def o by (cases "ringbufReader t") simp_all
qed

lemma fold_Close:
  "fold (\<lambda>c W. Close A (C c) W) later (X + (\<Sum>c\<leftarrow>later. owned (C c))) = X + (\<Sum>c\<leftarrow>later. stuck A (C c))"
proof (induction later arbitrary: X)
  case (Cons c later)
  have e: "X + (\<Sum>d\<leftarrow>c # later. owned (C d)) = (X + (\<Sum>d\<leftarrow>later. owned (C d))) + owned (C c)" by (simp add: ac_simps)
  have "Close A (C c) (X + (\<Sum>d\<leftarrow>c # later. owned (C d))) = (X + stuck A (C c)) + (\<Sum>d\<leftarrow>later. owned (C d))"
    unfolding e Close_owned by (simp add: ac_simps)
  thus ?case using Cons.IH [of "X + stuck A (C c)"] by (simp add: ac_simps)
qed simp


definition all_well :: answers where
  "all_well = \<lparr>memlock_ok = (\<lambda>_. True), load_ok = (\<lambda>_. True), attach_ok = (\<lambda>_. True), open_ok = (\<lambda>_. True), reader_ok = (\<lambda>_. True),
     close_ok = (\<lambda>_. True), refresh_ok = True\<rparr>"

text \<open>A kernel without the kprobe, and one that refuses the reader of fs_tracker, so that \<open>Start\<close> gives up.\<close>

definition no_fs_reader :: answers where
  "no_fs_reader = all_well\<lparr>attach_ok := (\<lambda>x. x \<notin> set attachNetworkKprobes), reader_ok := (\<lambda>c. c \<noteq> FSTracker)\<rparr>"


section \<open>Which programs are attached\<close>

definition sites :: "component \<Rightarrow> site list" where
  "sites c =
     (case c of
        HTTPMetricsCollector \<Rightarrow> attachTracepoints
      | MemoryTracker \<Rightarrow> attachKernelTracepoints
      | CPUTracker \<Rightarrow> attachSchedulerTracepoints
      | FSTracker \<Rightarrow> attachFileTracepoints
      | AppSpecificTracker \<Rightarrow> concat (map target_sites (filter (\<lambda>T. Binary T \<noteq> []) common_targets))
      | SecurityMonitor \<Rightarrow>
          attachRawTracepoints @ attachProcessTracepoints @ attachNetworkKprobes @ attachResourceTracepoints
      | _ \<Rightarrow> [])"

text \<open>The outcome of attaching a list, on every branch.\<close>

lemma attach_all_links:
  assumes "attach_all A xs (t, W) = (e, t', W')"
  obtains ys zs where "xs = ys @ zs" "t' = t\<lparr>links := links t @ ys\<rparr>" "e = None \<longleftrightarrow> zs = []"
    "zs \<noteq> [] \<longrightarrow> \<not> attach_ok A (hd zs)"
proof -
  have "\<exists>ys zs. xs = ys @ zs \<and> t' = t\<lparr>links := links t @ ys\<rparr> \<and> (e = None \<longleftrightarrow> zs = []) \<and>
      (zs \<noteq> [] \<longrightarrow> \<not> attach_ok A (hd zs))" using assms
  proof (induction xs arbitrary: t W)
    case (Cons x xs)
    show ?case
    proof (cases "attach_ok A x")
      case True
      hence "attach_all A xs (t\<lparr>links := links t @ [x]\<rparr>, add_mset (Link (component_of t) x) W) = (e, t', W')"
        using Cons.prems by (simp add: attach_def)
      from Cons.IH [OF this] obtain ys zs where "xs = ys @ zs" "t' = t\<lparr>links := links t @ x # ys\<rparr>"
        "e = None \<longleftrightarrow> zs = []" "zs \<noteq> [] \<longrightarrow> \<not> attach_ok A (hd zs)" by auto
      thus ?thesis by (intro exI [of _ "x # ys"] exI [of _ zs]) simp
    next
      case False
      hence "e \<noteq> None" "t' = t" using Cons.prems by (auto simp: attach_def)
      thus ?thesis using False by (intro exI [of _ "[]"] exI [of _ "x # xs"]) simp
    qed
  qed simp
  thus thesis using that by blast
qed

lemma attach_all_None:
  assumes "attach_all A xs (t, W) = (None, t', W')"
  shows "t' = t\<lparr>links := links t @ xs\<rparr>"
  using assms by (rule attach_all_links) simp

lemma attach_all_ok:
  assumes "\<forall>x\<in>set xs. attach_ok A x" "attach_all A xs (t, W) = (e, t', W')"
  shows "e = None \<and> t' = t\<lparr>links := links t @ xs\<rparr>"
  using assms(2)
proof (rule attach_all_links)
  fix ys zs assume a: "xs = ys @ zs" "t' = t\<lparr>links := links t @ ys\<rparr>" "e = None \<longleftrightarrow> zs = []"
    "zs \<noteq> [] \<longrightarrow> \<not> attach_ok A (hd zs)"
  have "zs = []" using a(1,4) assms(1) by (cases zs) auto
  thus ?thesis using a by simp
qed

lemma attach_each_ok:
  "\<forall>x\<in>set xs. attach_ok A x \<Longrightarrow> attach_each A xs (t, W) = (e, t', W') \<Longrightarrow> t' = t\<lparr>links := links t @ xs\<rparr>"
  unfolding attach_each_def
proof (induction xs arbitrary: t W)
  case (Cons x xs)
  thus ?case using Cons.IH [of "t\<lparr>links := links t @ [x]\<rparr>" "add_mset (Link (component_of t) x) W"]
    by (simp add: attach_def)
qed simp

text \<open>What an operation may attach at most.\<close>

definition asks :: "site set \<Rightarrow> (held \<Rightarrow> failure option \<times> held) \<Rightarrow> bool" where
  "asks X f \<longleftrightarrow> (\<forall>t W e t' W'. f (t, W) = (e, t', W') \<longrightarrow>
     set (links t') \<subseteq> set (links t) \<union> X \<and> uprobeTargets t' = uprobeTargets t)"

named_theorems asking

lemma asks_none [asking]: "asks X (Pair None)"
  by (simp add: asks_def)

lemma asks_attach [asking]: "x \<in> X \<Longrightarrow> asks X (attach A x)"
  by (auto simp: asks_def attach_def split: if_splits)

lemma asks_reader [asking]: "asks X (setupRingBuffer A)"
  by (auto simp: asks_def setupRingBuffer_def split: if_splits)

lemma asks_or_warn [asking]: "asks X f \<Longrightarrow> asks X (or_warn f)"
  by (auto simp: asks_def or_warn_def) (metis prod.collapse subsetD UnE, metis prod.collapse)

lemma asks_and_then [asking]:
  assumes "asks X f" "asks X g"
  shows "asks X (and_then f g)"
  unfolding asks_def
proof (intro allI impI)
  fix t W e t' W' assume r: "and_then f g (t, W) = (e, t', W')"
  obtain e1 t1 W1 where f: "f (t, W) = (e1, t1, W1)" by (metis prod_cases3)
  note 1 = assms(1) [unfolded asks_def, rule_format, OF f]
  show "set (links t') \<subseteq> set (links t) \<union> X \<and> uprobeTargets t' = uprobeTargets t"
  proof (cases e1)
    case None
    hence "g (t1, W1) = (e, t', W')" using r f by (simp add: and_then_def)
    from assms(2) [unfolded asks_def, rule_format, OF this] 1 show ?thesis by auto
  qed (use r f 1 in \<open>auto simp: and_then_def\<close>)
qed

lemma asks_all [asking]: "set xs \<subseteq> X \<Longrightarrow> asks X (attach_all A xs)"
proof (induction xs)
  case Nil
  have "attach_all A [] = Pair None" by (simp add: fun_eq_iff)
  thus ?case using asks_none by simp
next
  case (Cons x xs)
  thus ?case unfolding attach_all_Cons by (intro asks_and_then asks_attach) simp_all
qed

lemma asks_fold:
  assumes "\<And>x. x \<in> set xs \<Longrightarrow> asks X (f x)"
  shows "asks X (\<lambda>tw. (None, fold (\<lambda>x tw. snd (f x tw)) xs tw))"
  using assms
proof (induction xs)
  case Nil
  show ?case using asks_none by simp
next
  case (Cons x xs)
  have "(\<lambda>tw. (None, fold (\<lambda>x tw. snd (f x tw)) (x # xs) tw)) =
      and_then (or_warn (f x)) (\<lambda>tw. (None, fold (\<lambda>x tw. snd (f x tw)) xs tw))"
    by (simp add: fun_eq_iff and_then_def or_warn_def)
  thus ?case using asks_and_then [OF asks_or_warn [of X "f x"] Cons.IH] Cons.prems by simp
qed

lemma asks_each [asking]: "set xs \<subseteq> X \<Longrightarrow> asks X (attach_each A xs)"
  unfolding attach_each_def by (rule asks_fold) (auto intro: asks_attach)

definition the_probes :: "answers \<Rightarrow> UprobeTarget list \<Rightarrow> held \<Rightarrow> failure option \<times> held" where
  "the_probes A Ts tw =
     (None, fold (\<lambda>T tw. snd (if Binary T = [] then (None, tw) else attachUprobeTarget A T tw)) Ts tw)"

lemma asks_the_probes [asking]:
  assumes "\<forall>T\<in>set Ts. Binary T \<noteq> [] \<longrightarrow> set (target_sites T) \<subseteq> X"
  shows "asks X (the_probes A Ts)"
  unfolding the_probes_def
proof (rule asks_fold)
  fix T assume "T \<in> set Ts"
  hence "Binary T \<noteq> [] \<Longrightarrow> asks X (attach_all A (target_sites T))" using assms asks_all by blast
  thus "asks X (\<lambda>tw. if Binary T = [] then (None, tw) else attachUprobeTarget A T tw)"
    by (cases "Binary T = []") (auto simp: asks_def attachUprobeTarget_def)
qed

text \<open>A tracker as its constructor leaves it.\<close>

definition made :: "component \<Rightarrow> tracker \<Rightarrow> bool" where
  "made c t \<longleftrightarrow> c = AppSpecificTracker \<longrightarrow> uprobeTargets t = common_targets"

lemma Start_App:
  "uprobeTargets t = common_targets \<Longrightarrow> Start A AppSpecificTracker (t, W) =
     and_then (setupRingBuffer A) (or_warn (the_probes A common_targets)) (t, W)"
  by (simp add: Start_def and_then_def or_warn_def setupRingBuffer_def attachDynamicUprobes_def the_probes_def
      if_distrib [of snd] cong: if_cong)

lemma Start_asks:
  assumes "Start A c (t, W) = (e, t', W')" "made c t"
  shows "set (links t') \<subseteq> set (links t) \<union> set (sites c)"
proof -
  let ?F = "if c = AppSpecificTracker then and_then (setupRingBuffer A) (or_warn (the_probes A common_targets))
    else Start A c"
  have "asks (set (sites c)) ?F"
    by (cases c) (simp_all add: Start_def sites_def, (rule asking | simp | force)+)
  moreover have "?F (t, W) = (e, t', W')" using assms Start_App [of t A W] by (auto simp: made_def)
  ultimately show ?thesis unfolding asks_def by blast
qed

lemma and_then_None: "and_then f g x = (None, y) \<longleftrightarrow> (\<exists>z. f x = (None, z) \<and> g z = (None, y))"
  by (auto simp: and_then_def split: prod.splits option.splits)

lemma reader_links: "setupRingBuffer A (t, W) = (e, t', W') \<Longrightarrow> links t' = links t"
  by (auto simp: setupRingBuffer_def split: if_splits)

lemma or_warn_snd: "or_warn f x = (e, y) \<longleftrightarrow> e = None \<and> snd (f x) = y"
  by (auto simp: or_warn_def)

lemma Start_links:
  assumes "Start A c (t, W) = (None, t', W')" "c \<noteq> AppSpecificTracker"
    "\<forall>x\<in>set (attachNetworkKprobes @ attachResourceTracepoints). attach_ok A x"
  shows "links t' = links t @ sites c"
proof (cases "c = SecurityMonitor")
  case True
  let ?X = attachRawTracepoints and ?P = attachProcessTracepoints and ?K = attachNetworkKprobes
    and ?R = attachResourceTracepoints
  obtain t1 W1 t2 W2 t3 W3 t4 W4 where r: "attach_all A ?X (t, W) = (None, t1, W1)"
      "attach_all A ?P (t1, W1) = (None, t2, W2)" "snd (attach_all A ?K (t2, W2)) = (t3, W3)"
      "snd (attach_each A ?R (t3, W3)) = (t4, W4)" "setupRingBuffer A (t4, W4) = (None, t', W')"
    using assms(1) True by (auto simp: Start_def and_then_None or_warn_snd) (metis prod.collapse)
  obtain e where k: "attach_all A ?K (t2, W2) = (e, t3, W3)" using r(3) by (metis prod.collapse)
  obtain d where e: "attach_each A ?R (t3, W3) = (d, t4, W4)" using r(4) by (metis prod.collapse)
  have "t3 = t2\<lparr>links := links t2 @ ?K\<rparr>" using attach_all_ok [OF _ k] assms(3) by simp
  moreover have "t4 = t3\<lparr>links := links t3 @ ?R\<rparr>" using attach_each_ok [OF _ e] assms(3) by simp
  ultimately show ?thesis
    using attach_all_None [OF r(1)] attach_all_None [OF r(2)] reader_links [OF r(5)] True by (simp add: sites_def)
next
  case False
  thus ?thesis using assms(1,2)
    by (cases c) (auto simp: Start_def and_then_None sites_def dest!: attach_all_None reader_links)
qed

lemma Start_App_links:
  assumes "Start A AppSpecificTracker (t, W) = (e, t', W')" "made AppSpecificTracker t"
    "\<forall>x. attach_ok A x" "\<forall>x. open_ok A x" "\<forall>d. reader_ok A d"
  shows "links t' = links t @ sites AppSpecificTracker"
proof -
  have p: "links (fst (snd (the_probes A Ts (u, V)))) =
      links u @ concat (map target_sites (filter (\<lambda>T. Binary T \<noteq> []) Ts))" for Ts u V
  proof (induction Ts arbitrary: u V)
    case Nil
    show ?case by (simp add: the_probes_def)
  next
    case (Cons T Ts)
    obtain d v V' where a: "attach_all A (target_sites T) (u, V) = (d, v, V')" by (metis prod_cases3)
    have "v = u\<lparr>links := links u @ target_sites T\<rparr>" using attach_all_ok [OF _ a] assms(3) by simp
    thus ?case using Cons.IH [of v V'] Cons.IH [of u V] assms(4) a
      by (simp add: the_probes_def attachUprobeTarget_def)
  qed
  obtain t1 W1 where r: "setupRingBuffer A (t, W) = (None, t1, W1)"
    using assms(5) by (simp add: setupRingBuffer_def)
  have "snd (the_probes A common_targets (t1, W1)) = (t', W')"
    using assms(1,2) Start_App [of t A W] r by (simp add: made_def and_then_def or_warn_def)
  thus ?thesis using p [of common_targets t1 W1] reader_links [OF r] by (simp add: sites_def)
qed

text \<open>Through the whole start.\<close>

lemma start_from_part:
  assumes "start_from A later cw = (e, cw')" "distinct later"
  shows "fst cw' c = fst cw c \<or>
    (c \<in> set later \<and> (\<exists>W d W'. Start A c (fst cw c, W) = (d, fst cw' c, W')))"
  using assms
proof (induction later arbitrary: cw)
  case (Cons b later)
  obtain d t W where s: "Start A b (fst cw b, snd cw) = (d, t, W)" by (metis prod_cases3)
  hence o: "on_component b (Start A b) cw = (d, (fst cw)(b := t), W)" by (simp add: on_component_def)
  show ?case
  proof (cases d)
    case (Some x)
    hence "fst cw' = (fst cw)(b := t)" using Cons.prems(1) o by (auto simp: and_then_def)
    thus ?thesis using s by (cases "c = b") auto
  next
    case None
    hence "start_from A later ((fst cw)(b := t), W) = (e, cw')" using Cons.prems(1) o by (simp add: and_then_def)
    from Cons.IH [OF this] Cons.prems(2) s show ?thesis by (cases "c = b") auto
  qed
qed simp

lemma start_from_None:
  assumes "start_from A later cw = (None, cw')" "distinct later" "c \<in> set later"
  shows "\<exists>W W'. Start A c (fst cw c, W) = (None, fst cw' c, W')"
  using assms
proof (induction later arbitrary: cw)
  case (Cons b later)
  obtain t W where s: "Start A b (fst cw b, snd cw) = (None, t, W)" and
    n: "start_from A later ((fst cw)(b := t), W) = (None, cw')"
    using Cons.prems(1) by (auto simp: and_then_None on_component_def split: prod.splits)
  show ?case
  proof (cases "c = b")
    case True
    hence "fst cw' c = t" using start_from_part [OF n, of c] Cons.prems(2) by auto
    thus ?thesis using s True by blast
  next
    case False
    thus ?thesis using Cons.IH [OF n] Cons.prems(2,3) by auto
  qed
qed simp

lemma start_order: "refresh_ok A \<Longrightarrow> StartAll A cw = start_from A (tl programs) cw"
  by (simp add: StartAll_def programs_def del: start_from.simps)

lemma fresh_made: "links (fresh c) = []" "made c (fresh c)"
  by (simp_all add: fresh_def made_def)

lemma New_fresh: "NewEbpfCollector A W = Returned C W1 \<Longrightarrow> C = fresh"
  unfolding NewEbpfCollector_def using load_from_fresh by blast

lemma started_links:
  assumes "StartAll B (fresh, W) = (e, C, W')"
  shows "set (links (C c)) \<subseteq> set (sites c)"
proof (cases "refresh_ok B")
  case True
  from start_from_part [OF assms [unfolded start_order [OF True]], of c] Start_asks [of B c "fresh c"]
  show ?thesis using fresh_made by (fastforce simp: programs_def)
next
  case False
  thus ?thesis using assms by (auto simp: StartAll_def fresh_made)
qed

lemma started_all_links:
  assumes "StartAll B (fresh, W) = (None, C, W')" "c \<noteq> AppSpecificTracker"
    "\<forall>x\<in>set (attachNetworkKprobes @ attachResourceTracepoints). attach_ok B x"
  shows "links (C c) = sites c"
proof -
  have r: "refresh_ok B" using assms(1) by (auto simp: StartAll_def split: if_splits)
  note s = assms(1) [unfolded start_order [OF r]]
  show ?thesis
  proof (cases "c = Uprobes")
    case True
    thus ?thesis using start_from_part [OF s, of c] by (auto simp: programs_def sites_def fresh_made)
  next
    case False
    hence "c \<in> set (tl programs)" by (cases c) (simp_all add: programs_def)
    from start_from_None [OF s _ this] obtain V V' where "Start B c (fresh c, V) = (None, C c, V')"
      by (auto simp: programs_def)
    from Start_links [OF this assms(2,3)] show ?thesis by (simp add: fresh_made)
  qed
qed

text \<open>If every request is granted, the start succeeds.\<close>

definition granted :: "answers \<Rightarrow> bool" where
  "granted A \<longleftrightarrow> refresh_ok A \<and> (\<forall>x. attach_ok A x) \<and> (\<forall>x. open_ok A x) \<and> (\<forall>c. reader_ok A c)"

lemma and_then_fst: "fst (f x) = None \<Longrightarrow> (\<And>y. fst (g y) = None) \<Longrightarrow> fst (and_then f g x) = None"
  by (cases "f x") (simp add: and_then_def)

lemma granted_all: "granted A \<Longrightarrow> fst (attach_all A xs tw) = None"
  using attach_all_ok [of xs A "fst tw" "snd tw"] unfolding granted_def by (metis prod.collapse)

lemma granted_Start:
  assumes "granted A"
  shows "fst (Start A c tw) = None"
proof -
  have "fst (setupRingBuffer A v) = None" for v
    using assms by (simp add: granted_def setupRingBuffer_def split: prod.split)
  thus ?thesis using granted_all [OF assms]
    by (cases c) (simp_all add: Start_def or_warn_def and_then_fst del: split_paired_All)
qed

lemma granted_start_from: "granted A \<Longrightarrow> fst (start_from A later cw) = None"
proof (induction later arbitrary: cw)
  case (Cons c later)
  have "fst (on_component c (Start A c) cw) = None"
    using granted_Start [OF Cons.prems, of c "(fst cw c, snd cw)"] by (auto simp: on_component_def split: prod.split)
  thus ?case using Cons by (simp add: and_then_fst)
qed simp

lemma granted_StartAll: "granted A \<Longrightarrow> fst (StartAll A cw) = None"
  using start_order [of A cw] granted_start_from [of A] by (simp add: granted_def)

text \<open>The programs of each object file, in the order of the source, and those that no \<open>Start\<close> attaches.\<close>

definition sections_of :: "component \<Rightarrow> string list" where
  "sections_of c =
     (case c of
        Uprobes \<Rightarrow> [''handle_request'']
      | HTTPMetricsCollector \<Rightarrow> [''trace_http_request_start'', ''trace_http_read_start'', ''trace_http_request_end'',
          ''trace_go_http_start'', ''trace_go_http_end'']
      | MemoryTracker \<Rightarrow> [''trace_kmalloc'', ''trace_kfree'', ''trace_malloc'', ''trace_malloc_ret'', ''trace_free'',
          ''trace_go_gc_start'', ''periodic_leak_check'']
      | CPUTracker \<Rightarrow> [''trace_sched_switch'', ''trace_sched_wakeup'', ''trace_process_exit'', ''cpu_profile'']
      | NetworkFlowTracker \<Rightarrow> [''trace_sock_state'']
      | FSTracker \<Rightarrow> [''trace_openat_enter'', ''trace_openat_exit'', ''trace_read_enter'', ''trace_read_exit'',
          ''trace_write_enter'', ''trace_write_exit'']
      | AppSpecificTracker \<Rightarrow> [''trace_db_query_start'', ''trace_db_query_end'', ''trace_cache_get_start'',
          ''trace_cache_get_end'', ''trace_go_gc_start'', ''trace_go_gc_end'', ''trace_custom_metric'']
      | SecurityMonitor \<Rightarrow> [''trace_sys_enter'', ''trace_process_exec'', ''trace_file_access'', ''trace_tcp_connect'',
          ''trace_memory_pressure'', ''trace_oom_event''])"

definition unattached :: "component \<Rightarrow> string list" where
  "unattached c =
     (case c of
        Uprobes \<Rightarrow> [''handle_request'']
      | HTTPMetricsCollector \<Rightarrow> [''trace_http_read_start'', ''trace_go_http_start'', ''trace_go_http_end'']
      | MemoryTracker \<Rightarrow> [''trace_malloc'', ''trace_malloc_ret'', ''trace_free'', ''trace_go_gc_start'',
          ''periodic_leak_check'']
      | CPUTracker \<Rightarrow> [''trace_process_exit'', ''cpu_profile'']
      | NetworkFlowTracker \<Rightarrow> [''trace_sock_state'']
      | AppSpecificTracker \<Rightarrow> [''trace_custom_metric'']
      | _ \<Rightarrow> [])"

lemmas site_lists = sites_def attachTracepoints_def attachKernelTracepoints_def attachSchedulerTracepoints_def
  attachFileTracepoints_def attachRawTracepoints_def attachProcessTracepoints_def attachNetworkKprobes_def
  attachResourceTracepoints_def common_targets_def target_sites_def

lemma sites_sections: "snd ` set (sites c) = set (sections_of c) - set (unattached c)"
  by (cases c) (auto simp: site_lists sections_of_def unattached_def)

text \<open>
  Property C17. The programs that the watcher attaches. Whatever the kernel answers and wherever the start gives
  up, a program that is attached afterwards is one of its collector's object file and not one of the thirteen
  of \<open>unattached\<close>, among them the only program of rps, without which no flow is ever counted. If every
  request is granted, exactly the other twenty-four are attached.
\<close>

theorem attached_programs:
  assumes "NewEbpfCollector A W = Returned C0 W1" "StartAll B (C0, W1) = (e, C, W')"
  shows "(\<forall>c. snd ` set (links (C c)) \<subseteq> set (sections_of c) - set (unattached c)) \<and>
    (granted B \<longrightarrow> (\<forall>c. snd ` set (links (C c)) = set (sections_of c) - set (unattached c)))"
proof (intro conjI impI allI)
  note s = assms(2) [unfolded New_fresh [OF assms(1)]]
  show "snd ` set (links (C c)) \<subseteq> set (sections_of c) - set (unattached c)" for c
    unfolding sites_sections [symmetric] by (intro image_mono started_links [OF s])
  fix c
  assume g: "granted B"
  hence r: "refresh_ok B" and ok: "\<forall>x. attach_ok B x" "\<forall>x. open_ok B x" "\<forall>c. reader_ok B c"
    by (simp_all add: granted_def)
  have n: "e = None" using granted_StartAll [OF g] s by (metis fst_conv)
  have "links (C c) = sites c"
  proof (cases "c = AppSpecificTracker")
    case True
    obtain V V' where "Start B c (fresh c, V) = (None, C c, V')"
      using start_from_None [OF s [unfolded n start_order [OF r]], of c] True by (auto simp: programs_def)
    thus ?thesis using Start_App_links [of B "fresh c" V None "C c" V'] ok True fresh_made [of c] by simp
  next
    case False
    thus ?thesis using started_all_links [OF s [unfolded n]] ok(1) by blast
  qed
  thus "snd ` set (links (C c)) = set (sections_of c) - set (unattached c)" using sites_sections by simp
qed

lemma attached_programs_witness:
  "\<exists>C0 W1 C W'. NewEbpfCollector all_well {#} = Returned C0 W1 \<and> StartAll all_well (C0, W1) = (None, C, W') \<and>
     snd ` set (links (C NetworkFlowTracker)) = {} \<and>
     snd ` set (links (C CPUTracker)) = {''trace_sched_switch'', ''trace_sched_wakeup''}"
proof -
  have g: "granted all_well" by (simp add: granted_def all_well_def)
  obtain C0 W1 where n: "NewEbpfCollector all_well {#} = Returned C0 W1"
    by (simp add: NewEbpfCollector_def all_well_def)
  obtain C W' where s: "StartAll all_well (C0, W1) = (None, C, W')"
    using granted_StartAll [OF g, of "(C0, W1)"] by (metis prod.collapse)
  have "snd ` set (links (C c)) = set (sections_of c) - set (unattached c)" for c
    using attached_programs [OF n s] g by blast
  from this [of NetworkFlowTracker] this [of CPUTracker] show ?thesis using n s
    by (auto simp: sections_of_def unattached_def)
qed

section \<open>The programs that an event runs\<close>

text \<open>
  The points that the kernel passes in an event of \<open>Watcher\<close>, the probes in executables aside, and the programs
  that it runs there.
\<close>

fun call_name :: "s64 \<Rightarrow> string option" where
  "call_name n = (if n = nr_openat then Some ''openat'' else if n = nr_read then Some ''read''
     else if n = nr_write then Some ''write'' else None)"

fun triggers :: "kevent \<Rightarrow> attach_point list" where
  "triggers (Enter S ctx regs rf) = Raw_Tracepoint ''sys_enter'' #
     (case call_name (se_id ctx) of Some x \<Rightarrow> [Tracepoint ''syscalls'' (''sys_enter_'' @ x)] | None \<Rightarrow> [])"
| "triggers (Exit S ctx) = Raw_Tracepoint ''sys_exit'' #
     (case call_name (sx_id ctx) of Some x \<Rightarrow> [Tracepoint ''syscalls'' (''sys_exit_'' @ x)] | None \<Rightarrow> [])"
| "triggers (Switch S ctx) = [Tracepoint ''sched'' ''sched_switch'']"
| "triggers (Wakeup S ctx) = [Tracepoint ''sched'' ''sched_wakeup'']"
| "triggers (Exec S ctx) = [Tracepoint ''sched'' ''sched_process_exec'']"
| "triggers (Kmem_Alloc S ctx) = [Tracepoint ''kmem'' ''kmalloc'']"
| "triggers (Kmem_Free S ctx) = [Tracepoint ''kmem'' ''kfree'']"
| "triggers (Connect S regs) = [Kprobe ''tcp_connect'']"
| "triggers (Reclaim S) = [Tracepoint ''vmscan'' ''mm_vmscan_memcg_softlimit_reclaim_begin'']"
| "triggers (Oom_Adjust S) = [Tracepoint ''oom'' ''oom_score_adj_update'']"
| "triggers _ = []"

fun in_executable :: "kevent \<Rightarrow> bool" where
  "in_executable (Serve_Entry S regs) = True"
| "in_executable (Serve_Return S regs) = True"
| "in_executable (Mem_Probe p S regs) = True"
| "in_executable (App_Probe p S regs) = True"
| "in_executable _ = False"

definition run_by :: "tracker \<Rightarrow> kevent \<Rightarrow> string multiset" where
  "run_by t e = mset (map snd (filter (\<lambda>x. fst x \<in> set (triggers e)) (links t)))"

text \<open>The C function of a hook.\<close>

fun http_function :: "http_hook \<Rightarrow> string" where
  "http_function (Http_Metrics.Write_Enter E ctx) = ''trace_http_request_start''"
| "http_function (Http_Metrics.Read_Enter E ctx) = ''trace_http_read_start''"
| "http_function (Http_Metrics.Read_Exit E ctx) = ''trace_http_request_end''"
| "http_function (Go_Start E ctx) = ''trace_go_http_start''"
| "http_function (Go_End E ctx) = ''trace_go_http_end''"

fun mem_function :: "mem_hook \<Rightarrow> string" where
  "mem_function (Kmalloc E ctx) = ''trace_kmalloc''"
| "mem_function (Kfree E ctx) = ''trace_kfree''"
| "mem_function (Malloc E ctx) = ''trace_malloc''"
| "mem_function (Malloc_Ret E ctx) = ''trace_malloc_ret''"
| "mem_function (Free E ctx) = ''trace_free''"
| "mem_function (Go_Gc_Start E ctx) = ''trace_go_gc_start''"
| "mem_function Leak_Check = ''periodic_leak_check''"

fun cpu_function :: "cpu_event \<Rightarrow> string" where
  "cpu_function (Sched_Switch E ctx) = ''trace_sched_switch''"
| "cpu_function (Sched_Wakeup E ctx) = ''trace_sched_wakeup''"
| "cpu_function (Process_Exit E ctx) = ''trace_process_exit''"
| "cpu_function (Cpu_Profile E) = ''cpu_profile''"

fun fs_function :: "fs_hook \<Rightarrow> string" where
  "fs_function (Openat_Enter E ctx) = ''trace_openat_enter''"
| "fs_function (Openat_Exit E ctx) = ''trace_openat_exit''"
| "fs_function (Fs_Tracker.Read_Enter E ctx) = ''trace_read_enter''"
| "fs_function (Fs_Tracker.Read_Exit E ctx) = ''trace_read_exit''"
| "fs_function (Fs_Tracker.Write_Enter E ctx) = ''trace_write_enter''"
| "fs_function (Write_Exit E ctx) = ''trace_write_exit''"

fun app_function :: "app_hook \<Rightarrow> string" where
  "app_function (Db_Start E ctx) = ''trace_db_query_start''"
| "app_function (Db_End E ctx) = ''trace_db_query_end''"
| "app_function (Cache_Start E ctx) = ''trace_cache_get_start''"
| "app_function (Cache_End E ctx) = ''trace_cache_get_end''"
| "app_function (Gc_Start E ctx) = ''trace_go_gc_start''"
| "app_function (Gc_End E ctx) = ''trace_go_gc_end''"
| "app_function (Custom E ctx) = ''trace_custom_metric''"

fun sec_function :: "sec_hook \<Rightarrow> string" where
  "sec_function (Sys_Enter E ctx) = ''trace_sys_enter''"
| "sec_function (Process_Exec E ctx) = ''trace_process_exec''"
| "sec_function (File_Access E ctx) = ''trace_file_access''"
| "sec_function (Tcp_Connect E ctx) = ''trace_tcp_connect''"
| "sec_function (Memory_Pressure E) = ''trace_memory_pressure''"
| "sec_function (Oom_Event E) = ''trace_oom_event''"

definition assumed :: "component \<Rightarrow> kevent \<Rightarrow> string multiset" where
  "assumed c e =
     (case c of
        HTTPMetricsCollector \<Rightarrow> mset (map http_function (http_hooks e))
      | MemoryTracker \<Rightarrow> mset (map mem_function (mem_hooks e))
      | CPUTracker \<Rightarrow> mset (map cpu_function (cpu_hooks e))
      | FSTracker \<Rightarrow> mset (map fs_function (fs_hooks e))
      | AppSpecificTracker \<Rightarrow> mset (map app_function (app_hooks e))
      | SecurityMonitor \<Rightarrow> mset (map sec_function (sec_hooks e))
      | _ \<Rightarrow> {#})"

lemma run_by_sites:
  assumes "\<not> in_executable e" "links t = sites c"
  shows "run_by t e = assumed c e"
  using assms numbers numbers [symmetric]
  by (cases c; cases e) (simp_all add: run_by_def assumed_def site_lists Let_def)

lemma executables_only:
  assumes "\<not> in_executable e" "set (links t) \<subseteq> set (sites AppSpecificTracker)"
  shows "run_by t e = {#}"
proof -
  have "fst x \<notin> set (triggers e)" if "x \<in> set (links t)" for x
  proof -
    have "x \<in> set (sites AppSpecificTracker)" using that assms(2) by blast
    hence "\<exists>b f. fst x = Uprobe b f \<or> fst x = Uretprobe b f" by (auto simp: site_lists)
    thus ?thesis by (cases e) (auto split: option.splits)
  qed
  thus ?thesis by (simp add: run_by_def filter_False)
qed

lemma run_by_mono:
  assumes "set (links t) \<subseteq> set (links u)"
  shows "set_mset (run_by t e) \<subseteq> set_mset (run_by u e)"
  using assms by (auto simp: run_by_def)

text \<open>
  Property C14. The theory \<open>Watcher\<close> hears what the kernel runs. After the start, for every event outside the
  executables, no collector has a program run that its hooks in \<open>Watcher\<close> do not have; and if the start succeeds
  and the attachments whose failure is only a warning are granted, each collector has exactly the programs
  run that its hooks say, none of them twice or left out.
\<close>

theorem hooks_are_the_programs_run:
  assumes "NewEbpfCollector A W = Returned C0 W1" "StartAll B (C0, W1) = (e, C, W')" "\<not> in_executable ev"
  shows "set_mset (run_by (C c) ev) \<subseteq> set_mset (assumed c ev) \<and>
    (e = None \<and> (\<forall>x\<in>set (attachNetworkKprobes @ attachResourceTracepoints). attach_ok B x) \<longrightarrow>
      run_by (C c) ev = assumed c ev)"
proof (intro conjI impI; (elim conjE)?)
  note s = assms(2) [unfolded New_fresh [OF assms(1)]]
  let ?t = "(fresh c)\<lparr>links := sites c\<rparr>"
  have "set_mset (run_by (C c) ev) \<subseteq> set_mset (run_by ?t ev)"
    by (rule run_by_mono) (simp add: started_links [OF s])
  also have "run_by ?t ev = assumed c ev" by (rule run_by_sites [OF assms(3)]) simp
  finally show "set_mset (run_by (C c) ev) \<subseteq> set_mset (assumed c ev)" .
  assume n: "e = None" and g: "\<forall>x\<in>set (attachNetworkKprobes @ attachResourceTracepoints). attach_ok B x"
  show "run_by (C c) ev = assumed c ev"
  proof (cases "c = AppSpecificTracker")
    case True
    have "run_by (C c) ev = {#}" using executables_only [OF assms(3)] started_links [OF s] True by blast
    moreover have "assumed c ev = {#}" using assms(3) True by (cases ev) (simp_all add: assumed_def)
    ultimately show ?thesis by simp
  next
    case False
    from started_all_links [OF s [unfolded n] this g] show ?thesis by (rule run_by_sites [OF assms(3)])
  qed
qed

text \<open>A call of \<open>openat\<close> as security_monitor hears it: the raw tracepoint and the one of the call.\<close>

lemma hooks_are_the_programs_run_witness:
  "\<exists>C0 W1 C W'. NewEbpfCollector all_well {#} = Returned C0 W1 \<and> StartAll all_well (C0, W1) = (None, C, W') \<and>
     (\<forall>S ctx regs. run_by (C SecurityMonitor) (Enter S (ctx\<lparr>se_id := 257\<rparr>) regs True) =
        {#''trace_sys_enter'', ''trace_file_access''#})"
proof -
  have g: "granted all_well" by (simp add: granted_def all_well_def)
  obtain C0 W1 where n: "NewEbpfCollector all_well {#} = Returned C0 W1"
    by (simp add: NewEbpfCollector_def all_well_def)
  obtain C W' where s: "StartAll all_well (C0, W1) = (None, C, W')"
    using granted_StartAll [OF g, of "(C0, W1)"] by (metis prod.collapse)
  have "run_by (C SecurityMonitor) (Enter S (ctx\<lparr>se_id := 257\<rparr>) regs True) =
      assumed SecurityMonitor (Enter S (ctx\<lparr>se_id := 257\<rparr>) regs True)" for S ctx regs
    using hooks_are_the_programs_run [OF n s] by (simp add: all_well_def)
  thus ?thesis using n s by (auto simp: assumed_def nr_openat_def)
qed

end
