(* ===== verification/Process.thy ===== *)
theory Process
  imports Attachments
begin

text \<open>
  The process: the main goroutine (\<^verbatim>\<open>main.go\<close>, \<open>Collector.Start\<close> in \<^verbatim>\<open>collector.go\<close> and the \<open>Start\<close> methods that
  it calls one after the other) and the goroutine that waits for a signal and calls \<open>Collector.Shutdown\<close>, step by
  step in any order. The two share the contexts and the pointer to the eBPF collector. The theory says when
  the eBPF collector is started, that a signal ends the process, and what a shutdown gives back.
\<close>

section \<open>The two goroutines\<close>

text \<open>
  Where each is. \<open>Stats_Start\<close> makes the context of the statistics collector, \<open>Stats_Setup\<close> the rest up to the loop
  of \<open>startScrape\<close>, \<open>Scraping\<close> is that loop: \<open>startScrape\<close> is called, not started as a goroutine, so the main goroutine
  stays in it. \<open>Ebpf_Start\<close> has the components still to be started.
\<close>

datatype main_pc = Events_Start | Cluster_Start | Stats_Start | Stats_Setup | Scraping | Ebpf_New | Mapper_Start
| Ebpf_Start "component list" | Await_Done | Finished | Fatal

datatype signal_pc = No_Signal | Shut_Events | Shut_Cluster | Shut_Stats | Shut_Ebpf | Cancel_Main | Handled

text \<open>
  A context is a flag, true once cancelled. \<open>stats_ctx\<close> is \<open>None\<close> as long as \<open>ksc.cancel\<close> is nil;
  \<open>ebpf_collector\<close> is \<open>None\<close> as long as \<open>c.ebpfCollector\<close> is nil.
\<close>

record proc =
  main_at :: main_pc
  signal_at :: signal_pc
  stats_ctx :: "bool option"
  main_ctx :: bool
  ebpf_collector :: "collector option"
  ebpf_closed :: bool
  kernel_holds :: world

definition begin_proc :: "world \<Rightarrow> proc" where
  "begin_proc W = \<lparr>main_at = Events_Start, signal_at = No_Signal, stats_ctx = None, main_ctx = False,
     ebpf_collector = None, ebpf_closed = False, kernel_holds = W\<rparr>"

text \<open>
  How a call of the main goroutine comes out: it succeeds, with the answers of the kernel where it asks, or
  it returns an error; or a scrape succeeds. An error of any \<open>Start\<close> is fatal.
\<close>

datatype move = Proceed answers | Fail | Tick

fun main_step :: "move \<Rightarrow> proc \<Rightarrow> proc option" where
  "main_step m p =
     (case main_at p of
        Finished \<Rightarrow> None
      | Fatal \<Rightarrow> None
      | Await_Done \<Rightarrow> (if main_ctx p then Some (p\<lparr>main_at := Finished\<rparr>) else None)
      | pc \<Rightarrow>
         (case m of
            Fail \<Rightarrow> Some (p\<lparr>main_at := Fatal\<rparr>)
          | Tick \<Rightarrow> (if pc = Scraping then Some p else None)
          | Proceed A \<Rightarrow>
             (case pc of
                Events_Start \<Rightarrow> Some (p\<lparr>main_at := Cluster_Start\<rparr>)
              | Cluster_Start \<Rightarrow> Some (p\<lparr>main_at := Stats_Start\<rparr>)
              | Stats_Start \<Rightarrow> Some (p\<lparr>main_at := Stats_Setup, stats_ctx := Some (main_ctx p)\<rparr>)
              | Stats_Setup \<Rightarrow> Some (p\<lparr>main_at := Scraping\<rparr>)
              | Scraping \<Rightarrow> (if stats_ctx p = Some True then Some (p\<lparr>main_at := Ebpf_New\<rparr>) else None)
              | Ebpf_New \<Rightarrow>
                  (case NewEbpfCollector A (kernel_holds p) of
                     Returned C W \<Rightarrow> Some (p\<lparr>main_at := Mapper_Start, ebpf_collector := Some C, kernel_holds := W\<rparr>)
                   | Failed e W \<Rightarrow> Some (p\<lparr>main_at := Fatal, kernel_holds := W\<rparr>)
                   | Exited e W \<Rightarrow> Some (p\<lparr>main_at := Fatal, kernel_holds := W\<rparr>))
              | Mapper_Start \<Rightarrow>
                  Some (p\<lparr>main_at := (if refresh_ok A then Ebpf_Start (tl programs) else Fatal)\<rparr>)
              | Ebpf_Start [] \<Rightarrow> Some (p\<lparr>main_at := Await_Done\<rparr>)
              | Ebpf_Start (c # later) \<Rightarrow>
                  (case ebpf_collector p of
                     None \<Rightarrow> None
                   | Some C \<Rightarrow>
                      (case on_component c (Start A c) (C, kernel_holds p) of (e, C', W) \<Rightarrow>
                         Some (p\<lparr>main_at := (if e = None then Ebpf_Start later else Fatal),
                           ebpf_collector := Some C', kernel_holds := W\<rparr>)))
              | _ \<Rightarrow> None)))"

text \<open>
  \<open>Collector.Shutdown\<close>, then \<open>cancel\<close> of the context that all others derive from. The shutdowns of the events and of
  the cluster collector cancel contexts that the main goroutine does not wait for. No step returns an error.
\<close>

fun handler_step :: "answers \<Rightarrow> proc \<Rightarrow> proc option" where
  "handler_step A p =
     (if main_at p = Finished \<or> main_at p = Fatal then None
      else case signal_at p of
        No_Signal \<Rightarrow> None
      | Shut_Events \<Rightarrow> Some (p\<lparr>signal_at := Shut_Cluster\<rparr>)
      | Shut_Cluster \<Rightarrow> Some (p\<lparr>signal_at := Shut_Stats\<rparr>)
      | Shut_Stats \<Rightarrow> Some (p\<lparr>signal_at := Shut_Ebpf, stats_ctx := map_option (\<lambda>_. True) (stats_ctx p)\<rparr>)
      | Shut_Ebpf \<Rightarrow>
          (case ebpf_collector p of
             None \<Rightarrow> Some (p\<lparr>signal_at := Cancel_Main\<rparr>)
           | Some C \<Rightarrow> Some (p\<lparr>signal_at := Cancel_Main, ebpf_closed := True,
               kernel_holds := CloseAll A (C, kernel_holds p)\<rparr>))
      | Cancel_Main \<Rightarrow> Some (p\<lparr>signal_at := Handled, main_ctx := True,
          stats_ctx := map_option (\<lambda>_. True) (stats_ctx p)\<rparr>)
      | Handled \<Rightarrow> None)"

text \<open>Only the first signal is heard (\<open>signal.Stop\<close>). Nothing happens after the process has ended.\<close>

datatype act = Signal | Handler answers | Main move

fun act_step :: "act \<Rightarrow> proc \<Rightarrow> proc option" where
  "act_step Signal p = (if signal_at p = No_Signal \<and> main_at p \<noteq> Finished \<and> main_at p \<noteq> Fatal
     then Some (p\<lparr>signal_at := Shut_Events\<rparr>) else None)"
| "act_step (Handler A) p = handler_step A p"
| "act_step (Main m) p = main_step m p"

fun proc_run :: "act list \<Rightarrow> proc \<Rightarrow> proc option" where
  "proc_run [] p = Some p"
| "proc_run (a # acts) p = (case act_step a p of None \<Rightarrow> None | Some q \<Rightarrow> proc_run acts q)"

section \<open>Invariants\<close>

text \<open>The steps of the main goroutine, one by one.\<close>

lemma main_step_E:
  assumes "main_step m p = Some q"
  obtains (fail) "m = Fail" "main_at p \<notin> {Finished, Fatal, Await_Done}" "q = p\<lparr>main_at := Fatal\<rparr>"
  | (tick) "m = Tick" "main_at p = Scraping" "q = p"
  | (events) A where "m = Proceed A" "main_at p = Events_Start" "q = p\<lparr>main_at := Cluster_Start\<rparr>"
  | (cluster) A where "m = Proceed A" "main_at p = Cluster_Start" "q = p\<lparr>main_at := Stats_Start\<rparr>"
  | (stats) A where "m = Proceed A" "main_at p = Stats_Start"
      "q = p\<lparr>main_at := Stats_Setup, stats_ctx := Some (main_ctx p)\<rparr>"
  | (prepared) A where "m = Proceed A" "main_at p = Stats_Setup" "q = p\<lparr>main_at := Scraping\<rparr>"
  | (scraped) A where "m = Proceed A" "main_at p = Scraping" "stats_ctx p = Some True" "q = p\<lparr>main_at := Ebpf_New\<rparr>"
  | (loaded) A C W where "m = Proceed A" "main_at p = Ebpf_New" "NewEbpfCollector A (kernel_holds p) = Returned C W"
      "q = p\<lparr>main_at := Mapper_Start, ebpf_collector := Some C, kernel_holds := W\<rparr>"
  | (not_loaded) A W where "m = Proceed A" "main_at p = Ebpf_New" "q = p\<lparr>main_at := Fatal, kernel_holds := W\<rparr>"
  | (mapper) A where "m = Proceed A" "main_at p = Mapper_Start"
      "q = p\<lparr>main_at := (if refresh_ok A then Ebpf_Start (tl programs) else Fatal)\<rparr>"
  | (started) A c later C e C' W where "m = Proceed A" "main_at p = Ebpf_Start (c # later)"
      "ebpf_collector p = Some C" "on_component c (Start A c) (C, kernel_holds p) = (e, C', W)"
      "q = p\<lparr>main_at := (if e = None then Ebpf_Start later else Fatal), ebpf_collector := Some C', kernel_holds := W\<rparr>"
  | (all_started) A where "m = Proceed A" "main_at p = Ebpf_Start []" "q = p\<lparr>main_at := Await_Done\<rparr>"
  | (finished) "main_at p = Await_Done" "main_ctx p" "q = p\<lparr>main_at := Finished\<rparr>"
proof (cases "main_at p = Await_Done")
  case True
  thus thesis using assms finished by (simp split: if_splits)
next
  case False
  hence n: "main_at p \<notin> {Finished, Fatal, Await_Done}" using assms by (auto split: main_pc.splits)
  show thesis
  proof (cases m)
    case Fail
    hence "q = p\<lparr>main_at := Fatal\<rparr>" using assms n by (cases "main_at p") simp_all
    thus thesis by (rule fail [OF Fail n])
  next
    case Tick
    hence "main_at p = Scraping" "q = p" using assms n by (cases "main_at p"; simp)+
    thus thesis by (rule tick [OF Tick])
  next
    case (Proceed A)
    note P = assms [unfolded Proceed]
    show thesis
    proof (cases "main_at p")
      case Events_Start
      show thesis by (rule events [OF Proceed Events_Start]) (use P Events_Start in simp)
    next
      case Cluster_Start
      show thesis by (rule cluster [OF Proceed Cluster_Start]) (use P Cluster_Start in simp)
    next
      case Stats_Start
      show thesis by (rule stats [OF Proceed Stats_Start]) (use P Stats_Start in simp)
    next
      case Stats_Setup
      show thesis by (rule prepared [OF Proceed Stats_Setup]) (use P Stats_Setup in simp)
    next
      case Scraping
      show thesis by (rule scraped [OF Proceed Scraping]) (use P Scraping in \<open>simp_all split: if_splits\<close>)
    next
      case Mapper_Start
      show thesis by (rule mapper [OF Proceed Mapper_Start]) (use P Mapper_Start in simp)
    next
      case Ebpf_New
      show thesis
      proof (cases "NewEbpfCollector A (kernel_holds p)")
        case (Returned C W)
        show thesis by (rule loaded [OF Proceed Ebpf_New Returned]) (use P Ebpf_New Returned in simp)
      qed (use P Ebpf_New not_loaded [OF Proceed Ebpf_New] in auto)
    next
      case (Ebpf_Start later)
      show thesis
      proof (cases later)
        case Nil
        show thesis by (rule all_started [OF Proceed]) (use P Ebpf_Start Nil in simp_all)
      next
        case (Cons c rest)
        obtain C where C: "ebpf_collector p = Some C" using P Ebpf_Start Cons by (cases "ebpf_collector p") simp_all
        obtain e C' W where o: "on_component c (Start A c) (C, kernel_holds p) = (e, C', W)" by (metis prod_cases3)
        show thesis by (rule started [OF Proceed _ C o]) (use P Ebpf_Start Cons C o in auto)
      qed
    qed (use n in simp_all)
  qed
qed

lemma handler_step_E:
  assumes "handler_step A p = Some q"
  obtains (events) "signal_at p = Shut_Events" "q = p\<lparr>signal_at := Shut_Cluster\<rparr>"
  | (cluster) "signal_at p = Shut_Cluster" "q = p\<lparr>signal_at := Shut_Stats\<rparr>"
  | (stats) "signal_at p = Shut_Stats"
      "q = p\<lparr>signal_at := Shut_Ebpf, stats_ctx := map_option (\<lambda>_. True) (stats_ctx p)\<rparr>"
  | (no_ebpf) "signal_at p = Shut_Ebpf" "ebpf_collector p = None" "q = p\<lparr>signal_at := Cancel_Main\<rparr>"
  | (ebpf) C where "signal_at p = Shut_Ebpf" "ebpf_collector p = Some C"
      "q = p\<lparr>signal_at := Cancel_Main, ebpf_closed := True, kernel_holds := CloseAll A (C, kernel_holds p)\<rparr>"
  | (cancel) "signal_at p = Cancel_Main"
      "q = p\<lparr>signal_at := Handled, main_ctx := True, stats_ctx := map_option (\<lambda>_. True) (stats_ctx p)\<rparr>"
proof (cases "signal_at p")
  case Shut_Events
  show thesis by (rule events [OF Shut_Events]) (use assms Shut_Events in \<open>simp split: if_splits\<close>)
next
  case Shut_Cluster
  show thesis by (rule cluster [OF Shut_Cluster]) (use assms Shut_Cluster in \<open>simp split: if_splits\<close>)
next
  case Shut_Stats
  show thesis by (rule stats [OF Shut_Stats]) (use assms Shut_Stats in \<open>simp split: if_splits\<close>)
next
  case Shut_Ebpf
  show thesis
  proof (cases "ebpf_collector p")
    case None
    show thesis by (rule no_ebpf [OF Shut_Ebpf None]) (use assms Shut_Ebpf None in \<open>simp split: if_splits\<close>)
  next
    case (Some C)
    show thesis by (rule ebpf [OF Shut_Ebpf Some]) (use assms Shut_Ebpf Some in \<open>simp split: if_splits\<close>)
  qed
next
  case Cancel_Main
  show thesis by (rule cancel [OF Cancel_Main]) (use assms Cancel_Main in \<open>simp split: if_splits\<close>)
qed (use assms in \<open>simp_all split: if_splits\<close>)

lemma signal_step: "act_step Signal p = Some q \<Longrightarrow> signal_at p = No_Signal \<and> q = p\<lparr>signal_at := Shut_Events\<rparr>"
  by (simp split: if_splits)

declare main_step.simps [simp del] handler_step.simps [simp del]

lemma proc_invariant:
  assumes "proc_run acts p = Some q" "I p"
    and "\<And>a p q. a \<in> set acts \<Longrightarrow> I p \<Longrightarrow> act_step a p = Some q \<Longrightarrow> I q"
  shows "I q"
  using assms
proof (induction acts arbitrary: p)
  case (Cons a acts)
  then obtain r where r: "act_step a p = Some r" "proc_run acts r = Some q" by (auto split: option.splits)
  have "I r" using Cons.prems(3) [of a p r] Cons.prems(2) r(1) by simp
  with r(2) show ?case by (rule Cons.IH) (rule Cons.prems(3), simp_all)
qed simp

definition before_ebpf :: "main_pc set" where
  "before_ebpf = {Events_Start, Cluster_Start, Stats_Start, Stats_Setup, Scraping, Fatal}"

definition undisturbed :: "world \<Rightarrow> proc \<Rightarrow> bool" where
  "undisturbed W p \<longleftrightarrow> main_at p \<in> before_ebpf \<and> signal_at p = No_Signal \<and> stats_ctx p \<noteq> Some True \<and>
     \<not> main_ctx p \<and> ebpf_collector p = None \<and> kernel_holds p = W"

lemma undisturbed_step:
  assumes "undisturbed W p" "act_step a p = Some q" "a \<noteq> Signal"
  shows "undisturbed W q"
proof (cases a)
  case (Handler A)
  thus ?thesis using assms by (auto simp: undisturbed_def elim: handler_step_E)
next
  case (Main m)
  hence "main_step m p = Some q" using assms(2) by simp
  thus ?thesis using assms(1)
    by (cases rule: main_step_E) (auto simp: undisturbed_def before_ebpf_def)
qed (use assms in simp)

text \<open>
  Property C15. While the watcher watches, it has no eBPF collector. As long as no signal has come, in whatever
  way the calls of the main goroutine come out, no program is loaded or attached and \<open>c.ebpfCollector\<close> is nil:
  the main goroutine is in one of the starts before that of the eBPF collector, at the end in the loop of
  \<open>startScrape\<close>, or the process has failed.
\<close>

theorem no_ebpf_before_signal:
  assumes "proc_run acts (begin_proc W) = Some p" "Signal \<notin> set acts"
  shows "main_at p \<in> before_ebpf \<and> ebpf_collector p = None \<and> kernel_holds p = W"
proof -
  have "undisturbed W p"
    using assms(1)
  proof (rule proc_invariant)
    show "undisturbed W (begin_proc W)" by (simp add: undisturbed_def begin_proc_def before_ebpf_def)
    show "undisturbed W q" if "a \<in> set acts" "undisturbed W p" "act_step a p = Some q" for a p q
      using undisturbed_step [OF that(2,3)] that(1) assms(2) by auto
  qed
  thus ?thesis by (simp add: undisturbed_def)
qed

text \<open>Up to the loop and twice around it.\<close>

lemma no_ebpf_before_signal_witness:
  "\<exists>p. proc_run (replicate 4 (Main (Proceed all_well)) @ [Main Tick, Main Tick]) (begin_proc {#}) = Some p \<and>
     main_at p = Scraping \<and> ebpf_collector p = None \<and> kernel_holds p = {#}"
proof -
  obtain p where p: "proc_run (replicate 4 (Main (Proceed all_well)) @ [Main Tick, Main Tick]) (begin_proc {#}) = Some p"
    and "main_at p = Scraping" by (simp add: begin_proc_def numeral_eq_Suc main_step.simps)
  thus ?thesis using no_ebpf_before_signal [OF p] by simp
qed

section \<open>The end of the process\<close>

fun main_rank :: "main_pc \<Rightarrow> nat" where
  "main_rank Events_Start = 16"
| "main_rank Cluster_Start = 15"
| "main_rank Stats_Start = 14"
| "main_rank Stats_Setup = 13"
| "main_rank Scraping = 12"
| "main_rank Ebpf_New = 11"
| "main_rank Mapper_Start = 10"
| "main_rank (Ebpf_Start later) = 2 + length later"
| "main_rank Await_Done = 1"
| "main_rank Finished = 0"
| "main_rank Fatal = 0"

fun signal_rank :: "signal_pc \<Rightarrow> nat" where
  "signal_rank No_Signal = 6"
| "signal_rank Shut_Events = 5"
| "signal_rank Shut_Cluster = 4"
| "signal_rank Shut_Stats = 3"
| "signal_rank Shut_Ebpf = 2"
| "signal_rank Cancel_Main = 1"
| "signal_rank Handled = 0"

definition proc_rank :: "proc \<Rightarrow> nat" where
  "proc_rank p = main_rank (main_at p) + signal_rank (signal_at p)"

text \<open>Every step but a scrape comes nearer to the end.\<close>

lemma main_decreases:
  assumes "main_step m p = Some q"
  shows "if main_at p = Scraping \<and> m = Tick then q = p else proc_rank q < proc_rank p"
  using assms
proof (cases rule: main_step_E)
  case fail
  thus ?thesis by (cases "main_at p") (simp_all add: proc_rank_def)
qed (simp_all add: proc_rank_def programs_def)

lemma handler_decreases: "handler_step A p = Some q \<Longrightarrow> proc_rank q < proc_rank p"
  by (erule handler_step_E) (simp_all add: proc_rank_def)

lemma act_rank: "act_step a p = Some q \<Longrightarrow> (if a = Main Tick then proc_rank q \<le> proc_rank p else proc_rank q < proc_rank p)"
proof (cases a)
  case Signal
  thus "act_step a p = Some q \<Longrightarrow> ?thesis" by (auto simp: proc_rank_def split: if_splits)
next
  case (Handler A)
  thus "act_step a p = Some q \<Longrightarrow> ?thesis" using handler_decreases by simp
next
  case (Main m)
  thus "act_step a p = Some q \<Longrightarrow> ?thesis" using main_decreases [of m p q]
    by (auto split: if_splits)
qed

lemma run_rank:
  "proc_run acts p = Some q \<Longrightarrow> length (filter (\<lambda>a. a \<noteq> Main Tick) acts) + proc_rank q \<le> proc_rank p"
proof (induction acts arbitrary: p)
  case (Cons a acts)
  obtain r where r: "act_step a p = Some r" "proc_run acts r = Some q"
    using Cons.prems by (auto simp del: act_step.simps split: option.splits)
  show ?case using act_rank [OF r(1)] Cons.IH [OF r(2)] by (auto split: if_splits)
qed simp

text \<open>How the contexts hang together.\<close>

definition coherent :: "proc \<Rightarrow> bool" where
  "coherent p \<longleftrightarrow> (main_ctx p \<longrightarrow> stats_ctx p \<noteq> Some False) \<and> (signal_at p = Handled \<longrightarrow> main_ctx p) \<and>
     (main_at p \<in> {Stats_Setup, Scraping} \<longrightarrow> stats_ctx p \<noteq> None) \<and>
     (ebpf_collector p = None \<longrightarrow> main_at p \<in> insert Ebpf_New before_ebpf) \<and>
     (ebpf_closed p \<longrightarrow> signal_at p \<in> {Cancel_Main, Handled})"

lemma coherent_step:
  assumes "coherent p" "act_step a p = Some q"
  shows "coherent q"
proof (cases a)
  case Signal
  thus ?thesis using assms(1) signal_step [OF assms(2) [unfolded Signal]] by (auto simp: coherent_def)
next
  case (Handler A)
  hence "handler_step A p = Some q" using assms(2) by simp
  thus ?thesis using assms(1) by (cases rule: handler_step_E) (auto simp: coherent_def)
next
  case (Main m)
  hence "main_step m p = Some q" using assms(2) by simp
  thus ?thesis
  proof (cases rule: main_step_E)
    case fail
    thus ?thesis using assms(1) by (auto simp: coherent_def before_ebpf_def)
  qed (use assms(1) in \<open>simp_all add: coherent_def before_ebpf_def\<close>)
qed

lemma coherent_run:
  assumes "proc_run acts (begin_proc W) = Some p"
  shows "coherent p"
  using assms
proof (rule proc_invariant)
  show "coherent (begin_proc W)" by (simp add: begin_proc_def coherent_def before_ebpf_def)
qed (rule coherent_step)


text \<open>With every request granted the start of the eBPF collector runs through, whatever the handler has done.\<close>

lemma proc_run_append: "proc_run (xs @ ys) p = (case proc_run xs p of None \<Rightarrow> None | Some q \<Rightarrow> proc_run ys q)"
  by (induction xs arbitrary: p) (auto split: option.splits)

lemma starts_run_through:
  assumes "granted A" "main_at p = Ebpf_Start later" "ebpf_collector p = Some C"
  shows "\<exists>C' W. proc_run (replicate (Suc (length later)) (Main (Proceed A))) p =
    Some (p\<lparr>main_at := Await_Done, ebpf_collector := Some C', kernel_holds := W\<rparr>)"
  using assms
proof (induction later arbitrary: p C)
  case Nil
  thus ?case by (intro exI [of _ C] exI [of _ "kernel_holds p"]) (simp add: main_step.simps)
next
  case (Cons c later)
  obtain t W where s: "Start A c (C c, kernel_holds p) = (None, t, W)"
    using granted_Start [OF Cons.prems(1), of c "(C c, kernel_holds p)"] by (metis prod.collapse)
  define r where "r = p\<lparr>main_at := Ebpf_Start later, ebpf_collector := Some (C(c := t)), kernel_holds := W\<rparr>"
  have m: "main_step (Proceed A) p = Some r"
    using Cons.prems s by (simp add: main_step.simps on_component_def r_def)
  have "main_at r = Ebpf_Start later" "ebpf_collector r = Some (C(c := t))" by (simp_all add: r_def)
  from Cons.IH [OF Cons.prems(1) this] obtain C' W' where
    "proc_run (replicate (Suc (length later)) (Main (Proceed A))) r =
      Some (r\<lparr>main_at := Await_Done, ebpf_collector := Some C', kernel_holds := W'\<rparr>)" by blast
  moreover have "r\<lparr>main_at := Await_Done, ebpf_collector := Some C', kernel_holds := W'\<rparr> =
      p\<lparr>main_at := Await_Done, ebpf_collector := Some C', kernel_holds := W'\<rparr>" by (simp add: r_def)
  moreover have "proc_run (replicate (Suc (length (c # later))) (Main (Proceed A))) p =
      proc_run (replicate (Suc (length later)) (Main (Proceed A))) r" using m by simp
  ultimately show ?case by metis
qed

text \<open>
  A signal in the loop of \<open>startScrape\<close>: the handler makes so many steps, then the main goroutine leaves the loop,
  loads the programs and starts every collector. With five steps the handler has reached its end before
  there is an eBPF collector, with three it finds one.
\<close>

definition signal_first :: "nat \<Rightarrow> act list" where
  "signal_first n = (replicate 4 (Main (Proceed all_well)) @ [Signal] @ replicate n (Handler all_well) @
     replicate 3 (Main (Proceed all_well))) @ replicate 8 (Main (Proceed all_well))"

lemma all_well_granted: "granted all_well"
  by (simp add: granted_def all_well_def)

lemma all_well_loads: "\<exists>W'. NewEbpfCollector all_well W = Returned fresh W'"
  by (simp add: NewEbpfCollector_def all_well_def)

lemma signal_first_waits:
  assumes "proc_run (replicate 4 (Main (Proceed all_well)) @ [Signal] @ replicate n (Handler all_well) @
      replicate 3 (Main (Proceed all_well))) p = Some q" "main_at q = Ebpf_Start (tl programs)"
    "ebpf_collector q = Some C"
  shows "\<exists>C' W. proc_run (signal_first n) p =
    Some (q\<lparr>main_at := Await_Done, ebpf_collector := Some C', kernel_holds := W\<rparr>)"
proof -
  have e: "Suc (length (tl programs)) = 8" by (simp add: programs_def)
  show ?thesis unfolding signal_first_def proc_run_append [of "_ @ _"] assms(1)
    using starts_run_through [OF all_well_granted assms(2,3)] unfolding e by simp
qed

lemma late_start:
  "\<exists>p C. proc_run (signal_first 5) (begin_proc W) = Some p \<and> main_at p = Await_Done \<and> main_ctx p \<and>
     \<not> ebpf_closed p \<and> ebpf_collector p = Some C"
proof -
  obtain W' where n: "NewEbpfCollector all_well W = Returned fresh W'" using all_well_loads by blast
  define q where "q = \<lparr>main_at = Ebpf_Start (tl programs), signal_at = Handled, stats_ctx = Some True,
    main_ctx = True, ebpf_collector = Some fresh, ebpf_closed = False, kernel_holds = W'\<rparr>"
  have r: "proc_run (replicate 4 (Main (Proceed all_well)) @ [Signal] @ replicate 5 (Handler all_well) @
      replicate 3 (Main (Proceed all_well))) (begin_proc W) = Some q"
    using all_well_granted n
    by (simp add: begin_proc_def numeral_eq_Suc main_step.simps handler_step.simps granted_def q_def)
  from signal_first_waits [OF r] show ?thesis by (auto simp: q_def)
qed

lemma prompt_start:
  "\<exists>p. proc_run (signal_first 3) (begin_proc W) = Some p \<and> main_at p = Await_Done \<and> signal_at p = Shut_Ebpf"
proof -
  obtain W' where n: "NewEbpfCollector all_well W = Returned fresh W'" using all_well_loads by blast
  define q where "q = \<lparr>main_at = Ebpf_Start (tl programs), signal_at = Shut_Ebpf, stats_ctx = Some True,
    main_ctx = False, ebpf_collector = Some fresh, ebpf_closed = False, kernel_holds = W'\<rparr>"
  have r: "proc_run (replicate 4 (Main (Proceed all_well)) @ [Signal] @ replicate 3 (Handler all_well) @
      replicate 3 (Main (Proceed all_well))) (begin_proc W) = Some q"
    using all_well_granted n
    by (simp add: begin_proc_def numeral_eq_Suc main_step.simps handler_step.simps granted_def q_def)
  from signal_first_waits [OF r] show ?thesis by (auto simp: q_def)
qed

section \<open>What a shutdown gives back\<close>

fun to_start :: "main_pc \<Rightarrow> component list" where
  "to_start Mapper_Start = tl programs"
| "to_start (Ebpf_Start later) = later"
| "to_start _ = []"

text \<open>Until \<open>Close\<close> is called, the kernel holds for the process what its collectors know of.\<close>

definition accounted :: "world \<Rightarrow> proc \<Rightarrow> bool" where
  "accounted W p \<longleftrightarrow> ebpf_closed p \<or>
     (case ebpf_collector p of
        None \<Rightarrow> main_at p \<noteq> Fatal \<longrightarrow> kernel_holds p = W
      | Some C \<Rightarrow> belongs W (C, kernel_holds p) \<and> main_at p \<notin> insert Ebpf_New (before_ebpf - {Fatal}) \<and> distinct (to_start (main_at p)) \<and>
          (\<forall>c\<in>set (to_start (main_at p)). \<not> ringbufReader (C c)))"

lemma accounted_main:
  assumes "main_step m p = Some q" "accounted W p"
  shows "accounted W q"
  using assms(1)
proof (cases rule: main_step_E)
  case (loaded A C V)
  show ?thesis
  proof (cases "ebpf_closed p")
    case False
    hence "kernel_holds p = W" using assms(2) loaded(2) by (auto simp: accounted_def split: option.splits)
    thus ?thesis using New_belongs [of A W C V] loaded programs_once
      by (simp add: accounted_def unread_def distinct_tl before_ebpf_def)
  qed (use loaded in \<open>simp add: accounted_def\<close>)
next
  case (started A c later C e C' V)
  show ?thesis
  proof (cases "ebpf_closed p")
    case False
    hence a: "belongs W (C, kernel_holds p)" "distinct (c # later)" "\<forall>d\<in>set (c # later). \<not> ringbufReader (C d)"
      using assms(2) started by (simp_all add: accounted_def)
    have "belongs W (C', V)"
      using on_component_belongs [OF a(1) opens_Start [of A c], of c] a(3) started(4) by simp
    moreover have "\<not> ringbufReader (C' d)" if "d \<in> set later" for d
    proof -
      have "d \<noteq> c" using a(2) that by auto
      from on_component_other [OF this, of "Start A c" "(C, kernel_holds p)"] show ?thesis
        using a(3) that started(4) by simp
    qed
    ultimately show ?thesis using started a(2) by (simp add: accounted_def before_ebpf_def)
  qed (use started in \<open>simp add: accounted_def\<close>)
qed (use assms(2) in \<open>auto simp: accounted_def before_ebpf_def split: option.splits\<close>)

lemma accounted_step: "accounted W p \<Longrightarrow> act_step a p = Some q \<Longrightarrow> accounted W q"
proof (cases a)
  case Signal
  thus "accounted W p \<Longrightarrow> act_step a p = Some q \<Longrightarrow> ?thesis"
    using signal_step [of p q] by (auto simp: accounted_def simp del: act_step.simps split: option.splits)
next
  case (Handler A)
  thus "accounted W p \<Longrightarrow> act_step a p = Some q \<Longrightarrow> ?thesis"
    by (auto elim!: handler_step_E simp: accounted_def split: option.splits)
next
  case (Main m)
  thus "accounted W p \<Longrightarrow> act_step a p = Some q \<Longrightarrow> ?thesis" using accounted_main [of m p q W] by simp
qed

lemma accounted_run:
  assumes "proc_run acts (begin_proc W) = Some p"
  shows "accounted W p"
  using assms
proof (rule proc_invariant)
  show "accounted W (begin_proc W)" by (simp add: begin_proc_def accounted_def)
qed (rule accounted_step)

text \<open>
  Property C19. What a shutdown gives back. When the main goroutine waits for the end or has ended and the handler
  has not called \<open>Close\<close>, all that the collectors have taken is still held: since the collector is made only after
  the shutdown has begun, this is how a process ends whose handler looked at \<open>c.ebpfCollector\<close> too early. If the handler
  comes to it when the start is complete, \<open>Close\<close> gives everything back, as far as the kernel lets it.
\<close>

theorem shutdown_gives_back:
  assumes "proc_run acts (begin_proc W) = Some p"
  shows "(main_at p \<in> {Await_Done, Finished} \<and> \<not> ebpf_closed p \<longrightarrow>
      (\<exists>C. ebpf_collector p = Some C \<and> kernel_holds p = W + (\<Sum>c\<leftarrow>programs. owned (C c)))) \<and>
    (main_at p = Await_Done \<and> signal_at p = Shut_Ebpf \<and> (\<forall>x. close_ok A x) \<longrightarrow>
      (\<exists>q. act_step (Handler A) p = Some q \<and> kernel_holds q = W))"
proof -
  note a = accounted_run [OF assms] and c = coherent_run [OF assms]
  have open_: "\<exists>C. ebpf_collector p = Some C \<and> kernel_holds p = W + (\<Sum>c\<leftarrow>programs. owned (C c))"
    if "main_at p \<in> {Await_Done, Finished}" "\<not> ebpf_closed p"
  proof -
    have "ebpf_collector p \<noteq> None" using c that(1) by (auto simp: coherent_def before_ebpf_def)
    thus ?thesis using a that(2) by (auto simp: accounted_def belongs_def)
  qed
  moreover have "\<exists>q. act_step (Handler A) p = Some q \<and> kernel_holds q = W"
    if s: "main_at p = Await_Done" "signal_at p = Shut_Ebpf" "\<forall>x. close_ok A x"
  proof -
    have "\<not> ebpf_closed p" using c s(2) by (auto simp: coherent_def)
    then obtain C where C: "ebpf_collector p = Some C" "kernel_holds p = W + (\<Sum>c\<leftarrow>programs. owned (C c))"
      using open_ s(1) by auto
    have "stuck A t = {#}" for t using s(3) by (simp add: stuck_def)
    hence "CloseAll A (C, kernel_holds p) = W" unfolding CloseAll_def C(2) by (simp add: fold_Close)
    thus ?thesis using s C(1) by (simp add: handler_step.simps)
  qed
  ultimately show ?thesis by blast
qed

text \<open>The early handler: the main goroutine goes past the end with programs loaded. And the prompt one.\<close>

lemma shutdown_gives_back_witness:
  "(\<exists>p. proc_run (signal_first 5 @ [Main (Proceed all_well)]) (begin_proc {#}) = Some p \<and> main_at p = Finished \<and>
      kernel_holds p \<noteq> {#}) \<and>
   (\<exists>p. proc_run (signal_first 3 @ [Handler all_well]) (begin_proc {#}) = Some p \<and> kernel_holds p = {#})"
proof (intro conjI)
  obtain p C where p: "proc_run (signal_first 5) (begin_proc {#}) = Some p" "main_at p = Await_Done" "main_ctx p"
    "\<not> ebpf_closed p" using late_start by blast
  let ?q = "p\<lparr>main_at := Finished\<rparr>"
  have q: "proc_run (signal_first 5 @ [Main (Proceed all_well)]) (begin_proc {#}) = Some ?q"
    using p by (simp add: proc_run_append main_step.simps)
  obtain C where "kernel_holds ?q = {#} + (\<Sum>c\<leftarrow>programs. owned (C c))"
    using shutdown_gives_back [OF q] p(4) by auto
  hence "kernel_holds ?q \<noteq> {#}" by (simp add: programs_def owned_def)
  thus "\<exists>p. proc_run (signal_first 5 @ [Main (Proceed all_well)]) (begin_proc {#}) = Some p \<and> main_at p = Finished \<and>
      kernel_holds p \<noteq> {#}" using q by (intro exI [of _ ?q]) simp
next
  obtain p where p: "proc_run (signal_first 3) (begin_proc {#}) = Some p" "main_at p = Await_Done" "signal_at p = Shut_Ebpf"
    using prompt_start by blast
  have "\<forall>x. close_ok all_well x" by (simp add: all_well_def)
  then obtain q where "act_step (Handler all_well) p = Some q" "kernel_holds q = {#}"
    using shutdown_gives_back [OF p(1), of all_well] p(2,3) by blast
  thus "\<exists>p. proc_run (signal_first 3 @ [Handler all_well]) (begin_proc {#}) = Some p \<and> kernel_holds p = {#}"
    using p(1) by (simp add: proc_run_append del: act_step.simps)
qed


end
