(* ===== verification/Spec2Isabelle.thy ===== *)
theory Spec2Isabelle
  imports Kernel_Layout Kernel_Memory Uprobe Cpu_Races Charge_Races Fs_Refinement Figures Process
begin

text \<open>
  \<^bold>\<open>What the program is.\<close> Futura watches the containers of a Kubernetes node. Its C code is a
  set of eBPF programs under \<^verbatim>\<open>src/watcher/internal/ebpf/bpf/\<close>: they run in the kernel, on
  tracepoints, probes and context switches, keep metrics per control group in BPF maps, and submit
  events to ring buffers. One collector in Go per program loads it, attaches it, polls the maps and
  reads the ring buffer; \<^verbatim>\<open>src/watcher/internal/ebpf/ebpf.go\<close> runs the collectors together and sends
  what they find to a backend. This development models the eBPF programs, what they assume of the
  kernel's memory layout, and the way of their metrics through the Go side up to the call of the backend.

  \<^bold>\<open>The library.\<close>
  \<^item> \<open>Bpf_Prelude\<close>: scalar types, process identifiers, byte strings, and the locales \<open>event_machine\<close>
    (every hook is a step, an invariant survives every run) and \<open>counting_machine\<close> (a 64-bit counter
    is the sum of the amounts of the run's events). Every component interprets them on its own steps.
  \<^item> \<open>Bpf_Map\<close>: \<open>BPF_MAP_TYPE_HASH\<close> maps with their capacity and return codes; the locale \<open>bpf_hash\<close> is the
    contract of the helper calls, interpreted on the model. \<open>fits\<close> says that the keys in use fit.
    A map that no program touches (two of them evict the least recently used entry) is a plain map.
  \<^item> \<open>Bpf_Env\<close>: the contexts of the hooks, the kernel objects, and \<open>kenv\<close>, the inputs of one
    invocation: ids, the clock, ring buffer reservations, user memory. Nothing is assumed of them
    unless a theorem says so.
  \<^item> \<open>C_String\<close>: byte buffers with reads that may leave them, the djb2 hash loops, \<open>str_contains\<close>.
  \<^item> \<open>Schedules\<close>: interleaved invocations; the locale \<open>stepwise\<close> is the contract of a program without
    loops, interpreted on \<open>Uprobe\<close>, \<open>Rps\<close>, \<open>Cpu_Races\<close> and \<open>Charge_Races\<close>.
  \<^item> \<open>Float64\<close>: the operations of \<open>float64\<close> on numbers that are neither negative nor too large, as exact
    rationals rounded to 53 bits (ties to even), with monotonicity and exactness.

  \<^bold>\<open>The programs\<close>, one theory each, with one definition per C function and handler, named as in C:
  \<^item> \<open>Uprobe\<close> (\<^verbatim>\<open>uprobe/uprobe.c\<close>): the request counter per process, atomically and interleaved at the
    granularity of helper calls; no interleaving loses a request, and every request is counted in the
    end.
  \<^item> \<open>Rps\<close> (\<^verbatim>\<open>rps/rps.bpf.c\<close> with the poller of \<^verbatim>\<open>rps.go\<close>): connections per cgroup; exact
    when sequential, never over-counting but possibly under-counting when interleaved.
  \<^item> \<open>Cpu_Tracker\<close> (\<^verbatim>\<open>cpu_tracker/cpu_tracker.bpf.c\<close>): run time, context switches, threads.
    \<open>Cpu_Races\<close> interleaves the updates of the thread count, which are not atomic.
  \<^item> \<open>Memory_Tracker\<close> (\<^verbatim>\<open>memory_tracker/memory_tracker.bpf.c\<close>): allocations, live bytes, size classes.
  \<^item> \<open>Http_Metrics\<close> (\<^verbatim>\<open>http_metrics/http_metrics.bpf.c\<close>): requests matched to responses, the latency
    histogram, the parsers of request line and status code.
  \<^item> \<open>Fs_Tracker\<close> (\<^verbatim>\<open>fs_tracker/fs_tracker.bpf.c\<close>): opens, reads and writes with their latency.
    \<open>Fs_Refinement\<close> states what it promises about opens as an abstract machine, which it refines.
  \<^item> \<open>App_Specific\<close> (\<^verbatim>\<open>app_specific/app_specific.bpf.c\<close>): queries, cache lookups, collections.
  \<^item> \<open>Security_Monitor\<close> (\<^verbatim>\<open>security_monitor/security_monitor.bpf.c\<close>, and the policy tables that
    \<^verbatim>\<open>security_monitor.go\<close> installs): system calls, executed programs, opened files, alerts.

  \<open>Charge_Races\<close> interleaves the step that six of them share, to look an entry up, to create it or to
  add to it. The locale \<open>charging\<close>, interpreted for seven counters, says what a charge adds; no counter
  loses a charge once its entry exists, and any number can be lost while it is created.

  The state of a program is a record of its maps and of the events submitted so far; a handler takes
  the invocation's inputs, its context and the state, and returns the state. A store through a
  null pointer or a read outside a buffer is a value of \<open>bpf_fault\<close> beside the state at that
  point. \<open>*_step\<close> is the sum of a program's hooks, and a run is a \<open>fold\<close> of it, so that theorems
  about runs hold for every order of the hooks.

  \<^bold>\<open>Layout.\<close> \<open>C_Layout\<close> is the structure layout of x86-64 with soundness lemmas (members in order,
  disjoint, aligned, inside); \<open>Go_Layout\<close> is that of Go, with stores and casts. \<open>Kernel_Types\<close> holds the types of \<^verbatim>\<open>headers/vmlinux.h\<close> that the
  programs reach and most of those they point to, with every type these contain by value, and
  \<open>Kernel_Layout\<close> applies the soundness lemmas to all of them. \<open>Event_Layout\<close> relates the event
  structures in C to the structures that the Go side casts to: whatever a program stores, the cast reads
  back. \<open>Kernel_Memory\<close> relates the objects of \<open>Bpf_Env\<close> to bytes of kernel memory: the pointer walks
  of \<open>BPF_CORE_READ\<close> compute what the models read.

  \<^bold>\<open>The Go side\<close>, from the maps to the backend:
  \<^item> \<open>Map_Values\<close>: the values of the maps in C and the structures the collectors read them into. The library
    that does so is a parameter; the locale \<open>unmarshaller\<close> is its documented contract (fields without
    padding, an error if the size differs), interpreted on a concrete function. The locale
    \<open>counters_value\<close>, interpreted for eight kinds of values, says that they are read back.
  \<^item> \<open>Container_Mapper\<close> (\<^verbatim>\<open>context/container_mapping.go\<close>): the tables from cgroups and processes to containers.
  \<^item> \<open>Collectors\<close> (\<^verbatim>\<open>cpu_tracker.go\<close>, \<^verbatim>\<open>memory_tracker.go\<close>, \<^verbatim>\<open>http_metrics.go\<close>, \<^verbatim>\<open>fs_tracker.go\<close>,
    \<^verbatim>\<open>security_monitor.go\<close>): iteration over a map, attribution and the messages. \<open>Reports\<close> proves what the
    messages say of the runs of the programs.
  \<^item> \<open>App_Collector\<close> (\<^verbatim>\<open>app_specific.go\<close>): three passes that fill one table of messages. The locale
    \<open>group_pass\<close>, interpreted for each, says that a pass changes each group by its own entry only; the
    message of a group is then a function of its events.
  \<^item> \<open>Network_Flow\<close> (\<^verbatim>\<open>network_flow.go\<close>): the second poller of the counters of \<open>Rps\<close>, interleaved with the
    first and with the program.
  \<^item> \<open>Sender\<close> (\<^verbatim>\<open>ebpf.go\<close>, \<^verbatim>\<open>sender.go\<close>): the handlers, the channel and the batches. Handlers, ticker,
    receipts and answers are events; the properties hold for every order of them.

  \<^bold>\<open>Composition.\<close> \<open>Watcher\<close> runs the six programs that \<^verbatim>\<open>ebpf.go\<close> attaches on one stream of kernel
  events. The locale \<open>part\<close>, interpreted for each program, says that a program inside the whole makes
  exactly its own run. Two properties span programs: one sensitive open yields two reports that agree,
  and the opens of fs_tracker are bounded by the system calls of security_monitor. The properties of
  \<open>Reports\<close> and \<open>App_Collector\<close> go from the hooks of a program to the messages of its collector.
  \<open>Pipeline\<close> puts everything together: kernel events, refreshes of the container table, rounds of the
  collectors, pollers and sender interleave in one state. The locale \<open>driven_part\<close>, interpreted for the
  connection counters and for the sender, says that a part makes a run of its own also where its events
  depend on the rest. The properties follow messages from the backend back to kernel events, and forth. \<open>Figures\<close> says which
  figures of a message no program ever counts, and which belong together.

  \<^bold>\<open>Life cycle.\<close> \<open>Attachments\<close> models how the collectors load and attach the programs and give them back: the
  constructors, \<open>Start\<close>, the attach functions and \<open>Close\<close> of each, and those of \<^verbatim>\<open>ebpf.go\<close>. The world is the
  multiset of what the process holds in the kernel; the answers of the library and of the kernel are inputs of
  every call. \<open>balanced\<close> and \<open>asks\<close>, closed under the ways in which the code puts calls together, say that what an operation
  takes its tracker knows of, and what it may attach. The properties say that the hooks of \<open>Watcher\<close>
  are the programs that the kernel runs after a start, which programs no start attaches, and that \<open>Close\<close> leaves nothing.
  \<open>Process\<close> interleaves the main goroutine (\<^verbatim>\<open>main.go\<close>, \<^verbatim>\<open>collector.go\<close>, \<^verbatim>\<open>stats.go\<close>) with the one that a signal wakes, one
  step per call, in any order: the eBPF collector is started only after a signal, a signal ends the process, and
  what is given back depends on who comes first. \<open>Pipeline\<close> and \<open>Watcher\<close> describe what the node does from
  the start of the eBPF collector on.

  \<^bold>\<open>What the properties show.\<close> Counters that are exact (requests, connections, system calls,
  live bytes, run time, histograms); measurements end to end under arbitrary interference of other
  threads; parsers and searches that stay in their buffers and compute what they should; a refinement of
  the thread counter to a saturating natural number, of the application metrics to a summary of their
  events, and of record heaps to memory; and, where the code does less, exactly what it does:
  null pointers, entries that leak, hooks that are never attached, alerts that cannot fire. Of the Go
  side: values that are read back and one that never is; messages that are computed from the events of a
  run, and estimates that belong together; a channel that loses reports only when it is full, and a
  sender that delivers the rest in order, without any identity of a container.

  \<^bold>\<open>Bounds.\<close> Counters are words of 64 bits and wrap; equations of counters are modulo \<open>2 ^ 64\<close>. The
  theorems that need room in a map say so, either for the map at hand or by a set of keys no larger
  than \<open>max_entries\<close> (1024, 10000 or 16384 as declared). Loops of the programs are bounded by constants
  of the code (256 characters of a path, 64 of a name, ten buckets) and are recursive functions on
  the remaining iterations, so no fuel is needed. A schedule of \<open>Process\<close> is a list of steps; a rank that every
  step but a scrape lowers bounds it.

  \<^bold>\<open>Not modelled.\<close> The contents of the stack trace maps, which the kernel fills; eviction in the two
  maps that no program touches; preemption inside the programs other than \<open>Uprobe\<close>, \<open>Rps\<close>, the thread
  count of \<open>Cpu_Tracker\<close> and the charge of an entry: in the other theories a hook is one step; the kernel's verifier. Of the Go side:
  the inside of the third-party library, whose answers are inputs, and the readers of ring buffers that only
  write to the log. A \<open>Start\<close> or \<open>Close\<close> of one collector is a single step of \<open>Process\<close>, as are the starts of the Kubernetes
  collectors, which succeed or fail. A batch whose call takes longer than a minute delays the next one and nothing else, so time is
  not modelled beyond the order of events. The watcher's Kubernetes side, the backend, the engine, the operator
  and the frontend are mostly I/O in other languages. Of \<^verbatim>\<open>vmlinux.h\<close> the types that no program reaches are
  left out.
\<close>

end
